(* ===== verification/Prelude.thy ===== *)
theory Prelude
  imports Complex_Main "HOL-Library.Word"
begin

text \<open>
  What the components of the 64cam model share: the machine types of the source, the part
  of the Rust string library the code calls, and the state-and-error programs in which
  every handler is written, with the rules that carry an invariant through them.
\<close>

section \<open>Machine types\<close>

text \<open>
  A \<open>String\<close> or byte slice of the source is a \<open>string\<close>, one character per byte of
  its UTF-8 encoding. A time is a number of microseconds since the epoch, the resolution of
  a \<open>TIMESTAMPTZ\<close> column.
\<close>

type_synonym uuid = "128 word"
type_synonym u16 = "16 word"
type_synonym u32 = "32 word"
type_synonym i32 = "32 word"
type_synonym u64 = "64 word"
type_synonym i64 = "64 word"
type_synonym f32 = rat
type_synonym time = int

definition seconds :: "int \<Rightarrow> time" where
  "seconds n = n * 1000000"

definition days :: "int \<Rightarrow> time" where
  "days n = seconds (n * 86400)"

lemma seconds_mono [simp]: "seconds m \<le> seconds n \<longleftrightarrow> m \<le> n"
  by (simp add: seconds_def)

lemma days_mono [simp]: "days m \<le> days n \<longleftrightarrow> m \<le> n"
  by (simp add: days_def)

section \<open>Strings\<close>

text \<open>\<open>str::strip_prefix\<close>, \<open>str::starts_with\<close>.\<close>

definition starts_with :: "string \<Rightarrow> string \<Rightarrow> bool" where
  "starts_with p s \<longleftrightarrow> take (length p) s = p"

definition strip_prefix :: "string \<Rightarrow> string \<Rightarrow> string option" where
  "strip_prefix p s = (if starts_with p s then Some (drop (length p) s) else None)"

text \<open>\<open>str::find\<close> with a string pattern: the byte offset of the first occurrence.\<close>

fun find_str :: "string \<Rightarrow> string \<Rightarrow> nat option" where
  "find_str p [] = (if p = [] then Some 0 else None)"
| "find_str p (c # cs) =
     (if starts_with p (c # cs) then Some 0 else map_option Suc (find_str p cs))"

text \<open>\<open>str::contains\<close> with a string pattern.\<close>

definition contains_str :: "string \<Rightarrow> string \<Rightarrow> bool" where
  "contains_str p s \<longleftrightarrow> find_str p s \<noteq> None"

text \<open>\<open>str::trim_end_matches\<close>, \<open>str::trim_start_matches\<close> with a character.\<close>

definition trim_start_matches :: "char \<Rightarrow> string \<Rightarrow> string" where
  "trim_start_matches c s = dropWhile (\<lambda>x. x = c) s"

definition trim_end_matches :: "char \<Rightarrow> string \<Rightarrow> string" where
  "trim_end_matches c s = rev (dropWhile (\<lambda>x. x = c) (rev s))"

text \<open>\<open>str::replace\<close> of a character by a string.\<close>

definition replace_char :: "char \<Rightarrow> string \<Rightarrow> string \<Rightarrow> string" where
  "replace_char c r s = concat (map (\<lambda>x. if x = c then r else [x]) s)"

text \<open>\<open>str::trim\<close> on text whose only white space is ASCII.\<close>

definition is_ascii_space :: "char \<Rightarrow> bool" where
  "is_ascii_space c \<longleftrightarrow> of_char c \<in> {9 :: nat, 10, 11, 12, 13, 32}"

definition trim :: "string \<Rightarrow> string" where
  "trim s = rev (dropWhile is_ascii_space (rev (dropWhile is_ascii_space s)))"

text \<open>\<open>format!("{}")\<close> of an unsigned number, and \<open>str::parse\<close> of one with an upper bound.\<close>

definition digit_char :: "nat \<Rightarrow> char" where
  "digit_char n = char_of (48 + n)"

fun show_nat :: "nat \<Rightarrow> string" where
  "show_nat n =
     (if n < 10 then [digit_char n] else show_nat (n div 10) @ [digit_char (n mod 10)])"

declare show_nat.simps [simp del]

definition is_digit :: "char \<Rightarrow> bool" where
  "is_digit c \<longleftrightarrow> 48 \<le> (of_char c :: nat) \<and> (of_char c :: nat) \<le> 57"

definition digits_value :: "string \<Rightarrow> nat" where
  "digits_value ds = foldl (\<lambda>n c. 10 * n + (of_char c - 48)) 0 ds"

definition parse_unsigned :: "nat \<Rightarrow> string \<Rightarrow> nat option" where
  "parse_unsigned bound s =
     (let ds = (case s of c # cs \<Rightarrow> if c = CHR ''+'' then cs else s | [] \<Rightarrow> []) in
      if ds \<noteq> [] \<and> list_all is_digit ds \<and> digits_value ds \<le> bound then Some (digits_value ds)
      else None)"

text \<open>\<open>to_lowercase\<close> of the ASCII letters.\<close>

definition ascii_lower :: "char \<Rightarrow> char" where
  "ascii_lower c = (if 65 \<le> (of_char c :: nat) \<and> (of_char c :: nat) \<le> 90
                    then char_of (of_char c + 32 :: nat) else c)"

text \<open>A line feed.\<close>

definition nl :: string where
  "nl = [CHR 0x0A]"

lemma starts_with_append [simp]: "starts_with p (p @ s)"
  by (simp add: starts_with_def)

lemma starts_with_Nil [simp]: "starts_with [] s"
  by (simp add: starts_with_def)

lemma starts_with_Cons [simp]:
  "starts_with (a # p) (b # s) \<longleftrightarrow> a = b \<and> starts_with p s"
  by (auto simp: starts_with_def)

lemma starts_with_Cons_Nil [simp]: "\<not> starts_with (a # p) []"
  by (simp add: starts_with_def)

lemma starts_with_iff: "starts_with p s \<longleftrightarrow> (\<exists>t. s = p @ t)"
proof
  assume "starts_with p s"
  then have "s = p @ drop (length p) s"
    by (metis append_take_drop_id starts_with_def)
  then show "\<exists>t. s = p @ t" ..
qed auto

lemma strip_prefix_Some_iff: "strip_prefix p s = Some t \<longleftrightarrow> s = p @ t"
  by (auto simp: strip_prefix_def starts_with_iff)

lemma strip_prefix_append [simp]: "strip_prefix p (p @ s) = Some s"
  by (simp add: strip_prefix_Some_iff)

lemma find_str_Some:
  "find_str p s = Some i \<Longrightarrow> i \<le> length s \<and> starts_with p (drop i s)"
  by (induction s arbitrary: i) (auto split: if_splits)

lemma find_str_least:
  "find_str p s = Some i \<Longrightarrow> j < i \<Longrightarrow> \<not> starts_with p (drop j s)"
proof (induction s arbitrary: i j)
  case Nil
  then show ?case by (auto split: if_splits)
next
  case (Cons c s)
  then show ?case
    by (cases j) (auto split: if_splits)
qed

lemma find_str_None: "find_str p s = None \<Longrightarrow> \<not> starts_with p (drop j s)"
proof (induction s arbitrary: j)
  case Nil
  then show ?case by (cases p) (auto split: if_splits)
next
  case (Cons c s)
  then show ?case by (cases j) (auto split: if_splits)
qed

lemma replace_char_append [simp]:
  "replace_char c r (s @ t) = replace_char c r s @ replace_char c r t"
  by (simp add: replace_char_def)

lemma replace_char_Nil [simp]: "replace_char c r [] = []"
  by (simp add: replace_char_def)

lemma replace_char_Cons [simp]:
  "replace_char c r (x # s) = (if x = c then r else [x]) @ replace_char c r s"
  by (simp add: replace_char_def)

section \<open>Programs with state and errors\<close>

text \<open>
  A handler reads and changes the state and ends in a value or an error; the state it leaves
  is kept in both cases, as the effects of an \<open>async fn\<close> that returns \<open>Err\<close> are.
\<close>

type_synonym ('s, 'e, 'a) prog = "'s \<Rightarrow> ('e + 'a) \<times> 's"

definition ret :: "'a \<Rightarrow> ('s, 'e, 'a) prog" where
  "ret x = (\<lambda>s. (Inr x, s))"

definition throw :: "'e \<Rightarrow> ('s, 'e, 'a) prog" where
  "throw e = (\<lambda>s. (Inl e, s))"

text \<open>The \<open>?\<close> operator: run \<open>m\<close>, leave with its error, or go on with its value.\<close>

definition andthen :: "('s, 'e, 'a) prog \<Rightarrow> ('a \<Rightarrow> ('s, 'e, 'b) prog) \<Rightarrow> ('s, 'e, 'b) prog" where
  "andthen m f = (\<lambda>s. case m s of (Inl e, t) \<Rightarrow> (Inl e, t) | (Inr x, t) \<Rightarrow> f x t)"

text \<open>\<open>map_err\<close>; the result as a value (\<open>match\<close>, \<open>let _ =\<close>, \<open>unwrap_or\<close>); an early return.\<close>

definition map_err :: "('e \<Rightarrow> 'f) \<Rightarrow> ('s, 'e, 'a) prog \<Rightarrow> ('s, 'f, 'a) prog" where
  "map_err g m = (\<lambda>s. case m s of (Inl e, t) \<Rightarrow> (Inl (g e), t) | (Inr x, t) \<Rightarrow> (Inr x, t))"

definition attempt :: "('s, 'e, 'a) prog \<Rightarrow> ('s, 'f, 'e + 'a) prog" where
  "attempt m = (\<lambda>s. (Inr (fst (m s)), snd (m s)))"

definition ensure :: "bool \<Rightarrow> 'e \<Rightarrow> ('s, 'e, unit) prog" where
  "ensure b e = (if b then ret () else throw e)"

definition ok_or :: "'e \<Rightarrow> 'a option \<Rightarrow> ('s, 'e, 'a) prog" where
  "ok_or e x = (case x of None \<Rightarrow> throw e | Some v \<Rightarrow> ret v)"

definition modify :: "('s \<Rightarrow> 's) \<Rightarrow> ('s, 'e, unit) prog" where
  "modify f = (\<lambda>s. (Inr (), f s))"

definition gets :: "('s \<Rightarrow> 'a) \<Rightarrow> ('s, 'e, 'a) prog" where
  "gets f = (\<lambda>s. (Inr (f s), s))"

definition unwrap_or :: "'a \<Rightarrow> 'e + 'a \<Rightarrow> 'a" where
  "unwrap_or d r = (case r of Inl _ \<Rightarrow> d | Inr x \<Rightarrow> x)"

named_theorems prog_simps

lemma ret_apply [simp, prog_simps]: "ret x s = (Inr x, s)"
  by (simp add: ret_def)

lemma throw_apply [simp, prog_simps]: "throw e s = (Inl e, s)"
  by (simp add: throw_def)

lemma andthen_apply [prog_simps]:
  "andthen m f s = (case m s of (Inl e, t) \<Rightarrow> (Inl e, t) | (Inr x, t) \<Rightarrow> f x t)"
  by (simp add: andthen_def)

lemma andthen_Inr:
  "andthen m f s = (Inr x, t) \<longleftrightarrow> (\<exists>y u. m s = (Inr y, u) \<and> f y u = (Inr x, t))"
  by (auto simp: andthen_def split: prod.splits sum.splits)

lemma ensure_Inr: "ensure b e s = (Inr x, t) \<longleftrightarrow> b \<and> t = s"
  by (auto simp: ensure_def)

lemma ok_or_Inr: "ok_or e y s = (Inr x, t) \<longleftrightarrow> y = Some x \<and> t = s"
  by (auto simp: ok_or_def split: option.splits)

lemma map_err_apply [prog_simps]:
  "map_err g m s = (case m s of (Inl e, t) \<Rightarrow> (Inl (g e), t) | (Inr x, t) \<Rightarrow> (Inr x, t))"
  by (simp add: map_err_def)

lemma attempt_apply [simp, prog_simps]: "attempt m s = (Inr (fst (m s)), snd (m s))"
  by (simp add: attempt_def)

lemma ensure_apply [prog_simps]: "ensure b e s = (if b then Inr () else Inl e, s)"
  by (simp add: ensure_def)

lemma ok_or_apply [prog_simps]:
  "ok_or e x s = (case x of None \<Rightarrow> Inl e | Some v \<Rightarrow> Inr v, s)"
  by (simp add: ok_or_def split: option.splits)

lemma modify_apply [simp, prog_simps]: "modify f s = (Inr (), f s)"
  by (simp add: modify_def)

lemma gets_apply [simp, prog_simps]: "gets f s = (Inr (f s), s)"
  by (simp add: gets_def)

lemma unwrap_or_simps [simp, prog_simps]: "unwrap_or d (Inl e) = d" "unwrap_or d (Inr x) = x"
  by (simp_all add: unwrap_or_def)

subsection \<open>Invariants of programs\<close>

text \<open>\<open>keeps I m\<close>: the program \<open>m\<close> ends in a state with \<open>I\<close> whenever it starts in one, on every path.\<close>

definition keeps :: "('s \<Rightarrow> bool) \<Rightarrow> ('s, 'e, 'a) prog \<Rightarrow> bool" where
  "keeps I m \<longleftrightarrow> (\<forall>s. I s \<longrightarrow> I (snd (m s)))"

named_theorems keeps_rules

lemma keepsI: "(\<And>s. I s \<Longrightarrow> I (snd (m s))) \<Longrightarrow> keeps I m"
  by (simp add: keeps_def)

lemma keepsD: "keeps I m \<Longrightarrow> I s \<Longrightarrow> I (snd (m s))"
  by (simp add: keeps_def)

lemma keeps_ret [keeps_rules]: "keeps I (ret x)"
  by (simp add: keeps_def)

lemma keeps_Pair [keeps_rules]: "keeps I (Pair r)"
  by (simp add: keeps_def)

lemma keeps_throw [keeps_rules]: "keeps I (throw e)"
  by (simp add: keeps_def)

lemma keeps_andthen [keeps_rules]:
  "keeps I m \<Longrightarrow> (\<And>x. keeps I (f x)) \<Longrightarrow> keeps I (andthen m f)"
  by (fastforce simp: keeps_def andthen_def split: prod.splits sum.splits)

lemma keeps_map_err [keeps_rules]: "keeps I m \<Longrightarrow> keeps I (map_err g m)"
  by (fastforce simp: keeps_def map_err_def split: prod.splits sum.splits)

lemma keeps_attempt [keeps_rules]: "keeps I m \<Longrightarrow> keeps I (attempt m)"
  by (simp add: keeps_def)

lemma keeps_ensure [keeps_rules]: "keeps I (ensure b e)"
  by (simp add: keeps_def prog_simps)

lemma keeps_ok_or [keeps_rules]: "keeps I (ok_or e x)"
  by (simp add: keeps_def prog_simps)

lemma keeps_gets [keeps_rules]: "keeps I (gets f)"
  by (simp add: keeps_def)

lemma keeps_if [keeps_rules]: "(b \<Longrightarrow> keeps I m) \<Longrightarrow> (\<not> b \<Longrightarrow> keeps I n) \<Longrightarrow> keeps I (if b then m else n)"
  by simp

section \<open>Rows of a table\<close>

text \<open>
  A table is the list of its rows. \<open>UPDATE .. WHERE\<close> rewrites the matching rows in place and
  \<open>DELETE .. WHERE\<close> drops them.
\<close>

definition update_where :: "('r \<Rightarrow> bool) \<Rightarrow> ('r \<Rightarrow> 'r) \<Rightarrow> 'r list \<Rightarrow> 'r list" where
  "update_where P f rs = map (\<lambda>r. if P r then f r else r) rs"

definition delete_where :: "('r \<Rightarrow> bool) \<Rightarrow> 'r list \<Rightarrow> 'r list" where
  "delete_where P rs = filter (\<lambda>r. \<not> P r) rs"

lemma set_delete_where [simp]: "set (delete_where P rs) = {r \<in> set rs. \<not> P r}"
  by (auto simp: delete_where_def)

lemma set_update_where:
  "set (update_where P f rs) = {r \<in> set rs. \<not> P r} \<union> f ` {r \<in> set rs. P r}"
  by (auto simp: update_where_def)

lemma map_update_where:
  "(\<And>r. P r \<Longrightarrow> k (f r) = k r) \<Longrightarrow> map k (update_where P f rs) = map k rs"
  by (simp add: update_where_def)

lemma update_where_none: "(\<And>r. r \<in> set rs \<Longrightarrow> \<not> P r) \<Longrightarrow> update_where P f rs = rs"
  by (simp add: update_where_def map_idI)

lemma delete_where_none: "(\<And>r. r \<in> set rs \<Longrightarrow> \<not> P r) \<Longrightarrow> delete_where P rs = rs"
  by (simp add: delete_where_def)

lemma distinct_map_delete_where: "distinct (map k rs) \<Longrightarrow> distinct (map k (delete_where P rs))"
  by (simp add: delete_where_def distinct_map_filter)

lemma find_key_Some:
  "find (\<lambda>r. k r = x) rs = Some r \<Longrightarrow> r \<in> set rs \<and> k r = x"
  by (auto simp: find_Some_iff)

lemma find_key_unique:
  assumes "distinct (map k rs)" and "r \<in> set rs"
  shows "find (\<lambda>q. k q = k r) rs = Some r"
  using assms by (induction rs) (auto simp: image_iff)

lemma filter_key_single:
  "distinct (map k rs) \<Longrightarrow> r \<in> set rs \<Longrightarrow> k r = x \<Longrightarrow> filter (\<lambda>q. k q = x) rs = [r]"
  by (induction rs) (auto simp: filter_empty_conv image_iff)

lemma find_None_key: "find (\<lambda>r. k r = x) rs = None \<longleftrightarrow> x \<notin> k ` set rs"
  by (auto simp: find_None_iff)

lemma distinct_single: "distinct xs \<Longrightarrow> set xs = {x} \<Longrightarrow> xs = [x]"
  by (cases xs; cases "tl xs") auto

text \<open>A join on the key of \<open>rs\<close>, with the condition written inside the comprehension.\<close>

lemma join_key_single:
  assumes "distinct (map k rs)" and "r \<in> set rs"
  shows "concat (map (\<lambda>q. if k q = k r then [f q] else []) rs) = [f r]"
proof -
  have "concat (map (\<lambda>q. if P q then [f q] else []) rs) = map f (filter P rs)" for P
    by (induction rs) auto
  with filter_key_single [OF assms refl] show ?thesis by simp
qed

lemma join_none: "(\<And>q. q \<in> set rs \<Longrightarrow> f q = []) \<Longrightarrow> concat (map f rs) = []"
  by auto

text \<open>SQL's \<open>COALESCE\<close> of a bound parameter and a column; \<open>ORDER BY .. DESC\<close>.\<close>

definition coalesce :: "'a option \<Rightarrow> 'a \<Rightarrow> 'a" where
  "coalesce x d = (case x of None \<Rightarrow> d | Some v \<Rightarrow> v)"

lemma coalesce_simps [simp]: "coalesce None d = d" "coalesce (Some v) d = v"
  by (simp_all add: coalesce_def)

definition sort_desc :: "('r \<Rightarrow> int) \<Rightarrow> 'r list \<Rightarrow> 'r list" where
  "sort_desc k rs = sort_key (\<lambda>r. - k r) rs"

lemma set_sort_desc [simp]: "set (sort_desc k rs) = set rs"
  by (simp add: sort_desc_def)

text \<open>\<open>ORDER BY\<close> with \<open>LIMIT n\<close>: what is left out comes after what is returned.\<close>

lemma take_sorted_rest:
  assumes "r \<in> set xs" and "r \<notin> set (take n (sort_key k xs))"
  shows "length (take n (sort_key k xs)) = n \<and> (\<forall>q \<in> set (take n (sort_key k xs)). k q \<le> k r)"
proof -
  let ?l = "sort_key k xs"
  have "r \<in> set ?l" using assms(1) by simp
  then have r: "r \<in> set (drop n ?l)"
    using assms(2) by (metis Un_iff append_take_drop_id set_append)
  have "sorted (map k (take n ?l @ drop n ?l))"
    unfolding append_take_drop_id by (rule sorted_sort_key)
  with r have "\<forall>q \<in> set (take n ?l). k q \<le> k r"
    by (auto simp only: map_append sorted_append set_map)
  moreover have "n \<le> length ?l" using r by (cases "n \<le> length ?l") auto
  ultimately show ?thesis by simp
qed

lemma concat_if_single:
  "distinct xs \<Longrightarrow> x \<in> set xs \<Longrightarrow> concat (map (\<lambda>q. if q = x then ys else []) xs) = ys"
  by (induction xs) (auto intro!: join_none)

text \<open>\<open>fetch_optional\<close>: the first row of a result.\<close>

definition fetch_optional :: "'r list \<Rightarrow> 'r option" where
  "fetch_optional rs = (case rs of [] \<Rightarrow> None | r # _ \<Rightarrow> Some r)"

lemma fetch_optional_simps [simp]:
  "fetch_optional [] = None" "fetch_optional (r # rs) = Some r"
  by (simp_all add: fetch_optional_def)

lemma fetch_optional_None [simp]: "fetch_optional rs = None \<longleftrightarrow> rs = []"
  by (simp add: fetch_optional_def split: list.splits)

lemma fetch_optional_in: "fetch_optional rs = Some r \<Longrightarrow> r \<in> set rs"
  by (auto simp: fetch_optional_def split: list.splits)

text \<open>\<open>ORDER BY\<close> with \<open>LIMIT 1\<close>: the first row whose key is least.\<close>

fun first_min :: "('r \<Rightarrow> 'k :: linorder) \<Rightarrow> 'r list \<Rightarrow> 'r option" where
  "first_min k [] = None"
| "first_min k (r # rs) =
     (case first_min k rs of None \<Rightarrow> Some r | Some q \<Rightarrow> Some (if k r \<le> k q then r else q))"

lemma first_min_None [simp]: "first_min k rs = None \<longleftrightarrow> rs = []"
  by (cases rs) (auto split: option.splits)

lemma first_min_Some:
  "first_min k rs = Some r \<Longrightarrow> r \<in> set rs \<and> (\<forall>q \<in> set rs. k r \<le> k q)"
proof (induction rs arbitrary: r)
  case Nil
  then show ?case by simp
next
  case (Cons a rs)
  show ?case
  proof (cases "first_min k rs")
    case None
    with Cons.prems show ?thesis by simp
  next
    case (Some q)
    from Cons.IH [OF this] have "q \<in> set rs" and "\<forall>p \<in> set rs. k q \<le> k p" by auto
    with Some Cons.prems show ?thesis by (auto split: if_splits)
  qed
qed

end
