(* ===== verification/Models.thy ===== *)
theory Models
  imports Prelude
begin

text \<open>
  The data of the program: the rows of the tables (\<open>common/src/models\<close> and the columns of
  \<open>migrations/\<close> that the models leave out), the request bodies of the API, and the messages of
  the coordinator-node WebSocket (\<open>common/src/ws.rs\<close>). A message on the wire is JSON text; it is
  represented by the value it encodes, and text that does not decode by \<open>None\<close> where it is read.
\<close>

section \<open>JSON values\<close>

datatype json =
    JNull
  | JBool bool
  | JInt int
  | JFloat f32
  | JStr string
  | JArr "json list"
  | JObj "(string \<times> json) list"

definition json_opt :: "('a \<Rightarrow> json) \<Rightarrow> 'a option \<Rightarrow> json" where
  "json_opt f x = (case x of None \<Rightarrow> JNull | Some v \<Rightarrow> f v)"

section \<open>Rows\<close>

record role =
  role_id :: uuid
  role_name :: string

record user =
  user_id :: uuid
  user_email :: string
  user_password_hash :: string
  user_role_id :: uuid
  user_created_at :: time
  user_updated_at :: time

record session =
  ses_id :: uuid
  ses_user_id :: uuid
  ses_token_hash :: string
  ses_expires_at :: time

datatype node_status = Pending | Approved | Rejected

text \<open>\<open>ip_addr\<close> is an \<open>INET\<close> column: a host address with the length of its network prefix.\<close>

record inet =
  inet_host :: string
  inet_masklen :: nat

record node =
  node_id :: uuid
  node_name :: string
  node_api_key_hash :: string
  node_status :: node_status
  node_last_seen_at :: "time option"
  node_ip_addr :: "inet option"
  node_version :: "string option"
  node_metadata :: json
  node_created_at :: time
  node_updated_at :: time

record camera =
  cam_id :: uuid
  cam_node_id :: uuid
  cam_name :: string
  cam_rtsp_url :: string
  cam_stream_path :: "string option"
  cam_enabled :: bool
  cam_metadata :: json
  cam_created_at :: time
  cam_updated_at :: time
  cam_onvif_url :: "string option"
  cam_onvif_username :: "string option"
  cam_onvif_password :: "string option"
  cam_motion_detection :: bool
  cam_retention_policy_id :: "uuid option"

record policy =
  pol_id :: uuid
  pol_name :: string
  pol_keep_days :: i32
  pol_is_default :: bool
  pol_created_at :: time

record recording =
  rec_id :: uuid
  rec_camera_id :: uuid
  rec_node_id :: uuid
  rec_storage_uri :: string
  rec_started_at :: time
  rec_ended_at :: "time option"
  rec_duration_secs :: "i32 option"
  rec_size_bytes :: "i64 option"
  rec_policy_id :: "uuid option"

datatype event_type = Motion | Object_detection | Connectivity | Recording_marker | Custom

record event =
  ev_id :: uuid
  ev_camera_id :: uuid
  ev_node_id :: uuid
  ev_type :: event_type
  ev_source :: "string option"
  ev_score :: "f32 option"
  ev_occurred_at :: time

section \<open>Request bodies\<close>

record create_user_req =
  cu_email :: string
  cu_password :: string
  cu_role_id :: uuid

record update_user_req =
  uu_email :: "string option"
  uu_password :: "string option"
  uu_role_id :: "uuid option"

record create_camera_req =
  cc_node_id :: "uuid option"
  cc_name :: string
  cc_rtsp_url :: string
  cc_stream_path :: "string option"
  cc_onvif_url :: "string option"
  cc_onvif_username :: "string option"
  cc_onvif_password :: "string option"
  cc_motion_detection :: "bool option"

record update_camera_req =
  uc_name :: "string option"
  uc_rtsp_url :: "string option"
  uc_stream_path :: "string option"
  uc_enabled :: "bool option"
  uc_onvif_url :: "string option"
  uc_onvif_username :: "string option"
  uc_onvif_password :: "string option"
  uc_motion_detection :: "bool option"

record create_policy =
  cp_name :: string
  cp_keep_days :: i32
  cp_is_default :: "bool option"

record update_policy =
  up_name :: "string option"
  up_keep_days :: "i32 option"
  up_is_default :: "bool option"

section \<open>API views of rows\<close>

text \<open>\<open>UserResponse\<close> and \<open>NodeResponse\<close>: the row without its secret column.\<close>

record user_response =
  ur_id :: uuid
  ur_email :: string
  ur_role_id :: uuid
  ur_created_at :: time
  ur_updated_at :: time

definition user_response_from :: "user \<Rightarrow> user_response" where
  "user_response_from u =
     \<lparr>ur_id = user_id u, ur_email = user_email u, ur_role_id = user_role_id u,
      ur_created_at = user_created_at u, ur_updated_at = user_updated_at u\<rparr>"

record node_response =
  nr_id :: uuid
  nr_name :: string
  nr_status :: node_status
  nr_last_seen_at :: "time option"
  nr_ip_addr :: "string option"
  nr_version :: "string option"
  nr_metadata :: json
  nr_created_at :: time
  nr_updated_at :: time

text \<open>The row's \<open>ip_addr\<close> reaches the API through \<open>CAST(ip_addr AS TEXT)\<close>, here \<open>inet_text\<close>.\<close>

definition node_response_from :: "(inet \<Rightarrow> string) \<Rightarrow> node \<Rightarrow> node_response" where
  "node_response_from inet_text n =
     \<lparr>nr_id = node_id n, nr_name = node_name n, nr_status = node_status n,
      nr_last_seen_at = node_last_seen_at n,
      nr_ip_addr = map_option inet_text (node_ip_addr n),
      nr_version = node_version n, nr_metadata = node_metadata n,
      nr_created_at = node_created_at n, nr_updated_at = node_updated_at n\<rparr>"

section \<open>Access tokens\<close>

text \<open>\<open>iat\<close> and \<open>exp\<close> are seconds since the epoch.\<close>

record claims =
  sub :: uuid
  claim_email :: string
  claim_role :: string
  iat :: int
  exp_at :: int

section \<open>WebSocket messages\<close>

record hardware_profile =
  cpu_cores :: u32
  cpu_model :: string
  ram_total_mb :: u64
  ram_available_mb :: u64
  hw_accel :: "string list"

record camera_status =
  cs_camera_id :: uuid
  cs_stream_path :: string
  cs_connected :: bool
  cs_readers :: u32

record heartbeat_payload =
  hb_node_id :: uuid
  hb_hardware :: hardware_profile
  hb_cameras :: "camera_status list"
  hb_mediamtx_version :: "string option"

record node_camera_cfg =
  ncc_id :: uuid
  ncc_name :: string
  ncc_rtsp_url :: string
  ncc_stream_path :: string
  ncc_enabled :: bool
  ncc_onvif_url :: "string option"
  ncc_onvif_username :: "string option"
  ncc_onvif_password :: "string option"
  ncc_motion_detection :: bool

record segment_migrated_payload =
  sm_recording_id :: uuid
  sm_started_at :: time
  sm_storage_uri :: string

record event_payload =
  ep_camera_id :: uuid
  ep_occurred_at :: time
  ep_source :: string
  ep_score :: "f32 option"

record segment_payload =
  seg_id :: uuid
  seg_camera_id :: uuid
  seg_stream_path :: string
  seg_storage_uri :: string
  seg_started_at :: time
  seg_ended_at :: time
  seg_duration_secs :: i32
  seg_size_bytes :: i64

datatype ws_message =
    Heartbeat u64 heartbeat_payload
  | ConfigSync u64 "node_camera_cfg list"
  | CameraAdded u64 node_camera_cfg
  | CameraUpdated u64 node_camera_cfg
  | CameraRemoved u64 uuid
  | SegmentComplete u64 segment_payload
  | DeleteRecording u64 uuid time string
  | MotionEvent u64 event_payload
  | SegmentMigrated u64 segment_migrated_payload
  | Ping u64
  | Pong u64

definition config_sync :: "node_camera_cfg list \<Rightarrow> ws_message" where
  "config_sync cameras = ConfigSync 0 cameras"

text \<open>The JSON of \<open>HardwareProfile\<close> and \<open>CameraStatus\<close>, as stored in \<open>nodes.metadata\<close>.\<close>

definition hardware_json :: "hardware_profile \<Rightarrow> json" where
  "hardware_json h = JObj
     [(''cpu_cores'', JInt (uint (cpu_cores h))), (''cpu_model'', JStr (cpu_model h)),
      (''ram_total_mb'', JInt (uint (ram_total_mb h))),
      (''ram_available_mb'', JInt (uint (ram_available_mb h))),
      (''hw_accel'', JArr (map JStr (hw_accel h)))]"

definition camera_status_json :: "(uuid \<Rightarrow> string) \<Rightarrow> camera_status \<Rightarrow> json" where
  "camera_status_json show_uuid c = JObj
     [(''camera_id'', JStr (show_uuid (cs_camera_id c))),
      (''stream_path'', JStr (cs_stream_path c)), (''connected'', JBool (cs_connected c)),
      (''readers'', JInt (uint (cs_readers c)))]"

end
