(* ===== verification/Database.thy ===== *)
theory Database
  imports Models
begin

text \<open>
  The PostgreSQL database of the coordinator, as the statements of the source see it: the
  tables of \<open>migrations/\<close> with their primary keys, unique indexes, check constraints, foreign
  keys and \<open>ON DELETE\<close> actions. A statement either fails, and then changes nothing, or
  returns its rows with the new database.
\<close>

section \<open>Tables and errors\<close>

datatype sql_error =
    Unique_violation
  | Foreign_key_violation
  | Check_violation
  | Datetime_overflow
  | Invalid_text
  | Row_not_found
  | Unexpected_null
  | Connection_error

record database =
  roles :: "role list"
  users :: "user list"
  sessions :: "session list"
  nodes :: "node list"
  cameras :: "camera list"
  policies :: "policy list"
  recordings :: "recording list"
  events :: "event list"

type_synonym 'a stmt = "database \<Rightarrow> sql_error + 'a \<times> database"

text \<open>A query changes nothing.\<close>

definition query :: "(database \<Rightarrow> 'a) \<Rightarrow> 'a stmt" where
  "query f d = Inr (f d, d)"

text \<open>
  The three statements by primary key. \<open>rows\<close> and \<open>put\<close> select the table; \<open>check d r qs\<close> is
  the constraint that row \<open>r\<close> violates beside the other rows \<open>qs\<close> of its table, if any.
\<close>

definition insert_into ::
  "(database \<Rightarrow> 'r list) \<Rightarrow> ('r list \<Rightarrow> database \<Rightarrow> database) \<Rightarrow>
   (database \<Rightarrow> 'r \<Rightarrow> 'r list \<Rightarrow> sql_error option) \<Rightarrow> 'r \<Rightarrow> 'r stmt" where
  "insert_into rows put check r d =
     (case check d r (rows d) of
        Some e \<Rightarrow> Inl e
      | None \<Rightarrow> Inr (r, put (rows d @ [r]) d))"

definition update_pk ::
  "(database \<Rightarrow> 'r list) \<Rightarrow> ('r list \<Rightarrow> database \<Rightarrow> database) \<Rightarrow> ('r \<Rightarrow> 'k) \<Rightarrow>
   (database \<Rightarrow> 'r \<Rightarrow> 'r list \<Rightarrow> sql_error option) \<Rightarrow> 'k \<Rightarrow> ('r \<Rightarrow> 'r) \<Rightarrow> 'r option stmt" where
  "update_pk rows put key check k f d =
     (case find (\<lambda>r. key r = k) (rows d) of
        None \<Rightarrow> Inr (None, d)
      | Some r \<Rightarrow>
          (case check d (f r) (delete_where (\<lambda>q. key q = k) (rows d)) of
             Some e \<Rightarrow> Inl e
           | None \<Rightarrow> Inr (Some (f r), put (update_where (\<lambda>q. key q = k) f (rows d)) d)))"

definition delete_pk ::
  "(database \<Rightarrow> 'r list) \<Rightarrow> ('r list \<Rightarrow> database \<Rightarrow> database) \<Rightarrow> ('r \<Rightarrow> 'k) \<Rightarrow> 'k \<Rightarrow> 'r option stmt" where
  "delete_pk rows put key k d =
     Inr (find (\<lambda>r. key r = k) (rows d), put (delete_where (\<lambda>r. key r = k) (rows d)) d)"

section \<open>Constraints of the tables\<close>

abbreviation (input) taken :: "('r \<Rightarrow> 'k) \<Rightarrow> 'k \<Rightarrow> 'r list \<Rightarrow> bool" where
  "taken k x rs \<equiv> x \<in> set (map k rs)"

definition user_check :: "database \<Rightarrow> user \<Rightarrow> user list \<Rightarrow> sql_error option" where
  "user_check d u qs =
     (if taken user_id (user_id u) qs \<or> taken user_email (user_email u) qs
      then Some Unique_violation
      else if \<not> taken role_id (user_role_id u) (roles d) then Some Foreign_key_violation
      else None)"

definition session_check :: "database \<Rightarrow> session \<Rightarrow> session list \<Rightarrow> sql_error option" where
  "session_check d s qs =
     (if taken ses_id (ses_id s) qs \<or> taken ses_token_hash (ses_token_hash s) qs
      then Some Unique_violation
      else if \<not> taken user_id (ses_user_id s) (users d) then Some Foreign_key_violation
      else None)"

definition node_check :: "database \<Rightarrow> node \<Rightarrow> node list \<Rightarrow> sql_error option" where
  "node_check d n qs =
     (if taken node_id (node_id n) qs \<or> taken node_api_key_hash (node_api_key_hash n) qs
      then Some Unique_violation else None)"

definition policy_exists :: "database \<Rightarrow> uuid option \<Rightarrow> bool" where
  "policy_exists d x = (case x of None \<Rightarrow> True | Some p \<Rightarrow> taken pol_id p (policies d))"

definition camera_check :: "database \<Rightarrow> camera \<Rightarrow> camera list \<Rightarrow> sql_error option" where
  "camera_check d c qs =
     (if taken cam_id (cam_id c) qs then Some Unique_violation
      else if \<not> taken node_id (cam_node_id c) (nodes d) \<or>
              \<not> policy_exists d (cam_retention_policy_id c)
      then Some Foreign_key_violation else None)"

definition policy_check :: "database \<Rightarrow> policy \<Rightarrow> policy list \<Rightarrow> sql_error option" where
  "policy_check d p qs =
     (if \<not> 0 < sint (pol_keep_days p) then Some Check_violation
      else if taken pol_id (pol_id p) qs \<or> taken pol_name (pol_name p) qs \<or>
              (pol_is_default p \<and> list_ex pol_is_default qs)
      then Some Unique_violation else None)"

definition recording_check :: "database \<Rightarrow> recording \<Rightarrow> recording list \<Rightarrow> sql_error option" where
  "recording_check d r qs =
     (if taken (\<lambda>r. (rec_id r, rec_started_at r)) (rec_id r, rec_started_at r) qs
      then Some Unique_violation
      else if \<not> policy_exists d (rec_policy_id r) then Some Foreign_key_violation else None)"

definition event_check :: "database \<Rightarrow> event \<Rightarrow> event list \<Rightarrow> sql_error option" where
  "event_check d e qs =
     (if taken (\<lambda>e. (ev_id e, ev_occurred_at e)) (ev_id e, ev_occurred_at e) qs
      then Some Unique_violation else None)"

lemmas check_defs =
  user_check_def session_check_def node_check_def camera_check_def policy_check_def
  recording_check_def event_check_def

section \<open>The table interface\<close>

text \<open>
  A table is sound when each of its rows is admissible by itself and no two rows clash.
\<close>

definition sound_rows :: "('r \<Rightarrow> bool) \<Rightarrow> ('r \<Rightarrow> 'r \<Rightarrow> bool) \<Rightarrow> 'r list \<Rightarrow> bool" where
  "sound_rows ok clash rs \<longleftrightarrow> list_all ok rs \<and> sorted_wrt (\<lambda>r q. \<not> clash r q) rs"

lemma sound_rows_delete: "sound_rows ok clash rs \<Longrightarrow> sound_rows ok clash (delete_where P rs)"
  by (auto simp: sound_rows_def delete_where_def list_all_iff sorted_wrt_filter)

text \<open>
  What a component relies on when it reads and writes one table: the table is a part of the
  database that can be read and replaced; its constraints are a condition on each row and a
  symmetric clash between rows, which equal primary keys are an instance of.
\<close>

locale table =
  fixes rows :: "database \<Rightarrow> 'r list"
    and put :: "'r list \<Rightarrow> database \<Rightarrow> database"
    and key :: "'r \<Rightarrow> 'k"
    and check :: "database \<Rightarrow> 'r \<Rightarrow> 'r list \<Rightarrow> sql_error option"
    and ok :: "database \<Rightarrow> 'r \<Rightarrow> bool"
    and clash :: "'r \<Rightarrow> 'r \<Rightarrow> bool"
  assumes rows_put: "rows (put rs d) = rs"
    and check_None: "check d r qs = None \<longleftrightarrow> ok d r \<and> (\<forall>q \<in> set qs. \<not> clash r q)"
    and ok_put: "ok (put rs d) r = ok d r"
    and clash_sym: "clash r q \<Longrightarrow> clash q r"
    and clash_key: "key r = key q \<Longrightarrow> clash r q"
begin

lemma sound_distinct: "sound_rows (ok d) clash rs \<Longrightarrow> distinct (map key rs)"
  by (induction rs) (auto simp: sound_rows_def dest: clash_key)

lemma insert_Inr:
  "insert_into rows put check r d = Inr (x, e) \<longleftrightarrow>
     check d r (rows d) = None \<and> x = r \<and> e = put (rows d @ [r]) d"
  by (auto simp: insert_into_def split: option.splits)

lemma insert_lookup:
  assumes "insert_into rows put check r d = Inr (x, e)"
  shows "find (\<lambda>q. key q = k) (rows e) =
           (if k = key r then Some r else find (\<lambda>q. key q = k) (rows d))"
proof -
  from assms have fresh: "\<forall>q \<in> set (rows d). key r \<noteq> key q" and e: "e = put (rows d @ [r]) d"
    by (auto simp: insert_Inr check_None dest: clash_key)
  have "find (\<lambda>q. key q = k) (qs @ [r]) =
      (if k = key r then Some r else find (\<lambda>q. key q = k) qs)"
    if "\<forall>q \<in> set qs. key r \<noteq> key q" for qs
    using that by (induction qs) auto
  with fresh show ?thesis by (simp add: e rows_put)
qed

lemma insert_sound:
  "insert_into rows put check r d = Inr (x, e) \<Longrightarrow> sound_rows (ok d) clash (rows d) \<Longrightarrow>
     sound_rows (ok e) clash (rows e)"
  by (auto simp: insert_Inr rows_put check_None sound_rows_def ok_put sorted_wrt_append
      list_all_iff dest: clash_sym)

lemma update_None:
  "update_pk rows put key check k f d = Inr (None, e) \<longleftrightarrow>
     k \<notin> key ` set (rows d) \<and> e = d"
  by (auto simp: update_pk_def find_None_iff split: option.splits dest: find_key_Some)

lemma update_Some:
  "update_pk rows put key check k f d = Inr (Some x, e) \<longleftrightarrow>
     (\<exists>r. find (\<lambda>q. key q = k) (rows d) = Some r \<and> x = f r \<and>
        check d (f r) (delete_where (\<lambda>q. key q = k) (rows d)) = None \<and>
        e = put (update_where (\<lambda>q. key q = k) f (rows d)) d)"
  by (auto simp: update_pk_def split: option.splits)

lemma update_lookup:
  assumes "update_pk rows put key check k f d = Inr (Some x, e)" and "\<And>r. key (f r) = key r"
  shows "find (\<lambda>q. key q = j) (rows e) =
           (if j = k then Some x else find (\<lambda>q. key q = j) (rows d))"
proof -
  have "find (\<lambda>q. key q = j) (update_where (\<lambda>q. key q = k) f qs) =
      (if j = k then map_option f (find (\<lambda>q. key q = k) qs) else find (\<lambda>q. key q = j) qs)"
    for qs
    using assms(2) by (induction qs) (auto simp: update_where_def)
  with assms(1) show ?thesis by (auto simp: update_Some rows_put)
qed

lemma update_where_sound:
  assumes "sound_rows (ok d) clash qs" and "r \<in> set qs" and "key r = k" and "ok d (f r)"
    and "\<forall>q \<in> set (delete_where (\<lambda>q. key q = k) qs). \<not> clash (f r) q"
  shows "sound_rows (ok d) clash (update_where (\<lambda>q. key q = k) f qs)"
proof -
  have only: "q = r" if "q \<in> set qs" "key q = k" for q
    using sound_distinct [OF assms(1)] assms(2,3) that by (auto simp: distinct_map inj_on_def)
  have pair: "\<not> clash (if key a = k then f a else a) (if key b = k then f b else b)"
    if "\<not> clash a b" "a \<in> set qs" "b \<in> set qs" for a b
    using that assms(5) only [of a] only [of b] by (auto dest: clash_sym clash_key)
  have "sorted_wrt (\<lambda>a b. \<not> clash (if key a = k then f a else a) (if key b = k then f b else b)) qs"
    using assms(1) by (intro sorted_wrt_mono_rel [OF pair]) (auto simp: sound_rows_def)
  then have "sorted_wrt (\<lambda>r q. \<not> clash r q) (update_where (\<lambda>q. key q = k) f qs)"
    by (simp only: update_where_def sorted_wrt_map)
  moreover have "list_all (ok d) (update_where (\<lambda>q. key q = k) f qs)"
    using assms(1,4) only by (auto simp: update_where_def sound_rows_def list_all_iff)
  ultimately show ?thesis by (simp add: sound_rows_def)
qed

lemma update_sound:
  assumes "update_pk rows put key check k f d = Inr (x, e)"
    and "sound_rows (ok d) clash (rows d)"
  shows "sound_rows (ok e) clash (rows e)"
proof (cases x)
  case None
  with assms show ?thesis by (auto simp: update_None)
next
  case (Some y)
  with assms(1) obtain r where r: "find (\<lambda>q. key q = k) (rows d) = Some r"
      and chk: "check d (f r) (delete_where (\<lambda>q. key q = k) (rows d)) = None"
      and e: "e = put (update_where (\<lambda>q. key q = k) f (rows d)) d"
    by (auto simp: update_Some)
  have "ok e = ok d" by (rule ext) (simp add: e ok_put)
  moreover have "sound_rows (ok d) clash (update_where (\<lambda>q. key q = k) f (rows d))"
    using update_where_sound [OF assms(2), of r k f] find_key_Some [OF r] chk
    by (simp add: check_None)
  ultimately show ?thesis by (simp add: e rows_put)
qed

lemma delete_lookup:
  assumes "delete_pk rows put key k d = Inr (x, e)"
  shows "find (\<lambda>q. key q = j) (rows e) =
           (if j = k then None else find (\<lambda>q. key q = j) (rows d))"
proof -
  have "find (\<lambda>q. key q = j) (delete_where (\<lambda>q. key q = k) qs) =
      (if j = k then None else find (\<lambda>q. key q = j) qs)" for qs
    by (induction qs) (auto simp: delete_where_def)
  with assms show ?thesis by (auto simp: delete_pk_def rows_put)
qed

lemma delete_sound:
  assumes "delete_pk rows put key k d = Inr (x, e)" and "sound_rows (ok d) clash (rows d)"
  shows "sound_rows (ok e) clash (rows e)"
proof -
  from assms(1) have e: "e = put (delete_where (\<lambda>r. key r = k) (rows d)) d"
    by (simp add: delete_pk_def)
  have "ok e = ok d" by (rule ext) (simp add: e ok_put)
  with assms(2) show ?thesis by (simp add: e rows_put sound_rows_delete)
qed

lemma find_iff:
  "sound_rows (ok d) clash (rows d) \<Longrightarrow>
     find (\<lambda>q. key q = k) (rows d) = Some r \<longleftrightarrow> r \<in> set (rows d) \<and> key r = k"
  using find_key_unique [OF sound_distinct, of d "rows d" r]
    find_key_Some [of key k "rows d" r] by auto

end

text \<open>The writers of the tables, named for the interpretations.\<close>

definition put_users :: "user list \<Rightarrow> database \<Rightarrow> database" where
  "put_users rs d = d\<lparr>users := rs\<rparr>"

definition put_sessions :: "session list \<Rightarrow> database \<Rightarrow> database" where
  "put_sessions rs d = d\<lparr>sessions := rs\<rparr>"

definition put_nodes :: "node list \<Rightarrow> database \<Rightarrow> database" where
  "put_nodes rs d = d\<lparr>nodes := rs\<rparr>"

definition put_cameras :: "camera list \<Rightarrow> database \<Rightarrow> database" where
  "put_cameras rs d = d\<lparr>cameras := rs\<rparr>"

definition put_policies :: "policy list \<Rightarrow> database \<Rightarrow> database" where
  "put_policies rs d = d\<lparr>policies := rs\<rparr>"

definition put_recordings :: "recording list \<Rightarrow> database \<Rightarrow> database" where
  "put_recordings rs d = d\<lparr>recordings := rs\<rparr>"

definition put_events :: "event list \<Rightarrow> database \<Rightarrow> database" where
  "put_events rs d = d\<lparr>events := rs\<rparr>"

lemmas put_defs =
  put_users_def put_sessions_def put_nodes_def put_cameras_def put_policies_def
  put_recordings_def put_events_def

definition rec_key :: "recording \<Rightarrow> uuid \<times> time" where
  "rec_key r = (rec_id r, rec_started_at r)"

definition ev_key :: "event \<Rightarrow> uuid \<times> time" where
  "ev_key e = (ev_id e, ev_occurred_at e)"

definition user_ok :: "database \<Rightarrow> user \<Rightarrow> bool" where
  "user_ok d u \<longleftrightarrow> taken role_id (user_role_id u) (roles d)"

definition user_clash :: "user \<Rightarrow> user \<Rightarrow> bool" where
  "user_clash u v \<longleftrightarrow> user_id u = user_id v \<or> user_email u = user_email v"

definition session_ok :: "database \<Rightarrow> session \<Rightarrow> bool" where
  "session_ok d s \<longleftrightarrow> taken user_id (ses_user_id s) (users d)"

definition session_clash :: "session \<Rightarrow> session \<Rightarrow> bool" where
  "session_clash s t \<longleftrightarrow> ses_id s = ses_id t \<or> ses_token_hash s = ses_token_hash t"

definition node_ok :: "database \<Rightarrow> node \<Rightarrow> bool" where
  "node_ok d n \<longleftrightarrow> True"

definition node_clash :: "node \<Rightarrow> node \<Rightarrow> bool" where
  "node_clash n m \<longleftrightarrow> node_id n = node_id m \<or> node_api_key_hash n = node_api_key_hash m"

definition camera_ok :: "database \<Rightarrow> camera \<Rightarrow> bool" where
  "camera_ok d c \<longleftrightarrow>
     taken node_id (cam_node_id c) (nodes d) \<and> policy_exists d (cam_retention_policy_id c)"

definition camera_clash :: "camera \<Rightarrow> camera \<Rightarrow> bool" where
  "camera_clash c b \<longleftrightarrow> cam_id c = cam_id b"

definition policy_ok :: "database \<Rightarrow> policy \<Rightarrow> bool" where
  "policy_ok d p \<longleftrightarrow> 0 < sint (pol_keep_days p)"

definition policy_clash :: "policy \<Rightarrow> policy \<Rightarrow> bool" where
  "policy_clash p q \<longleftrightarrow>
     pol_id p = pol_id q \<or> pol_name p = pol_name q \<or> (pol_is_default p \<and> pol_is_default q)"

definition recording_ok :: "database \<Rightarrow> recording \<Rightarrow> bool" where
  "recording_ok d r \<longleftrightarrow> policy_exists d (rec_policy_id r)"

definition recording_clash :: "recording \<Rightarrow> recording \<Rightarrow> bool" where
  "recording_clash r q \<longleftrightarrow> rec_key r = rec_key q"

definition event_ok :: "database \<Rightarrow> event \<Rightarrow> bool" where
  "event_ok d e \<longleftrightarrow> True"

definition event_clash :: "event \<Rightarrow> event \<Rightarrow> bool" where
  "event_clash e f \<longleftrightarrow> ev_key e = ev_key f"

lemmas ok_defs =
  user_ok_def session_ok_def node_ok_def camera_ok_def policy_ok_def recording_ok_def event_ok_def

lemmas clash_defs =
  user_clash_def session_clash_def node_clash_def camera_clash_def policy_clash_def
  recording_clash_def event_clash_def rec_key_def ev_key_def

interpretation users: table users put_users user_id user_check user_ok user_clash
  by unfold_locales (auto simp: put_defs check_defs ok_defs clash_defs)

interpretation sessions:
  table sessions put_sessions ses_id session_check session_ok session_clash
  by unfold_locales (auto simp: put_defs check_defs ok_defs clash_defs)

interpretation nodes: table nodes put_nodes node_id node_check node_ok node_clash
  by unfold_locales (auto simp: put_defs check_defs ok_defs clash_defs)

interpretation cameras: table cameras put_cameras cam_id camera_check camera_ok camera_clash
  by unfold_locales
    (auto simp: put_defs check_defs ok_defs clash_defs policy_exists_def split: option.splits)

interpretation policies: table policies put_policies pol_id policy_check policy_ok policy_clash
  by unfold_locales (auto simp: put_defs check_defs ok_defs clash_defs list_ex_iff)

interpretation recordings:
  table recordings put_recordings rec_key recording_check recording_ok recording_clash
  by unfold_locales
    (auto simp: put_defs check_defs ok_defs clash_defs policy_exists_def split: option.splits)

interpretation events: table events put_events ev_key event_check event_ok event_clash
  by unfold_locales (auto simp: put_defs check_defs ok_defs clash_defs)

section \<open>Sound databases\<close>

definition db_ok :: "database \<Rightarrow> bool" where
  "db_ok d \<longleftrightarrow>
     distinct (map role_id (roles d)) \<and> distinct (map role_name (roles d)) \<and>
     sound_rows (user_ok d) user_clash (users d) \<and>
     sound_rows (session_ok d) session_clash (sessions d) \<and>
     sound_rows (node_ok d) node_clash (nodes d) \<and>
     sound_rows (camera_ok d) camera_clash (cameras d) \<and>
     sound_rows (policy_ok d) policy_clash (policies d) \<and>
     sound_rows (recording_ok d) recording_clash (recordings d) \<and>
     sound_rows (event_ok d) event_clash (events d)"

text \<open>A row's admissibility only depends on the ids its foreign keys refer to.\<close>

lemma ok_frame [simp]:
  "user_ok (d\<lparr>users := x_users\<rparr>) = user_ok d" "user_ok (d\<lparr>sessions := x_sessions\<rparr>) = user_ok d"
  "user_ok (d\<lparr>nodes := x_nodes\<rparr>) = user_ok d" "user_ok (d\<lparr>cameras := x_cameras\<rparr>) = user_ok d"
  "user_ok (d\<lparr>policies := x_policies\<rparr>) = user_ok d" "user_ok (d\<lparr>recordings := x_recordings\<rparr>) = user_ok d"
  "user_ok (d\<lparr>events := x_events\<rparr>) = user_ok d"
  "session_ok (d\<lparr>sessions := x_sessions\<rparr>) = session_ok d" "session_ok (d\<lparr>nodes := x_nodes\<rparr>) = session_ok d"
  "session_ok (d\<lparr>cameras := x_cameras\<rparr>) = session_ok d" "session_ok (d\<lparr>policies := x_policies\<rparr>) = session_ok d"
  "session_ok (d\<lparr>recordings := x_recordings\<rparr>) = session_ok d" "session_ok (d\<lparr>events := x_events\<rparr>) = session_ok d"
  "node_ok (d\<lparr>users := x_users\<rparr>) = node_ok d" "node_ok (d\<lparr>sessions := x_sessions\<rparr>) = node_ok d"
  "node_ok (d\<lparr>nodes := x_nodes\<rparr>) = node_ok d" "node_ok (d\<lparr>cameras := x_cameras\<rparr>) = node_ok d"
  "node_ok (d\<lparr>policies := x_policies\<rparr>) = node_ok d" "node_ok (d\<lparr>recordings := x_recordings\<rparr>) = node_ok d"
  "node_ok (d\<lparr>events := x_events\<rparr>) = node_ok d"
  "camera_ok (d\<lparr>users := x_users\<rparr>) = camera_ok d" "camera_ok (d\<lparr>sessions := x_sessions\<rparr>) = camera_ok d"
  "camera_ok (d\<lparr>cameras := x_cameras\<rparr>) = camera_ok d" "camera_ok (d\<lparr>recordings := x_recordings\<rparr>) = camera_ok d"
  "camera_ok (d\<lparr>events := x_events\<rparr>) = camera_ok d"
  "policy_ok (d\<lparr>users := x_users\<rparr>) = policy_ok d" "policy_ok (d\<lparr>sessions := x_sessions\<rparr>) = policy_ok d"
  "policy_ok (d\<lparr>nodes := x_nodes\<rparr>) = policy_ok d" "policy_ok (d\<lparr>cameras := x_cameras\<rparr>) = policy_ok d"
  "policy_ok (d\<lparr>policies := x_policies\<rparr>) = policy_ok d" "policy_ok (d\<lparr>recordings := x_recordings\<rparr>) = policy_ok d"
  "policy_ok (d\<lparr>events := x_events\<rparr>) = policy_ok d"
  "recording_ok (d\<lparr>users := x_users\<rparr>) = recording_ok d" "recording_ok (d\<lparr>sessions := x_sessions\<rparr>) = recording_ok d"
  "recording_ok (d\<lparr>nodes := x_nodes\<rparr>) = recording_ok d" "recording_ok (d\<lparr>cameras := x_cameras\<rparr>) = recording_ok d"
  "recording_ok (d\<lparr>recordings := x_recordings\<rparr>) = recording_ok d" "recording_ok (d\<lparr>events := x_events\<rparr>) = recording_ok d"
  "event_ok (d\<lparr>users := x_users\<rparr>) = event_ok d" "event_ok (d\<lparr>sessions := x_sessions\<rparr>) = event_ok d"
  "event_ok (d\<lparr>nodes := x_nodes\<rparr>) = event_ok d" "event_ok (d\<lparr>cameras := x_cameras\<rparr>) = event_ok d"
  "event_ok (d\<lparr>policies := x_policies\<rparr>) = event_ok d" "event_ok (d\<lparr>recordings := x_recordings\<rparr>) = event_ok d"
  "event_ok (d\<lparr>events := x_events\<rparr>) = event_ok d"
  by (simp_all add: fun_eq_iff ok_defs policy_exists_def cong: option.case_cong)

lemma ok_same_ids:
  "map user_id us = map user_id (users d) \<Longrightarrow> session_ok (d\<lparr>users := us\<rparr>) = session_ok d"
  "map node_id ns = map node_id (nodes d) \<Longrightarrow> camera_ok (d\<lparr>nodes := ns\<rparr>) = camera_ok d"
  "map pol_id ps = map pol_id (policies d) \<Longrightarrow> camera_ok (d\<lparr>policies := ps\<rparr>) = camera_ok d"
  "map pol_id ps = map pol_id (policies d) \<Longrightarrow> recording_ok (d\<lparr>policies := ps\<rparr>) = recording_ok d"
  by (simp_all add: fun_eq_iff ok_defs policy_exists_def del: set_map cong: option.case_cong)

lemma ok_more_ids:
  "session_ok d s \<Longrightarrow> session_ok (d\<lparr>users := users d @ us\<rparr>) s"
  "camera_ok d c \<Longrightarrow> camera_ok (d\<lparr>nodes := nodes d @ ns\<rparr>) c"
  "camera_ok d c \<Longrightarrow> camera_ok (d\<lparr>policies := policies d @ ps\<rparr>) c"
  "recording_ok d r \<Longrightarrow> recording_ok (d\<lparr>policies := policies d @ ps\<rparr>) r"
  by (auto simp: ok_defs policy_exists_def split: option.splits)

lemma sound_rows_mono:
  "sound_rows P c rs \<Longrightarrow> (\<And>r. P r \<Longrightarrow> Q r) \<Longrightarrow> sound_rows Q c rs"
  by (auto simp: sound_rows_def list_all_iff)

text \<open>The statements of the source on each table.\<close>

abbreviation "insert_user \<equiv> insert_into users put_users user_check"
abbreviation "update_user_row \<equiv> update_pk users put_users user_id user_check"
abbreviation "insert_session \<equiv> insert_into sessions put_sessions session_check"
abbreviation "update_session \<equiv> update_pk sessions put_sessions ses_id session_check"
abbreviation "insert_node \<equiv> insert_into nodes put_nodes node_check"
abbreviation "update_node \<equiv> update_pk nodes put_nodes node_id node_check"
abbreviation "insert_camera \<equiv> insert_into cameras put_cameras camera_check"
abbreviation "update_camera_row \<equiv> update_pk cameras put_cameras cam_id camera_check"
abbreviation "delete_camera_row \<equiv> delete_pk cameras put_cameras cam_id"
abbreviation "insert_policy \<equiv> insert_into policies put_policies policy_check"
abbreviation "update_policy_row \<equiv> update_pk policies put_policies pol_id policy_check"
abbreviation "insert_recording \<equiv> insert_into recordings put_recordings recording_check"
abbreviation "update_recording \<equiv> update_pk recordings put_recordings rec_key recording_check"
abbreviation "delete_recording \<equiv> delete_pk recordings put_recordings rec_key"
abbreviation "insert_event \<equiv> insert_into events put_events event_check"

end
