(* ===== verification/AppState.thy ===== *)
theory AppState
  imports Database
begin

text \<open>
  The shared state of the coordinator (\<open>coordinator/src/state.rs\<close>), its errors and their HTTP
  form (\<open>coordinator/src/error.rs\<close>), and the ways a handler reaches the database: a statement
  on the pool, whose connection may be lost, and a transaction.
\<close>

section \<open>The outside world\<close>

text \<open>
  The parameters of the model, one value per request: the two clocks (\<open>Utc::now()\<close> of the
  process and \<open>NOW()\<close> of the database), the fresh identifiers and random bytes the request
  draws, and the functions of the crates and of PostgreSQL that the source only calls.
  \<open>argon2_verify\<close> is \<open>None\<close> where the stored hash does not parse; \<open>show_time\<close> is the JSON form
  of a time, \<open>rfc3339\<close> its \<open>to_rfc3339()\<close>, \<open>strftime\<close> its \<open>format\<close>; \<open>env_var\<close> are the variables of
  the process; \<open>http\<close> is one request of \<open>reqwest\<close>, \<open>None\<close> where it fails.
\<close>

record http_request =
  rq_method :: string
  rq_url :: string
  rq_headers :: "(string \<times> string) list"
  rq_body :: string

record http_response =
  rs_status :: nat
  rs_headers :: "(string \<times> string) list"
  rs_body :: string

record ext =
  utc_now :: time
  db_now :: time
  fresh_uuid :: uuid
  random32 :: string
  hex_encode :: "string \<Rightarrow> string"
  sha256 :: "string \<Rightarrow> string"
  argon2_hash :: "string \<Rightarrow> string option"
  argon2_verify :: "string \<Rightarrow> string \<Rightarrow> bool option"
  jwt_sign :: "string \<Rightarrow> claims \<Rightarrow> string option"
  jwt_verify :: "string \<Rightarrow> time \<Rightarrow> string \<Rightarrow> claims option"
  show_uuid :: "uuid \<Rightarrow> string"
  show_time :: "time \<Rightarrow> string"
  rfc3339 :: "time \<Rightarrow> string"
  strftime :: "string \<Rightarrow> time \<Rightarrow> string"
  hmac :: "string \<Rightarrow> string \<Rightarrow> string"
  env_var :: "string \<Rightarrow> string option"
  http :: "http_request \<Rightarrow> http_response option"
  inet_text :: "inet \<Rightarrow> string"
  parse_inet :: "string \<Rightarrow> inet option"

section \<open>Application state\<close>

text \<open>
  \<open>nodes\<close> and \<open>dashboards\<close> of \<open>AppState\<close> map an id to the sender of an unbounded channel. A
  channel is a number; \<open>node_chans\<close> and \<open>dash_chans\<close> hold the messages a channel's receiver has
  not taken yet, \<open>None\<close> once the receiver is dropped. \<open>faults\<close> says which of the coming round
  trips to the database fail for a lost connection (none, when the list is used up).
\<close>

record jwt_config =
  jwt_key :: string
  access_ttl_secs :: int

record app =
  db :: database
  faults :: "bool list"
  jwt :: jwt_config
  node_txs :: "(uuid \<times> nat) list"
  node_chans :: "nat \<Rightarrow> ws_message list option"
  dash_txs :: "(uuid \<times> nat) list"
  dash_chans :: "nat \<Rightarrow> json list option"

definition jwt_from_secret :: "string \<Rightarrow> jwt_config" where
  "jwt_from_secret secret = \<lparr>jwt_key = secret, access_ttl_secs = 15 * 60\<rparr>"

definition new_app :: "database \<Rightarrow> string \<Rightarrow> app" where
  "new_app d secret =
     \<lparr>db = d, faults = [], jwt = jwt_from_secret secret, node_txs = [], node_chans = (\<lambda>_. None),
      dash_txs = [], dash_chans = (\<lambda>_. None)\<rparr>"

definition send :: "nat \<Rightarrow> 'm \<Rightarrow> (nat \<Rightarrow> 'm list option) \<Rightarrow> nat \<Rightarrow> 'm list option" where
  "send c m chans = (case chans c of None \<Rightarrow> chans | Some q \<Rightarrow> chans(c := Some (q @ [m])))"

definition push_to_node :: "uuid \<Rightarrow> ws_message \<Rightarrow> app \<Rightarrow> app" where
  "push_to_node n msg s =
     (case map_of (node_txs s) n of
        None \<Rightarrow> s
      | Some c \<Rightarrow> s\<lparr>node_chans := send c msg (node_chans s)\<rparr>)"

definition broadcast_dashboard :: "json \<Rightarrow> app \<Rightarrow> app" where
  "broadcast_dashboard msg s =
     s\<lparr>dash_chans := fold (\<lambda>c. send c msg) (map snd (dash_txs s)) (dash_chans s)\<rparr>"

text \<open>The messages waiting for a node: those its registered sender has queued.\<close>

definition pending_for :: "uuid \<Rightarrow> app \<Rightarrow> ws_message list" where
  "pending_for n s =
     (case map_of (node_txs s) n of
        None \<Rightarrow> []
      | Some c \<Rightarrow> (case node_chans s c of None \<Rightarrow> [] | Some q \<Rightarrow> q))"

definition online :: "uuid \<Rightarrow> app \<Rightarrow> bool" where
  "online n s \<longleftrightarrow>
     (case map_of (node_txs s) n of None \<Rightarrow> False | Some c \<Rightarrow> node_chans s c \<noteq> None)"

section \<open>Errors\<close>

datatype app_error =
    NotFound
  | Unauthorized
  | Forbidden
  | Conflict string
  | BadRequest string
  | UnprocessableEntity string
  | Sqlx sql_error
  | Internal

text \<open>\<open>IntoResponse\<close>: the status code and the \<open>error\<close> member of the body.\<close>

fun into_response :: "app_error \<Rightarrow> nat \<times> string" where
  "into_response NotFound = (404, ''not found'')"
| "into_response Unauthorized = (401, ''unauthorized'')"
| "into_response Forbidden = (403, ''forbidden'')"
| "into_response (Conflict m) = (409, m)"
| "into_response (BadRequest m) = (400, m)"
| "into_response (UnprocessableEntity m) = (422, m)"
| "into_response (Sqlx e) =
     (if e = Unique_violation then (409, ''already exists'') else (500, ''database error''))"
| "into_response Internal = (500, ''internal error'')"

type_synonym 'a handler = "(app, app_error, 'a) prog"

section \<open>Statements and transactions\<close>

definition sql :: "'a stmt \<Rightarrow> (app, sql_error, 'a) prog" where
  "sql q s =
     (if faults s \<noteq> [] \<and> hd (faults s)
      then (Inl Connection_error, s\<lparr>faults := tl (faults s)\<rparr>)
      else case q (db s) of
             Inl e \<Rightarrow> (Inl e, s\<lparr>faults := tl (faults s)\<rparr>)
           | Inr (x, d) \<Rightarrow> (Inr x, s\<lparr>faults := tl (faults s), db := d\<rparr>))"

text \<open>A statement followed by \<open>?\<close>.\<close>

definition sqlq :: "'a stmt \<Rightarrow> 'a handler" where
  "sqlq q = map_err Sqlx (sql q)"

text \<open>
  \<open>begin\<close>, the statements, \<open>commit\<close>. An error drops the transaction, which rolls it back; a
  lost connection at \<open>commit\<close> is taken as not committed.
\<close>

definition in_tx :: "'a handler \<Rightarrow> 'a handler" where
  "in_tx body s =
     (case sqlq (query (\<lambda>_. ())) s of
        (Inl e, s1) \<Rightarrow> (Inl e, s1)
      | (Inr _, s1) \<Rightarrow>
          (case andthen body (\<lambda>x. andthen (sqlq (query (\<lambda>_. ()))) (\<lambda>_. ret x)) s1 of
             (Inl e, s2) \<Rightarrow> (Inl e, s2\<lparr>db := db s1\<rparr>)
           | (Inr x, s2) \<Rightarrow> (Inr x, s2)))"

lemma app_same_db [simp]: "(s :: app)\<lparr>db := db s\<rparr> = s"
  by (cases s) simp

lemma sql_no_fault [prog_simps]:
  "faults s = [] \<Longrightarrow> sql q s =
     (case q (db s) of Inl e \<Rightarrow> (Inl e, s) | Inr (x, d) \<Rightarrow> (Inr x, s\<lparr>db := d\<rparr>))"
  by (simp add: sql_def split: sum.splits)

lemma sqlq_no_fault [prog_simps]:
  "faults s = [] \<Longrightarrow> sqlq q s =
     (case q (db s) of Inl e \<Rightarrow> (Inl (Sqlx e), s) | Inr (x, d) \<Rightarrow> (Inr x, s\<lparr>db := d\<rparr>))"
  by (simp add: sqlq_def map_err_apply sql_no_fault split: sum.splits)

lemma query_apply [simp]: "query f d = Inr (f d, d)"
  by (simp add: query_def)

lemma sql_query_db [simp]: "db (snd (sql (query f) s)) = db s"
  by (simp add: sql_def)

lemma sqlq_query_db [simp]: "db (snd (sqlq (query f) s)) = db s"
  by (simp add: sqlq_def map_err_def sql_def)

lemma sql_Inr:
  "sql q s = (Inr x, t) \<Longrightarrow>
     \<exists>e. q (db s) = Inr (x, e) \<and> t = s\<lparr>faults := tl (faults s), db := e\<rparr>"
  by (auto simp: sql_def split: if_splits sum.splits)

lemma sqlq_Inr:
  "sqlq q s = (Inr x, t) \<Longrightarrow>
     \<exists>e. q (db s) = Inr (x, e) \<and> t = s\<lparr>faults := tl (faults s), db := e\<rparr>"
  by (auto simp: sqlq_def map_err_def dest: sql_Inr split: prod.splits sum.splits)

text \<open>A transaction that ends in an error has not changed the database.\<close>

lemma in_tx_rollback: "in_tx body s = (Inl e, t) \<Longrightarrow> db t = db s"
  using sqlq_query_db [of "\<lambda>_. ()" s]
  by (cases "sqlq (query (\<lambda>_. ())) s") (auto simp: in_tx_def split: prod.splits sum.splits)

lemma in_tx_no_fault:
  assumes "faults s = []" and "\<And>r t. body s = (r, t) \<Longrightarrow> faults t = []"
  shows "in_tx body s =
     (case body s of (Inl e, t) \<Rightarrow> (Inl e, t\<lparr>db := db s\<rparr>) | (Inr x, t) \<Rightarrow> (Inr x, t))"
  using assms
  by (auto simp: in_tx_def sqlq_no_fault andthen_apply split: prod.splits sum.splits)

section \<open>Notifications\<close>

text \<open>
  The contract between the handlers and the channels they notify: a notification leaves the
  database, the connections and the registrations alone.
\<close>

locale notifier =
  fixes notify :: "'m \<Rightarrow> app \<Rightarrow> app"
  assumes db_notify: "db (notify m s) = db s"
    and faults_notify: "faults (notify m s) = faults s"
    and txs_notify: "node_txs (notify m s) = node_txs s"
begin

lemma notify_fold:
  "db (fold notify ms s) = db s" "faults (fold notify ms s) = faults s"
  "node_txs (fold notify ms s) = node_txs s"
  by (induction ms arbitrary: s) (simp_all add: db_notify faults_notify txs_notify)

end

interpretation push: notifier "push_to_node n"
  by unfold_locales (auto simp: push_to_node_def split: option.splits)

interpretation broadcast: notifier broadcast_dashboard
  by unfold_locales (auto simp: broadcast_dashboard_def)

lemmas notify_frame [simp] =
  push.db_notify push.faults_notify push.txs_notify
  broadcast.db_notify broadcast.faults_notify broadcast.txs_notify

section \<open>Invariants\<close>

text \<open>
  \<open>stmt_keeps\<close>: a statement keeps a property of the database whenever it succeeds. \<open>app_keeps\<close>
  is the same for a property of the whole state.
\<close>

definition stmt_keeps :: "(database \<Rightarrow> bool) \<Rightarrow> 'a stmt \<Rightarrow> bool" where
  "stmt_keeps I q \<longleftrightarrow> (\<forall>d x e. I d \<longrightarrow> q d = Inr (x, e) \<longrightarrow> I e)"

definition app_keeps :: "(app \<Rightarrow> bool) \<Rightarrow> 'a stmt \<Rightarrow> bool" where
  "app_keeps J q \<longleftrightarrow> (\<forall>s x e. J s \<longrightarrow> q (db s) = Inr (x, e) \<longrightarrow> J (s\<lparr>db := e\<rparr>))"

lemma stmt_keepsI: "(\<And>d x e. I d \<Longrightarrow> q d = Inr (x, e) \<Longrightarrow> I e) \<Longrightarrow> stmt_keeps I q"
  by (auto simp: stmt_keeps_def)

lemma stmt_keepsD: "stmt_keeps I q \<Longrightarrow> q d = Inr (x, e) \<Longrightarrow> I d \<Longrightarrow> I e"
  by (auto simp: stmt_keeps_def)

lemma stmt_app_keeps: "stmt_keeps I q \<Longrightarrow> app_keeps (\<lambda>s. I (db s)) q"
  by (auto simp: stmt_keeps_def app_keeps_def)

text \<open>
  What an invariant has to satisfy so that the handlers that only read keep it: it survives a
  failed round trip, the rollback to an earlier database, and the notifications. The handlers
  of every component are shown to keep such an invariant once, inside the locale and its
  extension for statements that write.
\<close>

locale reader =
  fixes J :: "app \<Rightarrow> bool"
  assumes after_fault: "J s \<Longrightarrow> J (s\<lparr>faults := f\<rparr>)"
    and after_rollback: "J s \<Longrightarrow> J t \<Longrightarrow> J (t\<lparr>db := db s\<rparr>)"
    and after_push: "J s \<Longrightarrow> J (push_to_node n m s)"
    and after_broadcast: "J s \<Longrightarrow> J (broadcast_dashboard j s)"
begin

lemma keeps_unchanged: "(\<And>d x e. q d = Inr (x, e) \<Longrightarrow> e = d) \<Longrightarrow> app_keeps J q"
  by (fastforce simp: app_keeps_def)

lemma keeps_query [keeps_rules]: "app_keeps J (query f)"
  by (rule keeps_unchanged) simp

lemma keeps_sql [keeps_rules]: "app_keeps J q \<Longrightarrow> keeps J (sql q)"
proof (rule keepsI)
  fix s assume q: "app_keeps J q" and s: "J s"
  have "J (s\<lparr>faults := tl (faults s), db := e\<rparr>)" if "q (db s) = Inr (x, e)" for x e
  proof -
    have "J (s\<lparr>db := e\<rparr>)" using q s that by (simp add: app_keeps_def)
    from after_fault [OF this, of "tl (faults s)"] show ?thesis by (cases s) simp
  qed
  with after_fault [OF s] show "J (snd (sql q s))" by (auto simp: sql_def split: sum.split)
qed

lemma keeps_sqlq [keeps_rules]: "app_keeps J q \<Longrightarrow> keeps J (sqlq q)"
  by (simp add: sqlq_def keeps_sql keeps_map_err)

lemma keeps_in_tx [keeps_rules]:
  assumes "keeps J body"
  shows "keeps J (in_tx body)"
proof (rule keepsI)
  fix s assume s: "J s"
  obtain r t where t: "sqlq (query (\<lambda>_. ())) s = (r, t)" by fastforce
  have 1: "J t" using keepsD [OF keeps_sqlq [OF keeps_query] s, of "\<lambda>_. ()"] t by simp
  have 2: "keeps J (andthen body (\<lambda>x. andthen (sqlq (query (\<lambda>_. ()))) (\<lambda>_. ret x)))"
    by (intro keeps_rules assms)
  show "J (snd (in_tx body s))"
    using 1 keepsD [OF 2, of t] after_rollback [of t]
    by (auto simp: in_tx_def t split: prod.splits sum.splits)
qed

lemma keeps_push [keeps_rules]: "keeps J (modify (push_to_node n m))"
  by (simp add: keeps_def after_push)

lemma keeps_broadcast [keeps_rules]: "keeps J (modify (broadcast_dashboard j))"
  by (simp add: keeps_def after_broadcast)

end

interpretation frame: reader "\<lambda>s. I (db s)" for I
  by unfold_locales simp_all

lemma pending_push_same:
  "online n s \<Longrightarrow> pending_for n (push_to_node n m s) = pending_for n s @ [m]"
  by (auto simp: online_def pending_for_def push_to_node_def send_def split: option.splits)

lemma pending_push_offline: "\<not> online n s \<Longrightarrow> push_to_node n m s = s"
  by (auto simp: online_def push_to_node_def send_def split: option.splits)

text \<open>Different nodes own different channels.\<close>

definition channels_apart :: "app \<Rightarrow> bool" where
  "channels_apart s \<longleftrightarrow> inj_on (map_of (node_txs s)) (dom (map_of (node_txs s)))"

lemma pending_push_other:
  "channels_apart s \<Longrightarrow> n \<noteq> k \<Longrightarrow> pending_for k (push_to_node n m s) = pending_for k s"
  by (auto simp: channels_apart_def pending_for_def push_to_node_def send_def inj_on_def dom_def
      split: option.splits)

lemma pending_db [simp]: "pending_for n (s\<lparr>db := d\<rparr>) = pending_for n s"
  "pending_for n (s\<lparr>faults := f\<rparr>) = pending_for n s"
  "online n (s\<lparr>db := d\<rparr>) = online n s" "online n (s\<lparr>faults := f\<rparr>) = online n s"
  by (simp_all add: pending_for_def online_def split: option.split)

end
