(* ===== verification/Integrity.thy ===== *)
theory Integrity
  imports AppState
begin

text \<open>
  Referential integrity: the statements with \<open>ON DELETE CASCADE\<close> or a blocking foreign key,
  and the proof that every statement the source runs keeps the database sound. The locale
  \<open>writer\<close> states this contract for any invariant; the components prove inside it that their
  handlers keep the invariant on every path.
\<close>

section \<open>Deletes with their foreign keys\<close>

text \<open>\<open>DELETE FROM users\<close> cascades to \<open>sessions\<close>, \<open>DELETE FROM nodes\<close> to \<open>cameras\<close>.\<close>

definition delete_user_row :: "uuid \<Rightarrow> user option stmt" where
  "delete_user_row i d =
     Inr (find (\<lambda>u. user_id u = i) (users d),
          d\<lparr>users := delete_where (\<lambda>u. user_id u = i) (users d),
            sessions := delete_where (\<lambda>s. ses_user_id s = i) (sessions d)\<rparr>)"

definition delete_node_row :: "uuid \<Rightarrow> node option stmt" where
  "delete_node_row i d =
     Inr (find (\<lambda>n. node_id n = i) (nodes d),
          d\<lparr>nodes := delete_where (\<lambda>n. node_id n = i) (nodes d),
            cameras := delete_where (\<lambda>c. cam_node_id c = i) (cameras d)\<rparr>)"

text \<open>A policy that a camera or a recording refers to cannot be deleted.\<close>

definition policy_in_use :: "uuid \<Rightarrow> database \<Rightarrow> bool" where
  "policy_in_use i d \<longleftrightarrow>
     list_ex (\<lambda>c. cam_retention_policy_id c = Some i) (cameras d) \<or>
     list_ex (\<lambda>r. rec_policy_id r = Some i) (recordings d)"

definition delete_policy_row :: "uuid \<Rightarrow> policy option stmt" where
  "delete_policy_row i d =
     (if taken pol_id i (policies d) \<and> policy_in_use i d then Inl Foreign_key_violation
      else delete_pk policies put_policies pol_id i d)"

definition delete_sessions_of :: "uuid \<Rightarrow> unit stmt" where
  "delete_sessions_of i d =
     Inr ((), d\<lparr>sessions := delete_where (\<lambda>s. ses_user_id s = i) (sessions d)\<rparr>)"

text \<open>\<open>UPDATE retention_policies SET is_default = false WHERE is_default = true AND ..\<close>\<close>

definition clear_default_where :: "(policy \<Rightarrow> bool) \<Rightarrow> unit stmt" where
  "clear_default_where P d =
     Inr ((), d\<lparr>policies :=
       update_where (\<lambda>p. pol_is_default p \<and> P p) (\<lambda>p. p\<lparr>pol_is_default := False\<rparr>) (policies d)\<rparr>)"

section \<open>Inserts\<close>

lemmas sound_frame = db_ok_def put_defs ok_same_ids

lemma insert_user_ok [keeps_rules]:
  "stmt_keeps db_ok (insert_into users put_users user_check u)"
proof (rule stmt_keepsI)
  fix d x e assume d: "db_ok d" and e: "insert_into users put_users user_check u d = Inr (x, e)"
  from users.insert_sound [OF e] d have "sound_rows (user_ok e) user_clash (users e)"
    by (simp add: db_ok_def)
  with d e show "db_ok e"
    by (auto simp: users.insert_Inr sound_frame elim!: sound_rows_mono ok_more_ids)
qed

lemma insert_session_ok [keeps_rules]:
  "stmt_keeps db_ok (insert_into sessions put_sessions session_check u)"
proof (rule stmt_keepsI)
  fix d x e
  assume d: "db_ok d" and e: "insert_into sessions put_sessions session_check u d = Inr (x, e)"
  from sessions.insert_sound [OF e] d have "sound_rows (session_ok e) session_clash (sessions e)"
    by (simp add: db_ok_def)
  with d e show "db_ok e" by (auto simp: sessions.insert_Inr sound_frame)
qed

lemma insert_node_ok [keeps_rules]:
  "stmt_keeps db_ok (insert_into nodes put_nodes node_check n)"
proof (rule stmt_keepsI)
  fix d x e assume d: "db_ok d" and e: "insert_into nodes put_nodes node_check n d = Inr (x, e)"
  from nodes.insert_sound [OF e] d have "sound_rows (node_ok e) node_clash (nodes e)"
    by (simp add: db_ok_def)
  with d e show "db_ok e"
    by (auto simp: nodes.insert_Inr sound_frame elim!: sound_rows_mono ok_more_ids)
qed

lemma insert_camera_ok [keeps_rules]:
  "stmt_keeps db_ok (insert_into cameras put_cameras camera_check c)"
proof (rule stmt_keepsI)
  fix d x e
  assume d: "db_ok d" and e: "insert_into cameras put_cameras camera_check c d = Inr (x, e)"
  from cameras.insert_sound [OF e] d have "sound_rows (camera_ok e) camera_clash (cameras e)"
    by (simp add: db_ok_def)
  with d e show "db_ok e" by (auto simp: cameras.insert_Inr sound_frame)
qed

lemma insert_policy_ok [keeps_rules]:
  "stmt_keeps db_ok (insert_into policies put_policies policy_check p)"
proof (rule stmt_keepsI)
  fix d x e
  assume d: "db_ok d" and e: "insert_into policies put_policies policy_check p d = Inr (x, e)"
  from policies.insert_sound [OF e] d have "sound_rows (policy_ok e) policy_clash (policies e)"
    by (simp add: db_ok_def)
  with d e show "db_ok e"
    by (auto simp: policies.insert_Inr sound_frame elim!: sound_rows_mono ok_more_ids)
qed

lemma insert_recording_ok [keeps_rules]:
  "stmt_keeps db_ok (insert_into recordings put_recordings recording_check r)"
proof (rule stmt_keepsI)
  fix d x e
  assume d: "db_ok d"
    and e: "insert_into recordings put_recordings recording_check r d = Inr (x, e)"
  from recordings.insert_sound [OF e] d
  have "sound_rows (recording_ok e) recording_clash (recordings e)"
    by (simp add: db_ok_def)
  with d e show "db_ok e" by (auto simp: recordings.insert_Inr sound_frame)
qed

lemma insert_event_ok [keeps_rules]:
  "stmt_keeps db_ok (insert_into events put_events event_check r)"
proof (rule stmt_keepsI)
  fix d x e
  assume d: "db_ok d" and e: "insert_into events put_events event_check r d = Inr (x, e)"
  from events.insert_sound [OF e] d have "sound_rows (event_ok e) event_clash (events e)"
    by (simp add: db_ok_def)
  with d e show "db_ok e" by (auto simp: events.insert_Inr sound_frame)
qed

section \<open>Updates and deletes\<close>

text \<open>An update leaves the table of its rows sound and every other table as it is.\<close>

lemma update_user_ok [keeps_rules]:
  assumes "\<And>u. user_id (f u) = user_id u"
  shows "stmt_keeps db_ok (update_pk users put_users user_id user_check k f)"
proof (rule stmt_keepsI)
  fix d x e
  assume d: "db_ok d" and e: "update_pk users put_users user_id user_check k f d = Inr (x, e)"
  from users.update_sound [OF e] d have u: "sound_rows (user_ok e) user_clash (users e)"
    by (simp add: db_ok_def)
  show "db_ok e"
  proof (cases x)
    case None
    with d e show ?thesis by (simp add: users.update_None)
  next
    case (Some y)
    with d e u show ?thesis
      by (auto simp: users.update_Some sound_frame map_update_where assms)
  qed
qed

lemma update_session_ok [keeps_rules]:
  "stmt_keeps db_ok (update_pk sessions put_sessions ses_id session_check k f)"
proof (rule stmt_keepsI)
  fix d x e
  assume d: "db_ok d"
    and e: "update_pk sessions put_sessions ses_id session_check k f d = Inr (x, e)"
  from sessions.update_sound [OF e] d have "sound_rows (session_ok e) session_clash (sessions e)"
    by (simp add: db_ok_def)
  with d e show "db_ok e"
    by (cases x) (auto simp: sessions.update_None sessions.update_Some sound_frame)
qed

lemma update_node_ok [keeps_rules]:
  assumes "\<And>u. node_id (f u) = node_id u"
  shows "stmt_keeps db_ok (update_pk nodes put_nodes node_id node_check k f)"
proof (rule stmt_keepsI)
  fix d x e
  assume d: "db_ok d" and e: "update_pk nodes put_nodes node_id node_check k f d = Inr (x, e)"
  from nodes.update_sound [OF e] d have u: "sound_rows (node_ok e) node_clash (nodes e)"
    by (simp add: db_ok_def)
  show "db_ok e"
  proof (cases x)
    case None
    with d e show ?thesis by (simp add: nodes.update_None)
  next
    case (Some y)
    with d e u show ?thesis
      by (auto simp: nodes.update_Some sound_frame map_update_where assms)
  qed
qed

lemma update_camera_ok [keeps_rules]:
  "stmt_keeps db_ok (update_pk cameras put_cameras cam_id camera_check k f)"
proof (rule stmt_keepsI)
  fix d x e
  assume d: "db_ok d"
    and e: "update_pk cameras put_cameras cam_id camera_check k f d = Inr (x, e)"
  from cameras.update_sound [OF e] d have "sound_rows (camera_ok e) camera_clash (cameras e)"
    by (simp add: db_ok_def)
  with d e show "db_ok e"
    by (cases x) (auto simp: cameras.update_None cameras.update_Some sound_frame)
qed

lemma update_policy_ok [keeps_rules]:
  assumes "\<And>u. pol_id (f u) = pol_id u"
  shows "stmt_keeps db_ok (update_pk policies put_policies pol_id policy_check k f)"
proof (rule stmt_keepsI)
  fix d x e
  assume d: "db_ok d"
    and e: "update_pk policies put_policies pol_id policy_check k f d = Inr (x, e)"
  from policies.update_sound [OF e] d have u: "sound_rows (policy_ok e) policy_clash (policies e)"
    by (simp add: db_ok_def)
  show "db_ok e"
  proof (cases x)
    case None
    with d e show ?thesis by (simp add: policies.update_None)
  next
    case (Some y)
    with d e u show ?thesis
      by (auto simp: policies.update_Some sound_frame map_update_where assms)
  qed
qed

lemma update_recording_ok [keeps_rules]:
  "stmt_keeps db_ok (update_pk recordings put_recordings rec_key recording_check k f)"
proof (rule stmt_keepsI)
  fix d x e
  assume d: "db_ok d"
    and e: "update_pk recordings put_recordings rec_key recording_check k f d = Inr (x, e)"
  from recordings.update_sound [OF e] d
  have "sound_rows (recording_ok e) recording_clash (recordings e)"
    by (simp add: db_ok_def)
  with d e show "db_ok e"
    by (cases x) (auto simp: recordings.update_None recordings.update_Some sound_frame)
qed

lemma delete_camera_ok [keeps_rules]: "stmt_keeps db_ok (delete_pk cameras put_cameras cam_id k)"
  by (auto simp: stmt_keeps_def delete_pk_def sound_frame sound_rows_delete)

lemma delete_recording_ok [keeps_rules]:
  "stmt_keeps db_ok (delete_pk recordings put_recordings rec_key k)"
  by (auto simp: stmt_keeps_def delete_pk_def sound_frame sound_rows_delete)

lemma delete_sessions_ok [keeps_rules]: "stmt_keeps db_ok (delete_sessions_of i)"
  by (auto simp: stmt_keeps_def delete_sessions_of_def sound_frame sound_rows_delete)

text \<open>After a cascade the rows that are left still refer to rows that exist.\<close>

lemma sound_rows_delete_ok:
  assumes "sound_rows P c rs" and "\<And>r. r \<in> set rs \<Longrightarrow> P r \<Longrightarrow> \<not> D r \<Longrightarrow> Q r"
  shows "sound_rows Q c (delete_where D rs)"
  using assms by (auto simp: sound_rows_def delete_where_def list_all_iff sorted_wrt_filter)

lemma delete_user_ok [keeps_rules]: "stmt_keeps db_ok (delete_user_row i)"
  by (auto simp: stmt_keeps_def delete_user_row_def sound_frame session_ok_def
      intro!: sound_rows_delete elim!: sound_rows_delete_ok)

lemma delete_node_ok [keeps_rules]: "stmt_keeps db_ok (delete_node_row i)"
  by (auto simp: stmt_keeps_def delete_node_row_def sound_frame camera_ok_def policy_exists_def
      intro!: sound_rows_delete elim!: sound_rows_delete_ok split: option.splits)

lemma sound_rows_ok: "sound_rows P c rs \<Longrightarrow> (\<And>r. r \<in> set rs \<Longrightarrow> P r \<Longrightarrow> Q r) \<Longrightarrow> sound_rows Q c rs"
  by (auto simp: sound_rows_def list_all_iff)

lemma delete_policy_ok [keeps_rules]: "stmt_keeps db_ok (delete_policy_row i)"
proof (rule stmt_keepsI)
  fix d x e assume d: "db_ok d" and e: "delete_policy_row i d = Inr (x, e)"
  let ?ps = "delete_where (\<lambda>p. pol_id p = i) (policies d)"
  show "db_ok e"
  proof (cases "taken pol_id i (policies d)")
    case True
    with e have free: "\<not> policy_in_use i d" and e': "e = d\<lparr>policies := ?ps\<rparr>"
      by (auto simp: delete_policy_row_def delete_pk_def put_defs split: if_splits)
    have "camera_ok d c \<Longrightarrow> camera_ok e c" if "c \<in> set (cameras d)" for c
      using free that
      by (auto simp: e' camera_ok_def policy_exists_def policy_in_use_def list_ex_iff
          split: option.splits)
    moreover have "recording_ok d r \<Longrightarrow> recording_ok e r" if "r \<in> set (recordings d)" for r
      using free that
      by (auto simp: e' recording_ok_def policy_exists_def policy_in_use_def list_ex_iff
          split: option.splits)
    ultimately show ?thesis
      using d by (auto simp: e' sound_frame intro!: sound_rows_delete elim!: sound_rows_ok)
  next
    case False
    then have "?ps = policies d" by (auto intro!: delete_where_none)
    with False e d show ?thesis
      by (auto simp: delete_policy_row_def delete_pk_def put_defs split: if_splits)
  qed
qed

lemma clear_default_sound:
  "sound_rows P policy_clash ps \<Longrightarrow> P = policy_ok d \<Longrightarrow>
   sound_rows P policy_clash
     (update_where (\<lambda>p. pol_is_default p \<and> D p) (\<lambda>p. p\<lparr>pol_is_default := False\<rparr>) ps)"
  by (auto simp: sound_rows_def update_where_def list_all_iff sorted_wrt_map policy_ok_def
      policy_clash_def elim!: sorted_wrt_mono_rel [rotated])

lemma clear_default_ok [keeps_rules]: "stmt_keeps db_ok (clear_default_where P)"
  by (auto simp: stmt_keeps_def clear_default_where_def sound_frame clear_default_sound
      map_update_where)

section \<open>Invariants under the statements of the source\<close>

text \<open>
  An invariant that every statement of the source keeps, but for the insertion of a camera;
  \<open>camera_writer\<close> adds that one.
\<close>

locale writer = reader +
  assumes user_insert [keeps_rules]: "app_keeps J (insert_user u)"
    and user_update [keeps_rules]:
      "(\<And>u. user_id (f u) = user_id u) \<Longrightarrow> app_keeps J (update_user_row i f)"
    and user_delete [keeps_rules]: "app_keeps J (delete_user_row i)"
    and session_insert [keeps_rules]: "app_keeps J (insert_session x)"
    and session_update [keeps_rules]: "app_keeps J (update_session i g)"
    and session_delete [keeps_rules]: "app_keeps J (delete_sessions_of i)"
    and node_insert [keeps_rules]: "app_keeps J (insert_node n)"
    and node_update [keeps_rules]:
      "(\<And>n. node_id (h n) = node_id n) \<Longrightarrow> app_keeps J (update_node i h)"
    and node_delete [keeps_rules]: "app_keeps J (delete_node_row i)"
    and camera_update [keeps_rules]:
      "(\<And>c. cam_node_id (k c) = cam_node_id c) \<Longrightarrow> app_keeps J (update_camera_row i k)"
    and camera_delete [keeps_rules]: "app_keeps J (delete_camera_row i)"
    and policy_insert [keeps_rules]: "app_keeps J (insert_policy p)"
    and policy_update [keeps_rules]:
      "(\<And>p. pol_id (l p) = pol_id p) \<Longrightarrow> app_keeps J (update_policy_row i l)"
    and policy_delete [keeps_rules]: "app_keeps J (delete_policy_row i)"
    and policy_clear [keeps_rules]: "app_keeps J (clear_default_where P)"
    and recording_insert [keeps_rules]: "app_keeps J (insert_recording r)"
    and recording_update [keeps_rules]: "app_keeps J (update_recording key m)"
    and recording_delete [keeps_rules]: "app_keeps J (delete_recording key)"
    and event_insert [keeps_rules]: "app_keeps J (insert_event e)"

locale camera_writer = writer +
  assumes camera_insert [keeps_rules]: "app_keeps J (insert_camera c)"

interpretation sound: camera_writer "\<lambda>s. db_ok (db s)"
  by unfold_locales (intro stmt_app_keeps keeps_rules; simp)+

end
