(* ===== verification/Sample.thy ===== *)
theory Sample
  imports Integrity
begin

text \<open>
  A small concrete installation, on which the properties are instantiated: three roles, an
  administrator and a viewer, one approved node with a camera, two retention policies and a
  recording. The functions of the outside world are replaced by simple ones that have the
  documented behaviour the properties ask for.
\<close>

definition sample_claims :: claims where
  "sample_claims =
     \<lparr>sub = 10, claim_email = ''admin'', claim_role = ''admin'', iat = 1000, exp_at = 1900\<rparr>"

definition sample_ext :: ext where
  "sample_ext =
     \<lparr>utc_now = seconds 1000, db_now = seconds 1000, fresh_uuid = 99, random32 = ''r'',
      hex_encode = (\<lambda>s. s), sha256 = (\<lambda>s. CHR ''#'' # s),
      argon2_hash = (\<lambda>p. Some (CHR ''$'' # p)), argon2_verify = (\<lambda>p h. Some (h = CHR ''$'' # p)),
      jwt_sign = (\<lambda>k c. if c = sample_claims then Some ''jwt'' else None),
      jwt_verify = (\<lambda>k t tok. if tok = ''jwt'' \<and> t div 1000000 \<le> 1900 then Some sample_claims else None),
      show_uuid = (\<lambda>u. ''uuid''), show_time = (\<lambda>t. ''time''),
      rfc3339 = (\<lambda>t. ''1970-01-01T00:00:00+00:00''), strftime = (\<lambda>f t. f),
      hmac = (\<lambda>k m. k @ m), env_var = (\<lambda>v. None), http = (\<lambda>r. None),
      inet_text = (\<lambda>i. inet_host i @ ''/32''),
      parse_inet = (\<lambda>s. Some \<lparr>inet_host = s, inet_masklen = 32\<rparr>)\<rparr>"

definition sample_user :: user where
  "sample_user =
     \<lparr>user_id = 10, user_email = ''admin'', user_password_hash = ''$pw'', user_role_id = 1,
      user_created_at = 0, user_updated_at = 0\<rparr>"

definition sample_viewer :: user where
  "sample_viewer =
     \<lparr>user_id = 11, user_email = ''vi'', user_password_hash = ''$vi'', user_role_id = 3,
      user_created_at = 0, user_updated_at = 0\<rparr>"

definition sample_session :: session where
  "sample_session =
     \<lparr>ses_id = 15, ses_user_id = 10, ses_token_hash = ''#old'', ses_expires_at = seconds 5000\<rparr>"

definition sample_node :: node where
  "sample_node =
     \<lparr>node_id = 20, node_name = ''n1'', node_api_key_hash = ''#key'', node_status = Approved,
      node_last_seen_at = None,
      node_ip_addr = Some \<lparr>inet_host = ''10.0.0.5'', inet_masklen = 32\<rparr>,
      node_version = None, node_metadata = JNull, node_created_at = 0, node_updated_at = 0\<rparr>"

definition sample_camera :: camera where
  "sample_camera =
     \<lparr>cam_id = 30, cam_node_id = 20, cam_name = ''door'', cam_rtsp_url = ''rtsp://c'',
      cam_stream_path = Some ''door'', cam_enabled = True, cam_metadata = JNull,
      cam_created_at = 0, cam_updated_at = 0, cam_onvif_url = Some ''http://c/onvif'',
      cam_onvif_username = Some ''u'', cam_onvif_password = Some ''p'',
      cam_motion_detection = True, cam_retention_policy_id = None\<rparr>"

definition sample_policy :: policy where
  "sample_policy =
     \<lparr>pol_id = 40, pol_name = ''30_days'', pol_keep_days = 30, pol_is_default = True,
      pol_created_at = 0\<rparr>"

definition sample_policy7 :: policy where
  "sample_policy7 =
     \<lparr>pol_id = 41, pol_name = ''7_days'', pol_keep_days = 7, pol_is_default = False,
      pol_created_at = 0\<rparr>"

definition sample_recording :: recording where
  "sample_recording =
     \<lparr>rec_id = 50, rec_camera_id = 30, rec_node_id = 20,
      rec_storage_uri = ''local://door/19700101_000000.mp4'', rec_started_at = 0,
      rec_ended_at = Some (seconds 60), rec_duration_secs = Some 60, rec_size_bytes = Some 1,
      rec_policy_id = Some 40\<rparr>"

definition sample_db :: database where
  "sample_db =
     \<lparr>roles = [\<lparr>role_id = 1, role_name = ''admin''\<rparr>, \<lparr>role_id = 2, role_name = ''operator''\<rparr>,
               \<lparr>role_id = 3, role_name = ''viewer''\<rparr>],
      users = [sample_user, sample_viewer], sessions = [sample_session], nodes = [sample_node],
      cameras = [sample_camera], policies = [sample_policy, sample_policy7],
      recordings = [sample_recording], events = []\<rparr>"

definition sample_app :: app where
  "sample_app = (new_app sample_db ''secret'')
     \<lparr>node_txs := [(20, 7)], node_chans := (\<lambda>_. None)(7 := Some [])\<rparr>"

lemmas sample_defs =
  sample_user_def sample_viewer_def sample_session_def sample_node_def sample_camera_def
  sample_policy_def sample_policy7_def sample_recording_def sample_db_def sample_app_def
  sample_ext_def sample_claims_def new_app_def jwt_from_secret_def

lemma sample_app_simps [simp]:
  "db sample_app = sample_db" "faults sample_app = []" "jwt sample_app = jwt_from_secret ''secret''"
  "node_txs sample_app = [(20, 7)]" "node_chans sample_app = (\<lambda>_. None)(7 := Some [])"
  by (simp_all add: sample_app_def new_app_def)

lemma sample_db_simps [simp]:
  "users sample_db = [sample_user, sample_viewer]" "sessions sample_db = [sample_session]"
  "nodes sample_db = [sample_node]" "cameras sample_db = [sample_camera]"
  "policies sample_db = [sample_policy, sample_policy7]"
  "recordings sample_db = [sample_recording]" "events sample_db = []"
  by (simp_all add: sample_db_def)

lemma sample_db_ok [simp]: "db_ok sample_db"
  by (simp add: sample_defs db_ok_def sound_rows_def ok_defs clash_defs policy_exists_def)

end
