(* ===== verification/Auth.thy ===== *)
theory Auth
  imports Sample
begin

text \<open>
  Tokens, passwords and sessions: \<open>common/src/auth.rs\<close>, the extractor of
  \<open>coordinator/src/middleware/auth.rs\<close> and the handlers of \<open>coordinator/src/routes/auth.rs\<close>.
\<close>

section \<open>Tokens and passwords\<close>

text \<open>\<open>JwtConfig::encode\<close>, \<open>decode\<close>, \<open>make_claims\<close>; \<open>timestamp()\<close> is whole seconds.\<close>

definition timestamp :: "time \<Rightarrow> int" where
  "timestamp t = t div 1000000"

definition jwt_encode :: "ext \<Rightarrow> jwt_config \<Rightarrow> claims \<Rightarrow> string option" where
  "jwt_encode w j c = jwt_sign w (jwt_key j) c"

definition jwt_decode :: "ext \<Rightarrow> jwt_config \<Rightarrow> string \<Rightarrow> claims option" where
  "jwt_decode w j tok = jwt_verify w (jwt_key j) (utc_now w) tok"

definition make_claims :: "ext \<Rightarrow> jwt_config \<Rightarrow> uuid \<Rightarrow> string \<Rightarrow> string \<Rightarrow> claims" where
  "make_claims w j i email role =
     (let n = timestamp (utc_now w) in
      \<lparr>sub = i, claim_email = email, claim_role = role, iat = n, exp_at = n + access_ttl_secs j\<rparr>)"

definition hash_password :: "ext \<Rightarrow> string \<Rightarrow> string option" where
  "hash_password w pw = argon2_hash w pw"

definition verify_password :: "ext \<Rightarrow> string \<Rightarrow> string \<Rightarrow> bool option" where
  "verify_password w pw h = argon2_verify w pw h"

definition generate_refresh_token :: "ext \<Rightarrow> string" where
  "generate_refresh_token w = hex_encode w (random32 w)"

definition hash_token :: "ext \<Rightarrow> string \<Rightarrow> string" where
  "hash_token w t = hex_encode w (sha256 w t)"

section \<open>The current user\<close>

record current_user =
  me_id :: uuid
  me_email :: string
  me_role :: string

definition is_admin :: "current_user \<Rightarrow> bool" where
  "is_admin u \<longleftrightarrow> me_role u = ''admin''"

definition is_operator_or_above :: "current_user \<Rightarrow> bool" where
  "is_operator_or_above u \<longleftrightarrow> me_role u = ''admin'' \<or> me_role u = ''operator''"

text \<open>
  Headers are a list of lower-case names and values; \<open>get\<close> returns the first value and
  \<open>to_str\<close> accepts tabs and the characters from space to tilde.
\<close>

type_synonym headers = "(string \<times> string) list"

definition header_to_str :: "string \<Rightarrow> string option" where
  "header_to_str v =
     (if list_all (\<lambda>c. of_char c = (9 :: nat) \<or> 32 \<le> (of_char c :: nat) \<and> of_char c < (127 :: nat)) v
      then Some v else None)"

definition header_str :: "headers \<Rightarrow> string \<Rightarrow> string option" where
  "header_str hs name = Option.bind (map_of hs name) header_to_str"

definition bearer_token :: "headers \<Rightarrow> string option" where
  "bearer_token hs = Option.bind (header_str hs ''authorization'') (strip_prefix ''Bearer '')"

definition from_request_parts :: "ext \<Rightarrow> headers \<Rightarrow> current_user handler" where
  "from_request_parts w hs =
     andthen (ok_or Unauthorized (bearer_token hs)) (\<lambda>token.
     andthen (gets jwt) (\<lambda>j.
     andthen (ok_or Unauthorized (jwt_decode w j token)) (\<lambda>c.
     ret \<lparr>me_id = sub c, me_email = claim_email c, me_role = claim_role c\<rparr>)))"

section \<open>Handlers\<close>

record login_request =
  login_email :: string
  login_password :: string

record token_response =
  access_token :: string
  refresh_token :: string
  token_type :: string
  expires_in :: int

definition login_rows :: "string \<Rightarrow> database \<Rightarrow> (user \<times> string) list" where
  "login_rows email d =
     [(u, role_name r). u \<leftarrow> users d, r \<leftarrow> roles d,
        role_id r = user_role_id u \<and> user_email u = email]"

definition login :: "ext \<Rightarrow> login_request \<Rightarrow> token_response handler" where
  "login w body =
     andthen (sqlq (query (\<lambda>d. fetch_optional (login_rows (login_email body) d)))) (\<lambda>row.
     andthen (ok_or Unauthorized row) (\<lambda>(u, role).
     andthen (ok_or Internal (verify_password w (login_password body) (user_password_hash u)))
       (\<lambda>good.
     andthen (ensure good Unauthorized) (\<lambda>_.
     andthen (gets jwt) (\<lambda>j.
     andthen (ok_or Internal (jwt_encode w j (make_claims w j (user_id u) (user_email u) role)))
       (\<lambda>access.
     let refresh = generate_refresh_token w in
     andthen (sqlq (insert_session
       \<lparr>ses_id = fresh_uuid w, ses_user_id = user_id u, ses_token_hash = hash_token w refresh,
        ses_expires_at = utc_now w + days 7\<rparr>)) (\<lambda>_.
     ret \<lparr>access_token = access, refresh_token = refresh, token_type = ''Bearer'',
          expires_in = access_ttl_secs j\<rparr>)))))))"

definition session_rows :: "time \<Rightarrow> string \<Rightarrow> database \<Rightarrow> (session \<times> user \<times> string) list" where
  "session_rows t h d =
     [(s, u, role_name r). s \<leftarrow> sessions d, u \<leftarrow> users d, r \<leftarrow> roles d,
        user_id u = ses_user_id s \<and> role_id r = user_role_id u \<and>
        ses_token_hash s = h \<and> t < ses_expires_at s]"

text \<open>
  \<open>refresh\<close> in its two round trips: it finds the live session of the token, then rewrites it
  with the hash of a new one.
\<close>

definition refresh_lookup :: "ext \<Rightarrow> string \<Rightarrow> (session \<times> user \<times> string) handler" where
  "refresh_lookup w token =
     andthen (sqlq (query (\<lambda>d. fetch_optional (session_rows (db_now w) (hash_token w token) d))))
       (\<lambda>row. ok_or Unauthorized row)"

definition refresh_rotate :: "ext \<Rightarrow> session \<times> user \<times> string \<Rightarrow> token_response handler" where
  "refresh_rotate w = (\<lambda>(ses, u, role).
     let new = generate_refresh_token w in
     andthen (sqlq (update_session (ses_id ses)
       (\<lambda>s. s\<lparr>ses_token_hash := hash_token w new, ses_expires_at := utc_now w + days 7\<rparr>))) (\<lambda>_.
     andthen (gets jwt) (\<lambda>j.
     andthen (ok_or Internal (jwt_encode w j (make_claims w j (user_id u) (user_email u) role)))
       (\<lambda>access.
     ret \<lparr>access_token = access, refresh_token = new, token_type = ''Bearer'',
          expires_in = access_ttl_secs j\<rparr>))))"

definition refresh :: "ext \<Rightarrow> string \<Rightarrow> token_response handler" where
  "refresh w token = andthen (refresh_lookup w token) (refresh_rotate w)"

definition logout :: "current_user \<Rightarrow> nat handler" where
  "logout user = andthen (sqlq (delete_sessions_of (me_id user))) (\<lambda>_. ret 204)"

section \<open>Invariants\<close>

context writer
begin

lemma keeps_login: "keeps J (login w b)"
  by (auto simp: login_def Let_def split: prod.splits intro!: keeps_rules)

lemma keeps_refresh: "keeps J (refresh w t)"
  by (auto simp: refresh_def refresh_lookup_def refresh_rotate_def Let_def split: prod.splits
      intro!: keeps_rules)

lemma keeps_logout: "keeps J (logout u)"
  by (auto simp: logout_def intro!: keeps_rules)

end

section \<open>Lookups\<close>

lemma login_rows_iff:
  "(u, n) \<in> set (login_rows email d) \<longleftrightarrow>
     u \<in> set (users d) \<and> user_email u = email \<and>
     (\<exists>r \<in> set (roles d). role_id r = user_role_id u \<and> role_name r = n)"
  by (auto simp: login_rows_def)

lemma login_rows_none: "email \<notin> user_email ` set (users d) \<Longrightarrow> login_rows email d = []"
proof -
  assume "email \<notin> user_email ` set (users d)"
  then have "\<forall>(u, n) \<in> set (login_rows email d). False" by (auto simp: login_rows_iff)
  then show ?thesis by (cases "login_rows email d") auto
qed

lemma session_rows_iff:
  "(s, u, n) \<in> set (session_rows t h d) \<longleftrightarrow>
     s \<in> set (sessions d) \<and> u \<in> set (users d) \<and> user_id u = ses_user_id s \<and>
     ses_token_hash s = h \<and> t < ses_expires_at s \<and>
     (\<exists>r \<in> set (roles d). role_id r = user_role_id u \<and> role_name r = n)"
  by (auto simp: session_rows_def)

text \<open>In a sound database a user has one role, and a live session of an existing hash is found.\<close>

lemma sound_role:
  assumes "db_ok d" and "u \<in> set (users d)"
  obtains r where "r \<in> set (roles d)" and "role_id r = user_role_id u"
  using assms by (auto simp: db_ok_def sound_rows_def list_all_iff user_ok_def)

lemma sound_session_user:
  assumes "db_ok d" and "s \<in> set (sessions d)"
  obtains u where "u \<in> set (users d)" and "user_id u = ses_user_id s"
  using assms by (auto simp: db_ok_def sound_rows_def list_all_iff session_ok_def)

lemma session_unique:
  assumes "db_ok d" "s \<in> set (sessions d)" "s' \<in> set (sessions d)"
    "ses_token_hash s = ses_token_hash s' \<or> ses_id s = ses_id s'"
  shows "s = s'"
proof -
  have "distinct (map ses_id xs) \<and> distinct (map ses_token_hash xs)"
    if "sound_rows P session_clash xs" for xs P
    using that by (induction xs) (auto simp: sound_rows_def session_clash_def)
  with assms show ?thesis by (auto simp: db_ok_def distinct_map inj_on_def)
qed

lemma user_unique:
  assumes "db_ok d" "u \<in> set (users d)" "v \<in> set (users d)"
    "user_id u = user_id v \<or> user_email u = user_email v"
  shows "u = v"
proof -
  have "distinct (map user_id xs) \<and> distinct (map user_email xs)"
    if "sound_rows P user_clash xs" for xs P
    using that by (induction xs) (auto simp: sound_rows_def user_clash_def)
  with assms show ?thesis by (auto simp: db_ok_def distinct_map inj_on_def)
qed

lemma session_rows_live:
  assumes "db_ok d" and "s \<in> set (sessions d)" and "ses_token_hash s = h" and "t < ses_expires_at s"
  shows "\<exists>u n. fetch_optional (session_rows t h d) = Some (s, u, n)"
proof -
  obtain u where u: "u \<in> set (users d)" "user_id u = ses_user_id s"
    using assms(1,2) by (rule sound_session_user)
  obtain r where "r \<in> set (roles d)" "role_id r = user_role_id u"
    using assms(1) u(1) by (rule sound_role)
  with u assms have "(s, u, role_name r) \<in> set (session_rows t h d)"
    by (auto simp: session_rows_iff)
  then obtain q where q: "fetch_optional (session_rows t h d) = Some q"
    by (cases "fetch_optional (session_rows t h d)") auto
  obtain s' u' n' where "q = (s', u', n')" by (cases q)
  with q fetch_optional_in [OF q] assms session_unique [OF assms(1), of s' s]
  show ?thesis by (auto simp: session_rows_iff)
qed

lemma session_rows_dead:
  "h \<notin> ses_token_hash ` set (sessions d) \<Longrightarrow> session_rows t h d = []"
  by (auto simp: session_rows_def)

lemma refresh_lookup_no_fault:
  "faults s = [] \<Longrightarrow> refresh_lookup w tok s =
     (case fetch_optional (session_rows (db_now w) (hash_token w tok) (db s)) of
        None \<Rightarrow> Inl Unauthorized | Some r \<Rightarrow> Inr r, s)"
  by (simp add: refresh_lookup_def prog_simps split: option.splits)

section \<open>Login\<close>

lemma login_Inr:
  assumes "faults s = []" and "login w b s = (Inr r, t)"
  shows "\<exists>u n a x e.
    (u, n) \<in> set (login_rows (login_email b) (db s)) \<and>
    argon2_verify w (login_password b) (user_password_hash u) = Some True \<and>
    jwt_sign w (jwt_key (jwt s)) (make_claims w (jwt s) (user_id u) (user_email u) n) = Some a \<and>
    insert_session
      \<lparr>ses_id = fresh_uuid w, ses_user_id = user_id u,
       ses_token_hash = hash_token w (generate_refresh_token w),
       ses_expires_at = utc_now w + days 7\<rparr> (db s) = Inr (x, e) \<and>
    t = s\<lparr>db := e\<rparr> \<and>
    r = \<lparr>access_token = a, refresh_token = generate_refresh_token w,
         token_type = ''Bearer'', expires_in = access_ttl_secs (jwt s)\<rparr>"
  using assms
  by (auto simp: login_def prog_simps Let_def verify_password_def jwt_encode_def
      split: option.splits sum.splits prod.splits if_splits dest!: fetch_optional_in) blast

text \<open>A login that fails leaves the state as it was.\<close>

lemma login_Inl: "faults s = [] \<Longrightarrow> login w b s = (Inl e, t) \<Longrightarrow> t = s"
  by (auto simp: login_def prog_simps Let_def
      split: option.splits sum.splits prod.splits if_splits)

text \<open>
  C22. Logging in needs the password, and gives a refresh token that works: when \<open>login\<close>
  returns tokens, the account of that e-mail exists and its stored hash verifies the password;
  and from then on, until the seven days have passed, looking the refresh token up finds the
  session of that very account. When \<open>login\<close> fails, no state has changed.
\<close>

theorem login_grants_session:
  assumes "faults s = []" and "db_ok (db s)" and "login w b s = (res, t)"
  shows "case res of
      Inl e \<Rightarrow> t = s
    | Inr r \<Rightarrow> \<exists>u \<in> set (users (db s)).
        user_email u = login_email b \<and>
        argon2_verify w (login_password b) (user_password_hash u) = Some True \<and>
        (\<forall>w'. hash_token w' (refresh_token r) = hash_token w (refresh_token r) \<longrightarrow>
              db_now w' < utc_now w + days 7 \<longrightarrow>
              (\<exists>ses n. refresh_lookup w' (refresh_token r) t = (Inr (ses, u, n), t)))"
proof (cases res)
  case (Inl e)
  with assms login_Inl show ?thesis by auto
next
  case (Inr r)
  with assms obtain u n x e where
      u: "u \<in> set (users (db s))" "user_email u = login_email b"
      and pw: "argon2_verify w (login_password b) (user_password_hash u) = Some True"
      and ins: "insert_session
        \<lparr>ses_id = fresh_uuid w, ses_user_id = user_id u,
         ses_token_hash = hash_token w (generate_refresh_token w),
         ses_expires_at = utc_now w + days 7\<rparr> (db s) = Inr (x, e)"
      and t: "t = s\<lparr>db := e\<rparr>" and r: "refresh_token r = generate_refresh_token w"
    by (auto dest!: login_Inr simp: login_rows_iff)
  have ok: "db_ok e" using insert_session_ok ins assms(2) by (rule stmt_keepsD)
  have us: "users e = users (db s)" and new: "x \<in> set (sessions e)"
    and x: "ses_user_id x = user_id u" "ses_expires_at x = utc_now w + days 7"
      "ses_token_hash x = hash_token w (refresh_token r)"
    using ins by (auto simp: sessions.insert_Inr put_defs r)
  have "\<exists>ses n. refresh_lookup w' (refresh_token r) t = (Inr (ses, u, n), t)"
    if h: "hash_token w' (refresh_token r) = hash_token w (refresh_token r)"
      and tm: "db_now w' < utc_now w + days 7" for w'
  proof -
    obtain v m where q: "fetch_optional (session_rows (db_now w')
        (hash_token w' (refresh_token r)) e) = Some (x, v, m)"
      using session_rows_live [OF ok new, of "hash_token w' (refresh_token r)" "db_now w'"] h tm x
      by auto
    from fetch_optional_in [OF q] have "v \<in> set (users e)" "user_id v = user_id u"
      by (auto simp: session_rows_iff x)
    with u us user_unique [OF ok] have "v = u" by auto
    with q show ?thesis using assms(1) by (simp add: refresh_lookup_no_fault t)
  qed
  with u pw Inr show ?thesis by auto
qed

lemmas auth_eval =
  prog_simps Let_def verify_password_def jwt_encode_def make_claims_def timestamp_def
  insert_into_def update_pk_def session_check_def put_defs hash_token_def
  generate_refresh_token_def seconds_def days_def

definition sample_login :: login_request where
  "sample_login = \<lparr>login_email = ''admin'', login_password = ''pw''\<rparr>"

definition sample_tokens :: token_response where
  "sample_tokens = \<lparr>access_token = ''jwt'', refresh_token = ''r'', token_type = ''Bearer'',
     expires_in = 900\<rparr>"

lemma sample_login_runs:
  "login sample_ext sample_login sample_app =
     (Inr sample_tokens, sample_app\<lparr>db := sample_db\<lparr>sessions := [sample_session,
        \<lparr>ses_id = 99, ses_user_id = 10, ses_token_hash = ''#r'', ses_expires_at = seconds 605800\<rparr>]\<rparr>\<rparr>)"
  by (simp add: login_def login_rows_def sample_login_def sample_tokens_def auth_eval sample_defs)

theorem login_grants_session_witness:
  "\<exists>t. login sample_ext sample_login sample_app = (Inr sample_tokens, t) \<and>
     (\<exists>u \<in> set (users sample_db). user_email u = ''admin'' \<and>
        (\<exists>ses n. refresh_lookup sample_ext ''r'' t = (Inr (ses, u, n), t)))"
proof -
  have tm: "db_now sample_ext < utc_now sample_ext + days 7"
    by (simp add: sample_ext_def days_def seconds_def)
  have e: "login_email sample_login = ''admin''" "refresh_token sample_tokens = ''r''"
    by (simp_all add: sample_login_def sample_tokens_def)
  from login_grants_session [OF _ _ sample_login_runs] tm show ?thesis
    unfolding sample_login_runs by (simp only: sum.case e sample_app_simps sample_db_ok) blast
qed

section \<open>Rotation and revocation\<close>

lemma refresh_rotate_Inr:
  assumes "faults s = []" and "refresh_rotate w (ses, u, n) s = (Inr r, t)"
  shows "\<exists>x e. update_session (ses_id ses)
      (\<lambda>s. s\<lparr>ses_token_hash := hash_token w (generate_refresh_token w),
              ses_expires_at := utc_now w + days 7\<rparr>) (db s) = Inr (x, e) \<and> t = s\<lparr>db := e\<rparr> \<and>
      refresh_token r = generate_refresh_token w"
  using assms
  by (auto simp: refresh_rotate_def prog_simps Let_def jwt_encode_def
      split: option.splits sum.splits prod.splits)

text \<open>
  C23. Refresh tokens are single use: once \<open>refresh\<close> has exchanged a token for a new one,
  presenting the old token again is answered with 401 and changes nothing, at any later time
  and whatever new randomness is drawn, provided the two tokens hash differently.
\<close>

theorem refresh_rotates:
  assumes "faults s = []" and "db_ok (db s)" and "refresh w tok s = (Inr r, t)"
    and "hash_token w tok \<noteq> hash_token w (generate_refresh_token w)"
    and "hash_token w' tok = hash_token w tok"
  shows "refresh w' tok t = (Inl Unauthorized, t)"
proof -
  let ?h = "hash_token w tok" and ?h' = "hash_token w (generate_refresh_token w)"
  from assms(1,3) obtain ses u n where
    q: "fetch_optional (session_rows (db_now w) ?h (db s)) = Some (ses, u, n)"
    and rot: "refresh_rotate w (ses, u, n) s = (Inr r, t)"
    by (auto simp: refresh_def andthen_apply refresh_lookup_no_fault split: option.splits)
  obtain x e where upd: "update_session (ses_id ses)
      (\<lambda>s. s\<lparr>ses_token_hash := ?h', ses_expires_at := utc_now w + days 7\<rparr>) (db s) = Inr (x, e)"
    and t: "t = s\<lparr>db := e\<rparr>"
    using refresh_rotate_Inr [OF assms(1) rot] by auto
  from fetch_optional_in [OF q] have ses: "ses \<in> set (sessions (db s))" "ses_token_hash ses = ?h"
    by (auto simp: session_rows_iff)
  have "?h \<notin> ses_token_hash ` set (sessions e)"
  proof (cases x)
    case None
    with upd ses show ?thesis by (auto simp: sessions.update_None)
  next
    case (Some y)
    with upd have "sessions e = update_where (\<lambda>q. ses_id q = ses_id ses)
        (\<lambda>s. s\<lparr>ses_token_hash := ?h', ses_expires_at := utc_now w + days 7\<rparr>) (sessions (db s))"
      by (auto simp: sessions.update_Some put_defs)
    moreover have "q = ses" if "q \<in> set (sessions (db s))" "ses_token_hash q = ?h" for q
      using session_unique [OF assms(2) that(1) ses(1)] that ses by simp
    ultimately show ?thesis using assms(4) by (fastforce simp: set_update_where)
  qed
  then show ?thesis
    using assms(1,5)
    by (simp add: refresh_def andthen_apply refresh_lookup_no_fault t session_rows_dead)
qed

definition sample_refreshed :: app where
  "sample_refreshed = sample_app\<lparr>db := sample_db\<lparr>sessions :=
     [\<lparr>ses_id = 15, ses_user_id = 10, ses_token_hash = ''#r'', ses_expires_at = seconds 605800\<rparr>]\<rparr>\<rparr>"

lemma sample_lookup_runs:
  "refresh_lookup sample_ext ''old'' sample_app =
     (Inr (sample_session, sample_user, ''admin''), sample_app)"
  by (simp add: refresh_lookup_def session_rows_def auth_eval sample_defs)

lemma sample_rotate_runs:
  "refresh_rotate sample_ext (sample_session, sample_user, ''admin'') sample_app =
     (Inr sample_tokens, sample_refreshed)"
  by (simp add: refresh_rotate_def sample_tokens_def sample_refreshed_def update_where_def
      delete_where_def auth_eval sample_defs)

lemma sample_refresh_runs:
  "refresh sample_ext ''old'' sample_app = (Inr sample_tokens, sample_refreshed)"
  by (simp add: refresh_def andthen_apply sample_lookup_runs sample_rotate_runs)

theorem refresh_rotates_witness:
  "refresh sample_ext ''old'' sample_app = (Inr sample_tokens, sample_refreshed) \<and>
   refresh sample_ext ''old'' sample_refreshed = (Inl Unauthorized, sample_refreshed)"
proof -
  have "hash_token sample_ext ''old'' \<noteq> hash_token sample_ext (generate_refresh_token sample_ext)"
    by (simp add: auth_eval sample_ext_def)
  from refresh_rotates [OF _ _ sample_refresh_runs this] sample_refresh_runs show ?thesis by simp
qed

text \<open>
  Logging out revokes every session of the user: afterwards no refresh token whose session
  belonged to that user is accepted, while the sessions of other users are all still there.
\<close>

theorem logout_revokes:
  assumes "faults s = []" and "db_ok (db s)" and "ses \<in> set (sessions (db s))"
    and "hash_token w tok = ses_token_hash ses"
  shows "fst (logout me s) = Inr 204 \<and>
    (if ses_user_id ses = me_id me
     then refresh w tok (snd (logout me s)) = (Inl Unauthorized, snd (logout me s))
     else ses \<in> set (sessions (db (snd (logout me s)))))"
proof -
  let ?d = "(db s)\<lparr>sessions := delete_where (\<lambda>s. ses_user_id s = me_id me) (sessions (db s))\<rparr>"
  have out: "logout me s = (Inr 204, s\<lparr>db := ?d\<rparr>)"
    by (simp add: logout_def prog_simps assms(1) delete_sessions_of_def)
  have "ses_token_hash ses \<notin> ses_token_hash ` set (sessions ?d)" if "ses_user_id ses = me_id me"
    using that session_unique [OF assms(2,3)] by auto
  with out assms show ?thesis
    by (auto simp: refresh_def andthen_apply refresh_lookup_no_fault session_rows_dead)
qed

theorem logout_revokes_witness:
  "fst (logout \<lparr>me_id = 10, me_email = ''admin'', me_role = ''admin''\<rparr> sample_app) = Inr 204 \<and>
   fst (refresh sample_ext ''old''
     (snd (logout \<lparr>me_id = 10, me_email = ''admin'', me_role = ''admin''\<rparr> sample_app)))
     = Inl Unauthorized"
proof -
  have h: "hash_token sample_ext ''old'' = ses_token_hash sample_session"
    by (simp add: auth_eval sample_defs)
  have o: "ses_user_id sample_session = 10" by (simp add: sample_session_def)
  from logout_revokes [OF _ _ _ h, of sample_app
      "\<lparr>me_id = 10, me_email = ''admin'', me_role = ''admin''\<rparr>"]
  show ?thesis by (simp add: o)
qed

text \<open>
  Rotation is not atomic: \<open>refresh\<close> looks the session up and rewrites it in two separate
  statements. When two requests with the same token both do their lookup before either
  rewrite, both are answered with tokens, so a token can be exchanged twice.
\<close>

theorem refresh_race:
  assumes "faults s = []" and "db_ok (db s)"
    and "refresh_lookup w1 tok s = (Inr row, s)" and "refresh_lookup w2 tok s = (Inr row, s)"
    and "refresh_rotate w1 row s = (Inr r1, s1)"
    and "hash_token w2 (generate_refresh_token w2) \<notin> ses_token_hash ` set (sessions (db s1))"
    and "\<And>c. jwt_sign w2 (jwt_key (jwt s)) c \<noteq> None"
  shows "\<exists>r2 s2. refresh_rotate w2 row s1 = (Inr r2, s2) \<and>
           refresh_token r2 = generate_refresh_token w2"
proof -
  obtain ses u n where row: "row = (ses, u, n)" by (cases row)
  obtain x e where upd: "update_session (ses_id ses)
      (\<lambda>s. s\<lparr>ses_token_hash := hash_token w1 (generate_refresh_token w1),
              ses_expires_at := utc_now w1 + days 7\<rparr>) (db s) = Inr (x, e)"
    and s1: "s1 = s\<lparr>db := e\<rparr>"
    using refresh_rotate_Inr assms(1,5) unfolding row by blast
  have ok: "db_ok e" using update_session_ok upd assms(2) by (rule stmt_keepsD)
  let ?f = "\<lambda>s. s\<lparr>ses_token_hash := hash_token w2 (generate_refresh_token w2),
              ses_expires_at := utc_now w2 + days 7\<rparr>"
  have "\<exists>y d. update_session (ses_id ses) ?f e = Inr (y, d)"
  proof (cases "find (\<lambda>q. ses_id q = ses_id ses) (sessions e)")
    case None
    then show ?thesis by (simp add: update_pk_def)
  next
    case (Some q)
    from find_key_Some [OF this] have q: "q \<in> set (sessions e)" "ses_id q = ses_id ses" by auto
    then have "taken user_id (ses_user_id q) (users e)"
      using ok by (auto simp: db_ok_def sound_rows_def list_all_iff session_ok_def)
    with assms(6) q have "session_check e (?f q) (delete_where (\<lambda>r. ses_id r = ses_id ses) (sessions e)) = None"
      by (auto simp: session_check_def s1)
    with Some show ?thesis by (simp add: update_pk_def)
  qed
  with assms(1,7) show ?thesis
    by (auto simp: refresh_rotate_def row s1 prog_simps Let_def jwt_encode_def split: option.splits)
qed

definition sample_ext2 :: ext where
  "sample_ext2 = sample_ext\<lparr>random32 := ''q'', jwt_sign := (\<lambda>k c. Some ''jwt'')\<rparr>"

theorem refresh_race_witness:
  "\<exists>r2 s2. refresh_rotate sample_ext (sample_session, sample_user, ''admin'') sample_app
       = (Inr sample_tokens, sample_refreshed) \<and>
     refresh_rotate sample_ext2 (sample_session, sample_user, ''admin'') sample_refreshed
       = (Inr r2, s2) \<and> refresh_token r2 = ''q''"
proof -
  have l: "refresh_lookup sample_ext2 ''old'' sample_app =
      (Inr (sample_session, sample_user, ''admin''), sample_app)"
    by (simp add: refresh_lookup_def session_rows_def auth_eval sample_defs sample_ext2_def)
  have f: "hash_token sample_ext2 (generate_refresh_token sample_ext2)
      \<notin> ses_token_hash ` set (sessions (db sample_refreshed))"
    by (simp add: auth_eval sample_defs sample_ext2_def sample_refreshed_def)
  have g: "generate_refresh_token sample_ext2 = ''q''"
    by (simp add: auth_eval sample_defs sample_ext2_def)
  have j: "jwt_sign sample_ext2 (jwt_key (jwt sample_app)) c \<noteq> None" for c
    by (simp add: sample_ext2_def)
  from refresh_race [OF _ _ sample_lookup_runs l sample_rotate_runs f j] sample_rotate_runs g
  show ?thesis by simp
qed

section \<open>Access tokens\<close>

text \<open>
  C24. The access token of a login identifies its user: sent as a bearer header within the
  fifteen minutes of its life, it is accepted and yields the id, e-mail and role that the
  database held at login, in every later state with the same key. It is accepted even after the
  user has logged out or been deleted, since the database is not asked. The verification
  function is taken to accept what the signing function signed until the token expires.
\<close>

theorem access_token_authenticates:
  assumes "faults s = []" and "login w b s = (Inr r, t)"
    and "\<And>c tok. jwt_sign w (jwt_key (jwt s)) c = Some tok \<Longrightarrow> timestamp (utc_now w') \<le> exp_at c \<Longrightarrow>
           jwt_verify w' (jwt_key (jwt s)) (utc_now w') tok = Some c"
    and "timestamp (utc_now w') \<le> timestamp (utc_now w) + access_ttl_secs (jwt s)"
    and "header_to_str (''Bearer '' @ access_token r) \<noteq> None"
    and "jwt t' = jwt s"
  shows "\<exists>u n. (u, n) \<in> set (login_rows (login_email b) (db s)) \<and>
    from_request_parts w' [(''authorization'', ''Bearer '' @ access_token r)] t' =
      (Inr \<lparr>me_id = user_id u, me_email = user_email u, me_role = n\<rparr>, t')"
proof -
  obtain u n a where u: "(u, n) \<in> set (login_rows (login_email b) (db s))"
    and a: "jwt_sign w (jwt_key (jwt s)) (make_claims w (jwt s) (user_id u) (user_email u) n) = Some a"
    and r: "access_token r = a"
    using login_Inr [OF assms(1,2)] by auto
  have h: "header_to_str (''Bearer '' @ a) = Some (''Bearer '' @ a)"
    using assms(5) r by (auto simp: header_to_str_def split: if_splits)
  have b: "bearer_token [(''authorization'', ''Bearer '' @ a)] = Some a"
    unfolding bearer_token_def header_str_def map_of.simps fst_conv snd_conv fun_upd_same
    by (simp only: bind.bind_lunit h strip_prefix_append)
  from assms(3) [OF a] assms(4)
  have v: "jwt_verify w' (jwt_key (jwt s)) (utc_now w') a =
      Some (make_claims w (jwt s) (user_id u) (user_email u) n)"
    by (simp add: make_claims_def Let_def)
  have "from_request_parts w' [(''authorization'', ''Bearer '' @ access_token r)] t' =
      (Inr \<lparr>me_id = user_id u, me_email = user_email u, me_role = n\<rparr>, t')"
    unfolding from_request_parts_def r b
    by (simp add: prog_simps jwt_decode_def assms(6) v make_claims_def Let_def)
  with u show ?thesis by blast
qed

theorem access_token_authenticates_witness:
  "\<exists>u n. (u, n) \<in> set (login_rows ''admin'' sample_db) \<and>
    from_request_parts sample_ext [(''authorization'', ''Bearer jwt'')] sample_app =
      (Inr \<lparr>me_id = user_id u, me_email = user_email u, me_role = n\<rparr>, sample_app)"
proof -
  have v: "jwt_verify sample_ext (jwt_key (jwt sample_app)) (utc_now sample_ext) tok = Some c"
    if "jwt_sign sample_ext (jwt_key (jwt sample_app)) c = Some tok" for c tok
    using that by (auto simp: sample_ext_def seconds_def split: if_splits)
  have t: "timestamp (utc_now sample_ext) \<le>
      timestamp (utc_now sample_ext) + access_ttl_secs (jwt sample_app)"
    by (simp add: jwt_from_secret_def)
  have a: "access_token sample_tokens = ''jwt''" "login_email sample_login = ''admin''"
    by (simp_all add: sample_tokens_def sample_login_def)
  have h: "header_to_str (''Bearer '' @ access_token sample_tokens) \<noteq> None"
    by (simp add: a header_to_str_def)
  from access_token_authenticates [OF _ sample_login_runs v t h refl] show ?thesis
    by (simp only: a sample_app_simps append.simps simp_thms)
qed

end
