(* ===== verification/Users.thy ===== *)
theory Users
  imports Auth
begin

text \<open>
  User accounts: the handlers of \<open>coordinator/src/routes/users.rs\<close> and the seeding of the first
  administrator in \<open>coordinator/src/bin/migrate.rs\<close>.
\<close>

section \<open>Handlers\<close>

definition list_users :: "current_user \<Rightarrow> user_response list handler" where
  "list_users me =
     andthen (ensure (is_admin me) Forbidden) (\<lambda>_.
     andthen (sqlq (query (\<lambda>d. sort_desc user_created_at (users d)))) (\<lambda>rows.
     ret (map user_response_from rows)))"

definition create_user :: "ext \<Rightarrow> current_user \<Rightarrow> create_user_req \<Rightarrow> (nat \<times> user_response) handler" where
  "create_user w me body =
     andthen (ensure (is_admin me) Forbidden) (\<lambda>_.
     andthen (ok_or Internal (hash_password w (cu_password body))) (\<lambda>hash.
     andthen (sqlq (insert_user
       \<lparr>user_id = fresh_uuid w, user_email = cu_email body, user_password_hash = hash,
        user_role_id = cu_role_id body, user_created_at = db_now w, user_updated_at = db_now w\<rparr>))
       (\<lambda>row.
     ret (201, user_response_from row))))"

definition get_user :: "current_user \<Rightarrow> uuid \<Rightarrow> user_response handler" where
  "get_user me i =
     andthen (ensure (is_admin me \<or> me_id me = i) Forbidden) (\<lambda>_.
     andthen (sqlq (query (\<lambda>d. find (\<lambda>u. user_id u = i) (users d)))) (\<lambda>row.
     andthen (ok_or NotFound row) (\<lambda>u.
     ret (user_response_from u))))"

text \<open>\<open>body.password.map(hash_password).transpose()\<close>\<close>

definition new_hash :: "ext \<Rightarrow> string option \<Rightarrow> string option handler" where
  "new_hash w pw =
     (case pw of
        None \<Rightarrow> ret None
      | Some p \<Rightarrow> andthen (ok_or Internal (hash_password w p)) (\<lambda>h. ret (Some h)))"

definition update_user :: "ext \<Rightarrow> current_user \<Rightarrow> uuid \<Rightarrow> update_user_req \<Rightarrow> user_response handler" where
  "update_user w me i body =
     andthen (ensure (is_admin me \<or> me_id me = i) Forbidden) (\<lambda>_.
     andthen (new_hash w (uu_password body)) (\<lambda>hash.
     andthen (sqlq (update_user_row i (\<lambda>u. u
       \<lparr>user_email := coalesce (uu_email body) (user_email u),
        user_password_hash := coalesce hash (user_password_hash u),
        user_role_id := coalesce (uu_role_id body) (user_role_id u),
        user_updated_at := db_now w\<rparr>))) (\<lambda>row.
     andthen (ok_or NotFound row) (\<lambda>u.
     ret (user_response_from u)))))"

definition delete_user :: "current_user \<Rightarrow> uuid \<Rightarrow> nat handler" where
  "delete_user me i =
     andthen (ensure (is_admin me) Forbidden) (\<lambda>_.
     andthen (sqlq (delete_user_row i)) (\<lambda>row.
     andthen (ensure (row \<noteq> None) NotFound) (\<lambda>_.
     ret 204)))"

text \<open>
  \<open>migrate\<close>: when no user exists, an account \<open>admin\<close> with password \<open>admin\<close> for each role named
  \<open>admin\<close> (there is one). Each step ends the program on an error.
\<close>

definition seed_admin :: "ext \<Rightarrow> unit handler" where
  "seed_admin w =
     andthen (sqlq (query (\<lambda>d. length (users d)))) (\<lambda>count.
     if count = 0 then
       andthen (ok_or Internal (hash_password w ''admin'')) (\<lambda>hash.
       andthen (sqlq (query (\<lambda>d. find (\<lambda>r. role_name r = ''admin'') (roles d)))) (\<lambda>role.
       case role of
         None \<Rightarrow> ret ()
       | Some r \<Rightarrow>
           andthen (sqlq (insert_user
             \<lparr>user_id = fresh_uuid w, user_email = ''admin'', user_password_hash = hash,
              user_role_id = role_id r, user_created_at = db_now w, user_updated_at = db_now w\<rparr>))
             (\<lambda>_. ret ())))
     else ret ())"

section \<open>Invariants\<close>

lemma keeps_new_hash [keeps_rules]: "keeps I (new_hash w p)"
  by (cases p) (auto simp: new_hash_def intro!: keeps_rules)

context writer
begin

lemma keeps_list_users: "keeps J (list_users me)"
  unfolding list_users_def by (intro keeps_rules)

lemma keeps_create_user: "keeps J (create_user w me b)"
  unfolding create_user_def by (intro keeps_rules)

lemma keeps_get_user: "keeps J (get_user me i)"
  unfolding get_user_def by (intro keeps_rules)

lemma keeps_update_user: "keeps J (update_user w me i b)"
  unfolding update_user_def by (intro keeps_rules) simp

lemma keeps_delete_user: "keeps J (delete_user me i)"
  unfolding delete_user_def by (intro keeps_rules)

lemma keeps_seed_admin: "keeps J (seed_admin w)"
  unfolding seed_admin_def by (intro keeps_rules) (auto intro!: keeps_rules split: option.split)

end

section \<open>Properties\<close>

text \<open>
  Only administrators manage accounts: without the role \<open>admin\<close>, listing, creating and
  deleting accounts, and reading or changing an account other than one's own, are answered with
  403 before anything is read or changed.
\<close>

theorem users_access_control:
  assumes "me_role me \<noteq> ''admin''"
  shows "list_users me s = (Inl Forbidden, s) \<and>
    create_user w me cb s = (Inl Forbidden, s) \<and>
    delete_user me i s = (Inl Forbidden, s) \<and>
    (i \<noteq> me_id me \<longrightarrow> get_user me i s = (Inl Forbidden, s) \<and>
                     update_user w me i ub s = (Inl Forbidden, s))"
  using assms
  by (auto simp: list_users_def create_user_def delete_user_def get_user_def update_user_def
      is_admin_def prog_simps)

theorem users_access_control_witness:
  "list_users \<lparr>me_id = 11, me_email = ''vi'', me_role = ''viewer''\<rparr> sample_app =
     (Inl Forbidden, sample_app)"
  by (rule users_access_control [THEN conjunct1]) simp


definition sample_admin :: current_user where
  "sample_admin = \<lparr>me_id = 10, me_email = ''admin'', me_role = ''admin''\<rparr>"



text \<open>
  C26. An account can promote itself: \<open>update_user\<close> lets every user change their own record, and
  the role is one of the fields. A user of any role who knows the id of the role \<open>admin\<close> can set
  it, and every login of that account from then on carries the role \<open>admin\<close>.
\<close>

theorem update_user_self_promotion:
  assumes "faults s = []" and "db_ok (db s)" and "u \<in> set (users (db s))" and "me_id me = user_id u"
    and "r \<in> set (roles (db s))" and "role_name r = ''admin''"
  shows "\<exists>v t u'. update_user w me (user_id u)
      \<lparr>uu_email = None, uu_password = None, uu_role_id = Some (role_id r)\<rparr> s = (Inr v, t) \<and>
    (u', ''admin'') \<in> set (login_rows (user_email u) (db t)) \<and> user_id u' = user_id u \<and>
    user_password_hash u' = user_password_hash u"
proof -
  let ?f = "\<lambda>u. u\<lparr>user_email := coalesce None (user_email u),
        user_password_hash := coalesce None (user_password_hash u),
        user_role_id := coalesce (Some (role_id r)) (user_role_id u), user_updated_at := db_now w\<rparr>"
  have look: "find (\<lambda>q. user_id q = user_id u) (users (db s)) = Some u"
    using assms(2,3) by (simp add: db_ok_def users.find_iff)
  have "taken user_id (user_id u) qs \<Longrightarrow> False"
    if "qs = delete_where (\<lambda>q. user_id q = user_id u) (users (db s))" for qs
    using that by auto
  moreover have "user_email u \<notin> user_email ` set (delete_where (\<lambda>q. user_id q = user_id u) (users (db s)))"
    using user_unique [OF assms(2) _ assms(3)] by fastforce
  ultimately have chk: "user_check (db s) (?f u)
      (delete_where (\<lambda>q. user_id q = user_id u) (users (db s))) = None"
    using assms(5) by (auto simp: user_check_def)
  have upd: "update_user_row (user_id u) ?f (db s) = Inr (Some (?f u),
      (db s)\<lparr>users := update_where (\<lambda>q. user_id q = user_id u) ?f (users (db s))\<rparr>)"
    using look chk by (simp add: update_pk_def put_defs)
  define t where "t = s\<lparr>db := (db s)\<lparr>users :=
      update_where (\<lambda>q. user_id q = user_id u) ?f (users (db s))\<rparr>\<rparr>"
  have "update_user w me (user_id u)
      \<lparr>uu_email = None, uu_password = None, uu_role_id = Some (role_id r)\<rparr> s =
    (Inr (user_response_from (?f u)), t)"
    using assms(1,4) upd by (simp add: update_user_def new_hash_def prog_simps t_def)
  moreover have "(?f u, ''admin'') \<in> set (login_rows (user_email u) (db t))"
    using assms(3,5,6) by (auto simp: login_rows_iff set_update_where t_def)
  moreover have "user_id (?f u) = user_id u" "user_password_hash (?f u) = user_password_hash u"
    by simp_all
  ultimately show ?thesis by blast
qed

theorem update_user_self_promotion_witness:
  "\<exists>v t u'. update_user sample_ext \<lparr>me_id = 11, me_email = ''vi'', me_role = ''viewer''\<rparr> 11
      \<lparr>uu_email = None, uu_password = None, uu_role_id = Some 1\<rparr> sample_app = (Inr v, t) \<and>
    (u', ''admin'') \<in> set (login_rows ''vi'' (db t))"
proof -
  let ?me = "\<lparr>me_id = 11, me_email = ''vi'', me_role = ''viewer''\<rparr>"
  let ?r = "\<lparr>role_id = 1, role_name = ''admin''\<rparr>"
  have "?r \<in> set (roles (db sample_app))" "role_name ?r = ''admin''" "me_id ?me = user_id sample_viewer"
    by (simp_all add: sample_db_def sample_viewer_def)
  moreover have "user_id sample_viewer = 11" "user_email sample_viewer = ''vi''" "role_id ?r = 1"
    by (simp_all add: sample_viewer_def)
  ultimately show ?thesis
    using update_user_self_promotion [of sample_app sample_viewer ?me ?r sample_ext] by auto
qed

text \<open>
  Deleting an account removes it with its sessions: an administrator's \<open>delete_user\<close> of an
  existing account answers 204, leaves every other account, and no refresh token of the account
  works afterwards; a second delete is answered with 404 and changes nothing.
\<close>

theorem delete_user_revokes:
  assumes "faults s = []" and "db_ok (db s)" and "is_admin me" and "u \<in> set (users (db s))"
    and "delete_user me (user_id u) s = (res, t)"
  shows "res = Inr 204 \<and>
    set (users (db t)) = {v \<in> set (users (db s)). user_id v \<noteq> user_id u} \<and>
    (\<forall>ses \<in> set (sessions (db s)). ses_user_id ses = user_id u \<longrightarrow>
       (\<forall>w tok. hash_token w tok = ses_token_hash ses \<longrightarrow> refresh w tok t = (Inl Unauthorized, t))) \<and>
    delete_user me (user_id u) t = (Inl NotFound, t)"
proof -
  let ?d = "(db s)\<lparr>users := delete_where (\<lambda>v. user_id v = user_id u) (users (db s)),
            sessions := delete_where (\<lambda>x. ses_user_id x = user_id u) (sessions (db s))\<rparr>"
  have look: "find (\<lambda>q. user_id q = user_id u) (users (db s)) = Some u"
    using assms(2,4) by (simp add: db_ok_def users.find_iff)
  with assms(1,3,5) have r: "res = Inr 204" and t: "t = s\<lparr>db := ?d\<rparr>"
    by (simp_all add: delete_user_def prog_simps delete_user_row_def)
  have gone: "find (\<lambda>q. user_id q = user_id u) (users ?d) = None"
    by (auto simp: find_None_iff)
  have same: "delete_where (\<lambda>v. user_id v = user_id u) (users ?d) = users ?d"
    "delete_where (\<lambda>x. ses_user_id x = user_id u) (sessions ?d) = sessions ?d"
    by (auto intro!: delete_where_none)
  have "delete_user_row (user_id u) ?d = Inr (None, ?d)"
    unfolding delete_user_row_def gone same by simp
  then have again: "delete_user me (user_id u) t = (Inl NotFound, t)"
    using assms(1,3) by (simp add: delete_user_def prog_simps t)
  have "refresh w tok t = (Inl Unauthorized, t)"
    if "ses \<in> set (sessions (db s))" "ses_user_id ses = user_id u"
      "hash_token w tok = ses_token_hash ses" for ses w tok
  proof -
    have "q = ses" if "q \<in> set (sessions (db s))" "ses_token_hash ses = ses_token_hash q" for q
      using session_unique [OF assms(2) that(1) \<open>ses \<in> set (sessions (db s))\<close>] that(2) by simp
    then have "ses_token_hash ses \<notin> ses_token_hash ` set (sessions ?d)"
      using that(2) by auto
    then show ?thesis
      using assms(1) that(3)
      by (simp add: refresh_def andthen_apply refresh_lookup_no_fault t session_rows_dead)
  qed
  with r t again show ?thesis by auto
qed

theorem delete_user_revokes_witness:
  "\<exists>t. delete_user sample_admin 10 sample_app = (Inr 204, t) \<and>
     delete_user sample_admin 10 t = (Inl NotFound, t)"
proof -
  obtain res t where d: "delete_user sample_admin (user_id sample_user) sample_app = (res, t)"
    by fastforce
  have a: "is_admin sample_admin" and i: "user_id sample_user = 10"
    by (simp_all add: sample_admin_def is_admin_def sample_user_def)
  from delete_user_revokes [OF _ _ a _ d] d i show ?thesis by auto
qed

end
