(* ===== verification/Nodes.thy ===== *)
theory Nodes
  imports Users
begin

text \<open>
  Recording nodes: registration, approval and capacity, the handlers of
  \<open>coordinator/src/routes/nodes.rs\<close>, with the camera configuration that is sent to a node.
\<close>

section \<open>Camera configuration of a node\<close>

text \<open>\<open>node_camera_config\<close> of \<open>cameras.rs\<close>, also the row mapping of both \<open>fetch_node_cameras\<close>.\<close>

definition node_camera_config :: "camera \<Rightarrow> node_camera_cfg" where
  "node_camera_config c =
     \<lparr>ncc_id = cam_id c, ncc_name = cam_name c, ncc_rtsp_url = cam_rtsp_url c,
      ncc_stream_path = (case cam_stream_path c of None \<Rightarrow> [] | Some p \<Rightarrow> p),
      ncc_enabled = cam_enabled c, ncc_onvif_url = cam_onvif_url c,
      ncc_onvif_username = cam_onvif_username c, ncc_onvif_password = cam_onvif_password c,
      ncc_motion_detection = cam_motion_detection c\<rparr>"

definition cameras_of :: "uuid \<Rightarrow> database \<Rightarrow> camera list" where
  "cameras_of n d = filter (\<lambda>c. cam_node_id c = n) (cameras d)"

definition node_config :: "uuid \<Rightarrow> database \<Rightarrow> node_camera_cfg list" where
  "node_config n d = map node_camera_config (cameras_of n d)"

text \<open>\<open>unwrap_or_default\<close>: a lost connection yields the empty list.\<close>

definition fetch_node_cameras :: "uuid \<Rightarrow> node_camera_cfg list handler" where
  "fetch_node_cameras n =
     andthen (attempt (sql (query (cameras_of n)))) (\<lambda>r.
     ret (map node_camera_config (unwrap_or [] r)))"

definition camera_count :: "uuid \<Rightarrow> database \<Rightarrow> int" where
  "camera_count n d = int (length (cameras_of n d))"

definition max_cameras_per_node :: int where
  "max_cameras_per_node = 64"

section \<open>Handlers\<close>

record register_node_response =
  rn_node :: node_response
  rn_api_key :: string

record self_register_request =
  sr_name :: string
  sr_hardware :: "hardware_profile option"

record node_capacity =
  nc_node_id :: uuid
  nc_camera_count :: int
  nc_max_cameras :: int
  nc_headroom :: int

definition new_node :: "ext \<Rightarrow> string \<Rightarrow> string \<Rightarrow> node_status \<Rightarrow> json \<Rightarrow> node" where
  "new_node w name key_hash st meta =
     \<lparr>node_id = fresh_uuid w, node_name = name, node_api_key_hash = key_hash, node_status = st,
      node_last_seen_at = None, node_ip_addr = None, node_version = None, node_metadata = meta,
      node_created_at = db_now w, node_updated_at = db_now w\<rparr>"

definition self_register ::
  "ext \<Rightarrow> self_register_request \<Rightarrow> (nat \<times> register_node_response) handler" where
  "self_register w body =
     (let api_key = generate_refresh_token w;
          meta = JObj [(''hardware'', json_opt hardware_json (sr_hardware body))]
      in andthen (sqlq (insert_node (new_node w (sr_name body) (hash_token w api_key) Pending meta)))
           (\<lambda>row. ret (201, \<lparr>rn_node = node_response_from (inet_text w) row, rn_api_key = api_key\<rparr>)))"

definition list_nodes :: "ext \<Rightarrow> current_user \<Rightarrow> node_response list handler" where
  "list_nodes w me =
     andthen (ensure (is_operator_or_above me) Forbidden) (\<lambda>_.
     andthen (sqlq (query (\<lambda>d. sort_desc node_created_at (nodes d)))) (\<lambda>rows.
     ret (map (node_response_from (inet_text w)) rows)))"

definition create_node ::
  "ext \<Rightarrow> current_user \<Rightarrow> string \<Rightarrow> (nat \<times> register_node_response) handler" where
  "create_node w me name =
     andthen (ensure (is_admin me) Forbidden) (\<lambda>_.
     let api_key = generate_refresh_token w
     in andthen (sqlq (insert_node (new_node w name (hash_token w api_key) Approved (JObj []))))
          (\<lambda>row. ret (201, \<lparr>rn_node = node_response_from (inet_text w) row, rn_api_key = api_key\<rparr>)))"

definition get_node :: "ext \<Rightarrow> current_user \<Rightarrow> uuid \<Rightarrow> node_response handler" where
  "get_node w me i =
     andthen (ensure (is_operator_or_above me) Forbidden) (\<lambda>_.
     andthen (sqlq (query (\<lambda>d. find (\<lambda>n. node_id n = i) (nodes d)))) (\<lambda>row.
     andthen (ok_or NotFound row) (\<lambda>n.
     ret (node_response_from (inet_text w) n))))"

definition get_node_capacity :: "current_user \<Rightarrow> uuid \<Rightarrow> node_capacity handler" where
  "get_node_capacity me i =
     andthen (ensure (is_operator_or_above me) Forbidden) (\<lambda>_.
     andthen (sqlq (query (\<lambda>d. find (\<lambda>n. node_id n = i) (nodes d)))) (\<lambda>row.
     andthen (ensure (row \<noteq> None) NotFound) (\<lambda>_.
     andthen (sqlq (query (camera_count i))) (\<lambda>count.
     ret \<lparr>nc_node_id = i, nc_camera_count = count, nc_max_cameras = max_cameras_per_node,
          nc_headroom = max (max_cameras_per_node - count) 0\<rparr>))))"

definition update_node_status ::
  "ext \<Rightarrow> current_user \<Rightarrow> uuid \<Rightarrow> node_status \<Rightarrow> node_response handler" where
  "update_node_status w me i st =
     andthen (ensure (is_admin me) Forbidden) (\<lambda>_.
     andthen (sqlq (update_node i (\<lambda>n. n\<lparr>node_status := st, node_updated_at := db_now w\<rparr>)))
       (\<lambda>row.
     andthen (ok_or NotFound row) (\<lambda>n.
     andthen (if node_status n = Approved
              then andthen (fetch_node_cameras i) (\<lambda>cams. modify (push_to_node i (config_sync cams)))
              else ret ()) (\<lambda>_.
     ret (node_response_from (inet_text w) n)))))"

definition delete_node :: "current_user \<Rightarrow> uuid \<Rightarrow> nat handler" where
  "delete_node me i =
     andthen (ensure (is_admin me) Forbidden) (\<lambda>_.
     andthen (sqlq (delete_node_row i)) (\<lambda>row.
     andthen (ensure (row \<noteq> None) NotFound) (\<lambda>_.
     ret 204)))"

section \<open>Invariants\<close>

context reader
begin

lemma keeps_fetch_node_cameras [keeps_rules]:
  "keeps J (fetch_node_cameras n)"
  unfolding fetch_node_cameras_def by (intro keeps_rules)

end

context writer
begin

lemma keeps_self_register: "keeps J (self_register w b)"
  unfolding self_register_def Let_def by (intro keeps_rules)

lemma keeps_list_nodes: "keeps J (list_nodes w me)"
  unfolding list_nodes_def by (intro keeps_rules)

lemma keeps_create_node: "keeps J (create_node w me b)"
  unfolding create_node_def Let_def by (intro keeps_rules)

lemma keeps_get_node: "keeps J (get_node w me i)"
  unfolding get_node_def by (intro keeps_rules)

lemma keeps_get_node_capacity: "keeps J (get_node_capacity me i)"
  unfolding get_node_capacity_def by (intro keeps_rules)

lemma keeps_update_node_status: "keeps J (update_node_status w me i st)"
  unfolding update_node_status_def by (intro keeps_rules) simp

lemma keeps_delete_node: "keeps J (delete_node me i)"
  unfolding delete_node_def by (intro keeps_rules)

end

section \<open>Properties\<close>

lemma fetch_node_cameras_no_fault [prog_simps]:
  "faults s = [] \<Longrightarrow> fetch_node_cameras n s = (Inr (node_config n (db s)), s)"
  by (simp add: fetch_node_cameras_def andthen_apply sql_no_fault node_config_def)

text \<open>A change of status or of the sighting of a node cannot violate a constraint.\<close>

lemma update_node_Some:
  assumes "db_ok d" and "n \<in> set (nodes d)" and "node_id n = i"
    and "\<And>m. node_id (f m) = node_id m" and "\<And>m. node_api_key_hash (f m) = node_api_key_hash m"
  shows "update_node i f d =
    Inr (Some (f n), d\<lparr>nodes := update_where (\<lambda>m. node_id m = i) f (nodes d)\<rparr>)"
proof -
  have look: "find (\<lambda>q. node_id q = i) (nodes d) = Some n"
    using assms(1-3) by (simp add: db_ok_def nodes.find_iff)
  have "distinct (map node_api_key_hash ns)" if "sound_rows P node_clash ns" for P ns
    using that by (induction ns) (auto simp: sound_rows_def node_clash_def)
  with assms(1) have "distinct (map node_api_key_hash (nodes d))"
    by (auto simp: db_ok_def)
  then have "node_check d (f n) (delete_where (\<lambda>q. node_id q = i) (nodes d)) = None"
    using assms(2-5) by (auto simp: node_check_def distinct_map inj_on_def)
  with look show ?thesis by (simp add: update_pk_def put_defs)
qed

lemma update_node_status_runs:
  assumes "faults s = []" and "db_ok (db s)" and "is_admin me" and "n \<in> set (nodes (db s))"
    and "d = (db s)\<lparr>nodes := update_where (\<lambda>m. node_id m = node_id n)
             (\<lambda>m. m\<lparr>node_status := st, node_updated_at := db_now w\<rparr>) (nodes (db s))\<rparr>"
  shows "update_node_status w me (node_id n) st s =
    (Inr (node_response_from (inet_text w) (n\<lparr>node_status := st, node_updated_at := db_now w\<rparr>)),
     if st = Approved
     then push_to_node (node_id n) (config_sync (node_config (node_id n) (db s))) (s\<lparr>db := d\<rparr>)
     else s\<lparr>db := d\<rparr>)"
proof -
  have "update_node (node_id n) (\<lambda>m. m\<lparr>node_status := st, node_updated_at := db_now w\<rparr>) (db s) =
      Inr (Some (n\<lparr>node_status := st, node_updated_at := db_now w\<rparr>), d)"
    using update_node_Some [OF assms(2,4) refl] assms(5) by simp
  moreover have "node_config i d = node_config i (db s)" for i
    using assms(5) by (simp add: node_config_def cameras_of_def)
  ultimately show ?thesis
    using assms(1,3) by (simp add: update_node_status_def prog_simps)
qed

text \<open>
  Approving a node sends it its cameras: \<open>update_node_status\<close> of an existing node sets its
  status and nothing else but the time of the update; exactly when the new status is
  \<open>Approved\<close> and the node is connected, one \<open>ConfigSync\<close> with the configuration of all cameras
  assigned to the node is queued for it, and no other node is sent anything.
\<close>

theorem update_node_status_syncs:
  assumes "faults s = []" and "db_ok (db s)" and "is_admin me" and "n \<in> set (nodes (db s))"
    and "update_node_status w me (node_id n) st s = (res, t)"
  shows "(\<exists>v. res = Inr v \<and> nr_status v = st) \<and>
    db t = (db s)\<lparr>nodes := update_where (\<lambda>m. node_id m = node_id n)
             (\<lambda>m. m\<lparr>node_status := st, node_updated_at := db_now w\<rparr>) (nodes (db s))\<rparr> \<and>
    (online (node_id n) s \<longrightarrow>
       pending_for (node_id n) t = pending_for (node_id n) s @
         (if st = Approved then [ConfigSync 0 (node_config (node_id n) (db s))] else [])) \<and>
    (channels_apart s \<longrightarrow>
       (\<forall>k. k \<noteq> node_id n \<longrightarrow> pending_for k t = pending_for k s))"
proof -
  let ?d = "(db s)\<lparr>nodes := update_where (\<lambda>m. node_id m = node_id n)
             (\<lambda>m. m\<lparr>node_status := st, node_updated_at := db_now w\<rparr>) (nodes (db s))\<rparr>"
  have "res = Inr (node_response_from (inet_text w)
        (n\<lparr>node_status := st, node_updated_at := db_now w\<rparr>)) \<and>
      t = (if st = Approved
           then push_to_node (node_id n) (config_sync (node_config (node_id n) (db s))) (s\<lparr>db := ?d\<rparr>)
           else s\<lparr>db := ?d\<rparr>)"
    using assms(5) update_node_status_runs [OF assms(1-4) refl, of w st] by auto
  moreover have "channels_apart (s\<lparr>db := ?d\<rparr>) = channels_apart s"
    by (simp add: channels_apart_def)
  ultimately show ?thesis
    by (auto simp: node_response_from_def config_sync_def pending_push_same pending_push_other)
qed

theorem update_node_status_syncs_witness:
  "\<exists>v t. update_node_status sample_ext sample_admin 20 Approved sample_app = (Inr v, t) \<and>
     pending_for 20 t = [ConfigSync 0 (node_config 20 sample_db)]"
proof -
  obtain res t where u: "update_node_status sample_ext sample_admin 20 Approved sample_app = (res, t)"
    by fastforce
  have a: "is_admin sample_admin" "node_id sample_node = 20" "online 20 sample_app"
    "pending_for 20 sample_app = []"
    by (simp_all add: sample_admin_def is_admin_def sample_node_def online_def pending_for_def)
  from update_node_status_syncs [of sample_app sample_admin sample_node sample_ext Approved res t] u a
  show ?thesis by auto
qed

text \<open>
  Node names are not unique: registering a second node under a name that is taken is
  answered with 201 like the first, whatever the name is, as long as the fresh id and key do
  not collide; both nodes are then in the database.
\<close>

theorem self_register_same_name:
  assumes "faults s = []" and "n \<in> set (nodes (db s))" and "sr_name body = node_name n"
    and "fresh_uuid w \<notin> node_id ` set (nodes (db s))"
    and "hash_token w (generate_refresh_token w) \<notin> node_api_key_hash ` set (nodes (db s))"
  shows "\<exists>v t m. self_register w body s = (Inr (201, v), t) \<and>
    nodes (db t) = nodes (db s) @ [m] \<and> node_name m = node_name n \<and> node_status m = Pending"
  using assms
  by (auto simp: self_register_def prog_simps insert_into_def node_check_def put_defs new_node_def
      Let_def)

theorem self_register_same_name_witness:
  "\<exists>v t m. self_register sample_ext \<lparr>sr_name = ''n1'', sr_hardware = None\<rparr> sample_app =
       (Inr (201, v), t) \<and> nodes (db t) = [sample_node, m] \<and> node_name m = ''n1''"
proof -
  have n: "node_name sample_node = ''n1''" by (simp add: sample_node_def)
  have f: "fresh_uuid sample_ext \<notin> node_id ` set (nodes (db sample_app))"
    "hash_token sample_ext (generate_refresh_token sample_ext)
       \<notin> node_api_key_hash ` set (nodes (db sample_app))"
    by (simp_all add: sample_ext_def sample_node_def auth_eval)
  from self_register_same_name [of sample_app sample_node
      "\<lparr>sr_name = ''n1'', sr_hardware = None\<rparr>" sample_ext, OF _ _ _ f] n
  show ?thesis by auto
qed

end
