(* ===== verification/Cameras.thy ===== *)
theory Cameras
  imports Nodes
begin

text \<open>
  Cameras: assignment to nodes, the limit of 64 cameras per node, and the handlers of
  \<open>coordinator/src/routes/cameras.rs\<close>, which keep the owning node informed.
\<close>

section \<open>Choosing a node\<close>

text \<open>
  \<open>resolve_node\<close>: an explicit node must exist and be approved; otherwise the approved node with
  the fewest cameras that is below the limit is taken.
\<close>

definition candidates :: "database \<Rightarrow> node list" where
  "candidates d =
     filter (\<lambda>n. node_status n = Approved \<and> camera_count (node_id n) d < max_cameras_per_node)
       (nodes d)"

definition resolve_node :: "uuid option \<Rightarrow> uuid handler" where
  "resolve_node wanted =
     (case wanted of
        Some i \<Rightarrow>
          andthen (sqlq (query (\<lambda>d. map_option node_status (find (\<lambda>n. node_id n = i) (nodes d)))))
            (\<lambda>st. case st of
               None \<Rightarrow> throw NotFound
             | Some x \<Rightarrow>
                 if x = Approved then ret i
                 else throw (UnprocessableEntity ''target node is not in approved status''))
      | None \<Rightarrow>
          andthen (sqlq (query (\<lambda>d. first_min (\<lambda>n. camera_count (node_id n) d) (candidates d))))
            (\<lambda>row. ok_or
               (UnprocessableEntity ''no approved node has capacity for an additional camera'')
               (map_option node_id row)))"

definition check_capacity :: "ext \<Rightarrow> uuid \<Rightarrow> unit handler" where
  "check_capacity w n =
     andthen (sqlq (query (camera_count n))) (\<lambda>count.
     ensure (\<not> max_cameras_per_node \<le> count)
       (UnprocessableEntity (''node '' @ show_uuid w n @ '' is at the 64-camera limit'')))"

section \<open>Handlers\<close>

record camera_view =
  view_camera :: camera
  view_whep_path :: string

definition camera_view_from :: "ext \<Rightarrow> camera \<Rightarrow> camera_view" where
  "camera_view_from w c =
     \<lparr>view_camera = c,
      view_whep_path = ''/api/v1/cameras/'' @ show_uuid w (cam_id c) @ ''/whep''\<rparr>"

text \<open>
  The queries that do not select the ONVIF columns: \<open>#[sqlx(default)]\<close> fills the four fields
  with their defaults.
\<close>

definition without_onvif :: "camera \<Rightarrow> camera" where
  "without_onvif c = c\<lparr>cam_onvif_url := None, cam_onvif_username := None,
     cam_onvif_password := None, cam_motion_detection := False\<rparr>"

definition list_cameras :: "ext \<Rightarrow> uuid option \<Rightarrow> camera_view list handler" where
  "list_cameras w filter_node =
     andthen (sqlq (query (\<lambda>d. sort_key cam_created_at
       (case filter_node of
          Some n \<Rightarrow> cameras_of n d
        | None \<Rightarrow> cameras d)))) (\<lambda>rows.
     ret (map (\<lambda>c. camera_view_from w (without_onvif c)) rows))"

text \<open>\<open>create_camera\<close> in its two phases: choosing and checking the node, then inserting.\<close>

definition create_camera_check :: "ext \<Rightarrow> current_user \<Rightarrow> create_camera_req \<Rightarrow> uuid handler" where
  "create_camera_check w me body =
     andthen (ensure (is_operator_or_above me) Forbidden) (\<lambda>_.
     andthen (resolve_node (cc_node_id body)) (\<lambda>target.
     andthen (check_capacity w target) (\<lambda>_.
     ret target)))"

definition new_camera :: "ext \<Rightarrow> uuid \<Rightarrow> create_camera_req \<Rightarrow> camera" where
  "new_camera w target body =
     \<lparr>cam_id = fresh_uuid w, cam_node_id = target, cam_name = cc_name body,
      cam_rtsp_url = cc_rtsp_url body, cam_stream_path = cc_stream_path body, cam_enabled = True,
      cam_metadata = JObj [], cam_created_at = db_now w, cam_updated_at = db_now w,
      cam_onvif_url = cc_onvif_url body, cam_onvif_username = cc_onvif_username body,
      cam_onvif_password = cc_onvif_password body,
      cam_motion_detection = (case cc_motion_detection body of None \<Rightarrow> True | Some b \<Rightarrow> b),
      cam_retention_policy_id = None\<rparr>"

definition create_camera_insert ::
  "ext \<Rightarrow> create_camera_req \<Rightarrow> uuid \<Rightarrow> (nat \<times> camera_view) handler" where
  "create_camera_insert w body target =
     andthen (sqlq (insert_camera (new_camera w target body))) (\<lambda>row.
     andthen (modify (push_to_node target (CameraAdded 0 (node_camera_config row)))) (\<lambda>_.
     ret (201, camera_view_from w row)))"

definition create_camera ::
  "ext \<Rightarrow> current_user \<Rightarrow> create_camera_req \<Rightarrow> (nat \<times> camera_view) handler" where
  "create_camera w me body =
     andthen (create_camera_check w me body) (create_camera_insert w body)"

definition get_camera :: "ext \<Rightarrow> uuid \<Rightarrow> camera_view handler" where
  "get_camera w i =
     andthen (sqlq (query (\<lambda>d. find (\<lambda>c. cam_id c = i) (cameras d)))) (\<lambda>row.
     andthen (ok_or NotFound row) (\<lambda>c.
     ret (camera_view_from w (without_onvif c))))"

definition coalesce_opt :: "'a option \<Rightarrow> 'a option \<Rightarrow> 'a option" where
  "coalesce_opt x y = (case x of None \<Rightarrow> y | Some v \<Rightarrow> Some v)"

definition set_camera :: "ext \<Rightarrow> update_camera_req \<Rightarrow> camera \<Rightarrow> camera" where
  "set_camera w body c = c
     \<lparr>cam_name := coalesce (uc_name body) (cam_name c),
      cam_rtsp_url := coalesce (uc_rtsp_url body) (cam_rtsp_url c),
      cam_stream_path := coalesce_opt (uc_stream_path body) (cam_stream_path c),
      cam_enabled := coalesce (uc_enabled body) (cam_enabled c),
      cam_onvif_url := coalesce_opt (uc_onvif_url body) (cam_onvif_url c),
      cam_onvif_username := coalesce_opt (uc_onvif_username body) (cam_onvif_username c),
      cam_onvif_password := coalesce_opt (uc_onvif_password body) (cam_onvif_password c),
      cam_motion_detection := coalesce (uc_motion_detection body) (cam_motion_detection c),
      cam_updated_at := db_now w\<rparr>"

definition update_camera :: "ext \<Rightarrow> current_user \<Rightarrow> uuid \<Rightarrow> update_camera_req \<Rightarrow> camera_view handler" where
  "update_camera w me i body =
     andthen (ensure (is_operator_or_above me) Forbidden) (\<lambda>_.
     andthen (sqlq (update_camera_row i (set_camera w body))) (\<lambda>row.
     andthen (ok_or NotFound row) (\<lambda>c.
     andthen (modify (push_to_node (cam_node_id c) (CameraUpdated 0 (node_camera_config c)))) (\<lambda>_.
     ret (camera_view_from w c)))))"

definition delete_camera :: "current_user \<Rightarrow> uuid \<Rightarrow> nat handler" where
  "delete_camera me i =
     andthen (ensure (is_operator_or_above me) Forbidden) (\<lambda>_.
     andthen (sqlq (delete_camera_row i)) (\<lambda>row.
     andthen (ok_or NotFound row) (\<lambda>c.
     andthen (modify (push_to_node (cam_node_id c) (CameraRemoved 0 i))) (\<lambda>_.
     ret 204))))"

section \<open>Invariants\<close>

lemma set_camera_node [simp]: "cam_node_id (set_camera w b c) = cam_node_id c"
  by (simp add: set_camera_def)

context reader
begin

lemma keeps_resolve_node [keeps_rules]: "keeps J (resolve_node x)"
  by (auto simp: resolve_node_def intro!: keeps_rules split: option.splits)

lemma keeps_check_capacity [keeps_rules]: "keeps J (check_capacity w n)"
  unfolding check_capacity_def by (intro keeps_rules)

lemma keeps_create_camera_check [keeps_rules]: "keeps J (create_camera_check w me b)"
  unfolding create_camera_check_def by (intro keeps_rules)

lemma keeps_list_cameras: "keeps J (list_cameras w f)"
  unfolding list_cameras_def by (intro keeps_rules)

lemma keeps_get_camera: "keeps J (get_camera w i)"
  unfolding get_camera_def by (intro keeps_rules)

end

context writer
begin

lemma keeps_update_camera: "keeps J (update_camera w me i b)"
  unfolding update_camera_def by (intro keeps_rules) simp

lemma keeps_delete_camera: "keeps J (delete_camera me i)"
  unfolding delete_camera_def by (intro keeps_rules)

end

context camera_writer
begin

lemma keeps_create_camera: "keeps J (create_camera w me b)"
  unfolding create_camera_def create_camera_insert_def by (intro keeps_rules)

end

section \<open>The camera limit\<close>

definition cap_ok :: "database \<Rightarrow> bool" where
  "cap_ok d \<longleftrightarrow> (\<forall>n. camera_count n d \<le> max_cameras_per_node)"

lemma camera_count_nonneg: "0 \<le> camera_count n d"
  by (simp add: camera_count_def)

lemma camera_count_insert:
  "insert_camera c d = Inr (x, e) \<Longrightarrow>
     camera_count n e = camera_count n d + (if cam_node_id c = n then 1 else 0)"
  by (auto simp: cameras.insert_Inr put_defs camera_count_def cameras_of_def)

lemma create_camera_check_Inr:
  assumes "create_camera_check w me b s = (Inr n, t)"
  shows "db t = db s \<and> camera_count n (db s) < max_cameras_per_node"
proof -
  obtain r u where r: "resolve_node (cc_node_id b) s = (r, u)" by fastforce
  have u: "db u = db s"
    using keepsD [OF frame.keeps_resolve_node [of "\<lambda>d. d = db s"], of s "cc_node_id b"] r by simp
  obtain c v where c: "sqlq (query (camera_count n)) u = (c, v)" by fastforce
  have v: "db v = db u" using sqlq_query_db [of "camera_count n" u] c by simp
  have "c = Inr x \<Longrightarrow> x = camera_count n (db u)" for x
    using c by (auto dest: sqlq_Inr)
  with assms r c u v show ?thesis
    by (auto simp: create_camera_check_def check_capacity_def prog_simps
        split: if_splits prod.splits sum.splits)
qed

lemma create_camera_cap: "cap_ok (db s) \<Longrightarrow> cap_ok (db (snd (create_camera w me b s)))"
proof -
  assume cap: "cap_ok (db s)"
  obtain r t where r: "create_camera_check w me b s = (r, t)" by fastforce
  show ?thesis
  proof (cases r)
    case (Inl e)
    have "db t = db s"
      using keepsD [OF frame.keeps_create_camera_check [of "\<lambda>d. d = db s"], of s w me b] r by simp
    with r Inl cap show ?thesis by (simp add: create_camera_def andthen_apply)
  next
    case (Inr n)
    with r have t: "db t = db s" and lt: "camera_count n (db s) < max_cameras_per_node"
      by (auto dest: create_camera_check_Inr)
    obtain q v where q: "sqlq (insert_camera (new_camera w n b)) t = (q, v)" by fastforce
    have "cap_ok (db v)"
    proof (cases q)
      case (Inl e)
      with q cap t show ?thesis
        by (auto simp: sqlq_def map_err_def sql_def insert_into_def split: if_splits sum.splits option.splits)
    next
      case (Inr x)
      with q t obtain e where "insert_camera (new_camera w n b) (db s) = Inr (x, e)" "db v = e"
        by (auto dest!: sqlq_Inr)
      with cap lt show ?thesis
        by (auto simp: cap_ok_def camera_count_insert new_camera_def)
    qed
    with r Inr q show ?thesis
      by (cases q) (simp_all add: create_camera_def create_camera_insert_def andthen_apply)
  qed
qed

lemma cap_ok_camera_nodes:
  "map cam_node_id (cameras e) = map cam_node_id (cameras d) \<Longrightarrow> cap_ok d \<Longrightarrow> cap_ok e"
proof -
  have "length (filter (\<lambda>c. cam_node_id c = n) cs) = count_list (map cam_node_id cs) n" for cs :: "camera list" and n
    by (induction cs) auto
  moreover assume "map cam_node_id (cameras e) = map cam_node_id (cameras d)" "cap_ok d"
  ultimately show ?thesis by (simp add: cap_ok_def camera_count_def cameras_of_def)
qed

lemma cap_ok_mono: "(\<And>n. camera_count n e \<le> camera_count n d) \<Longrightarrow> cap_ok d \<Longrightarrow> cap_ok e"
  unfolding cap_ok_def by (meson order_trans)

lemma cap_ok_delete: "cap_ok d \<Longrightarrow> cap_ok (d\<lparr>cameras := delete_where P (cameras d)\<rparr>)"
proof (rule cap_ok_mono)
  have "length (filter Q (delete_where P cs)) \<le> length (filter Q cs)" for Q and cs :: "camera list"
    by (induction cs) (auto simp: delete_where_def)
  then show "camera_count n (d\<lparr>cameras := delete_where P (cameras d)\<rparr>) \<le> camera_count n d" for n
    by (simp add: camera_count_def cameras_of_def)
qed

section \<open>Properties\<close>

text \<open>
  C27. Cameras are placed on the least loaded node: without an explicit node, \<open>resolve_node\<close>
  picks an approved node with fewer than 64 cameras and no more cameras than any other such
  node, and fails with 422 only when there is none. An explicit node is taken exactly when it
  exists and is approved; it is refused with 404 or 422 otherwise.
\<close>

theorem resolve_node_least_loaded:
  assumes "faults s = []" and "db_ok (db s)" and "resolve_node wanted s = (res, t)"
  shows "t = s \<and>
    (case wanted of
       None \<Rightarrow>
         (case res of
            Inr i \<Rightarrow> (\<exists>n \<in> set (nodes (db s)). node_id n = i \<and> node_status n = Approved) \<and>
              camera_count i (db s) < 64 \<and>
              (\<forall>m \<in> set (nodes (db s)). node_status m = Approved \<longrightarrow>
                 camera_count i (db s) \<le> camera_count (node_id m) (db s))
          | Inl e \<Rightarrow> fst (into_response e) = 422 \<and>
              (\<forall>m \<in> set (nodes (db s)). node_status m = Approved \<longrightarrow>
                 64 \<le> camera_count (node_id m) (db s)))
     | Some i \<Rightarrow>
         if \<exists>n \<in> set (nodes (db s)). node_id n = i \<and> node_status n = Approved then res = Inr i
         else \<exists>e. res = Inl e \<and> fst (into_response e) =
           (if i \<in> node_id ` set (nodes (db s)) then 422 else 404))"
proof (cases wanted)
  case None
  let ?m = "first_min (\<lambda>n. camera_count (node_id n) (db s)) (candidates (db s))"
  have out: "t = s \<and> res = (case ?m of
      None \<Rightarrow> Inl (UnprocessableEntity ''no approved node has capacity for an additional camera'')
    | Some n \<Rightarrow> Inr (node_id n))"
    using assms(1,3) None by (auto simp: resolve_node_def prog_simps split: option.splits)
  show ?thesis
  proof (cases ?m)
    case None
    then have "candidates (db s) = []" by simp
    then show ?thesis
      using out None \<open>wanted = None\<close>
      by (fastforce simp: candidates_def filter_empty_conv max_cameras_per_node_def not_less)
  next
    case (Some n)
    from first_min_Some [OF this]
    have n: "n \<in> set (candidates (db s))"
      and least: "\<forall>q \<in> set (candidates (db s)). camera_count (node_id n) (db s) \<le> camera_count (node_id q) (db s)"
      by auto
    have "camera_count (node_id n) (db s) \<le> camera_count (node_id m) (db s)"
      if "m \<in> set (nodes (db s))" "node_status m = Approved" for m
      using that n least
      by (cases "camera_count (node_id m) (db s) < max_cameras_per_node")
        (auto simp: candidates_def)
    with n show ?thesis
      using out Some \<open>wanted = None\<close> by (auto simp: candidates_def max_cameras_per_node_def)
  qed
next
  case (Some i)
  have st: "find (\<lambda>n. node_id n = i) (nodes (db s)) = Some n \<longleftrightarrow> n \<in> set (nodes (db s)) \<and> node_id n = i" for n
    using assms(2) by (simp add: db_ok_def nodes.find_iff)
  show ?thesis
  proof (cases "find (\<lambda>n. node_id n = i) (nodes (db s))")
    case None
    then have no: "i \<notin> node_id ` set (nodes (db s))" by (auto simp: find_None_iff)
    from None assms(1,3) Some have "res = Inl NotFound \<and> t = s"
      by (auto simp: resolve_node_def prog_simps)
    with no Some show ?thesis by (auto simp: image_iff)
  next
    case (Some n)
    with st have n: "n \<in> set (nodes (db s))" "node_id n = i" by auto
    have only: "m = n" if "m \<in> set (nodes (db s))" "node_id m = i" for m
      using st [of m] that Some by simp
    have "(\<exists>m \<in> set (nodes (db s)). node_id m = i \<and> node_status m = Approved) \<longleftrightarrow>
        node_status n = Approved"
      using n only by blast
    moreover have "i \<in> node_id ` set (nodes (db s))" using n by blast
    moreover have "t = s \<and> res = (if node_status n = Approved then Inr i
        else Inl (UnprocessableEntity ''target node is not in approved status''))"
      using Some assms(1,3) \<open>wanted = Some i\<close> by (auto simp: resolve_node_def prog_simps)
    ultimately show ?thesis using \<open>wanted = Some i\<close> by simp
  qed
qed

theorem resolve_node_least_loaded_witness:
  "\<exists>t. resolve_node None sample_app = (Inr 20, t) \<and> camera_count 20 sample_db < 64"
proof -
  obtain res t where r: "resolve_node None sample_app = (res, t)" by fastforce
  then have "res = Inr 20"
    by (simp add: resolve_node_def prog_simps candidates_def camera_count_def cameras_of_def
        max_cameras_per_node_def sample_node_def sample_camera_def)
  with resolve_node_least_loaded [OF _ _ r] r show ?thesis by simp
qed

text \<open>
  C28. A camera is created completely or not at all: when \<open>create_camera\<close> answers 201, exactly
  one camera was added, with the fields of the request, to a node that had fewer than 64, and
  the node, if it is connected, was sent exactly one \<open>CameraAdded\<close> with that configuration; when
  it answers an error, neither the database nor any message queue has changed. A node with 64
  cameras is always refused.
\<close>

theorem create_camera_complete:
  assumes "faults s = []" and "create_camera w me b s = (res, t)"
  shows "case res of
      Inl e \<Rightarrow> t = s
    | Inr (code, v) \<Rightarrow> \<exists>n. code = 201 \<and> camera_count n (db s) < 64 \<and>
        (\<forall>i. cc_node_id b = Some i \<longrightarrow> n = i) \<and>
        db t = (db s)\<lparr>cameras := cameras (db s) @ [new_camera w n b]\<rparr> \<and>
        (online n s \<longrightarrow> pending_for n t =
           pending_for n s @ [CameraAdded 0 (node_camera_config (new_camera w n b))])"
proof -
  obtain r u where r: "create_camera_check w me b s = (r, u)" by fastforce
  have u: "u = s" using assms(1) r
    by (auto simp: create_camera_check_def resolve_node_def check_capacity_def prog_simps
        split: option.splits if_splits)
  show ?thesis
  proof (cases r)
    case (Inl e)
    with r u assms(2) show ?thesis by (auto simp: create_camera_def andthen_apply)
  next
    case (Inr n)
    have lt: "camera_count n (db s) < 64"
      using create_camera_check_Inr [OF r [unfolded Inr]] by (simp add: max_cameras_per_node_def)
    have expl: "cc_node_id b = Some i \<Longrightarrow> n = i" for i
      using r [unfolded Inr] assms(1)
      by (auto simp: create_camera_check_def resolve_node_def check_capacity_def prog_simps
          split: option.splits if_splits)
    show ?thesis
    proof (cases "insert_camera (new_camera w n b) (db s)")
      case (Inl e)
      with Inr r u assms show ?thesis
        by (auto simp: create_camera_def create_camera_insert_def prog_simps)
    next
      case (Inr p)
      then have p: "p = (new_camera w n b, (db s)\<lparr>cameras := cameras (db s) @ [new_camera w n b]\<rparr>)"
        by (cases p) (auto simp: cameras.insert_Inr put_defs)
      with Inr \<open>r = Inr n\<close> r u assms lt expl show ?thesis
        by (auto simp: create_camera_def create_camera_insert_def prog_simps pending_push_same
            intro!: exI [of _ n])
    qed
  qed
qed

definition sample_create_camera :: create_camera_req where
  "sample_create_camera =
     \<lparr>cc_node_id = Some 20, cc_name = ''yard'', cc_rtsp_url = ''rtsp://y'',
      cc_stream_path = Some ''yard'', cc_onvif_url = None, cc_onvif_username = None,
      cc_onvif_password = None, cc_motion_detection = None\<rparr>"

lemma sample_check_runs:
  "create_camera_check w sample_admin sample_create_camera sample_app = (Inr 20, sample_app)"
  by (simp add: create_camera_check_def resolve_node_def check_capacity_def prog_simps
      camera_count_def cameras_of_def max_cameras_per_node_def sample_admin_def
      is_operator_or_above_def sample_create_camera_def sample_node_def sample_camera_def)

lemma sample_create_runs:
  "\<exists>v t. create_camera sample_ext sample_admin sample_create_camera sample_app = (Inr v, t)"
proof -
  have "camera_check sample_db (new_camera sample_ext 20 sample_create_camera) [sample_camera] = None"
    by (simp add: camera_check_def new_camera_def policy_exists_def sample_node_def sample_camera_def
        sample_ext_def)
  then show ?thesis
    by (simp add: create_camera_def andthen_apply sample_check_runs create_camera_insert_def
        sqlq_no_fault insert_into_def)
qed

theorem create_camera_complete_witness:
  "\<exists>v t n. create_camera sample_ext sample_admin sample_create_camera sample_app = (Inr (201, v), t) \<and>
     cameras (db t) = [sample_camera, new_camera sample_ext n sample_create_camera]"
proof -
  obtain v t where c: "create_camera sample_ext sample_admin sample_create_camera sample_app = (Inr v, t)"
    using sample_create_runs by blast
  from create_camera_complete [OF _ c] c show ?thesis by (cases v) auto
qed

text \<open>
  The limit can be exceeded by concurrent requests: the count is read in one statement and
  the camera inserted in a later one. When a node has 63 cameras and two requests both pass the
  check before either inserts, both are answered with 201 and the node has 65 cameras.
\<close>

theorem create_camera_race:
  assumes "faults s = []" and "camera_count n (db s) = 63"
    and "create_camera_check w1 me1 b1 s = (Inr n, s)"
    and "create_camera_check w2 me2 b2 s = (Inr n, s)"
    and "create_camera_insert w1 b1 n s = (Inr v1, s1)"
    and "create_camera_insert w2 b2 n s1 = (Inr v2, s2)"
  shows "camera_count n (db s2) = 65"
proof -
  have step: "faults t' = [] \<and> camera_count n (db t') = camera_count n (db t) + 1"
    if "faults t = []" "create_camera_insert w b n t = (Inr v, t')" for t t' w b v
    using that
    by (auto simp: create_camera_insert_def prog_simps camera_count_insert new_camera_def
        split: sum.splits prod.splits)
  from step [OF assms(1,5)] assms(6) step [of s1 w2 b2 v2 s2] assms(2) show ?thesis by simp
qed

text \<open>A node with 63 cameras, numbered from 100.\<close>

definition sample_full :: app where
  "sample_full = sample_app\<lparr>db := sample_db\<lparr>cameras :=
     map (\<lambda>i. sample_camera\<lparr>cam_id := word_of_nat (100 + i)\<rparr>) [0..<63]\<rparr>\<rparr>"

lemma sample_full_simps [simp]:
  "faults sample_full = []" "nodes (db sample_full) = [sample_node]"
  "policies (db sample_full) = [sample_policy, sample_policy7]"
  by (simp_all add: sample_full_def)

lemma sample_full_count: "camera_count 20 (db sample_full) = 63"
  by (simp add: sample_full_def camera_count_def cameras_of_def filter_map comp_def sample_camera_def)

lemma sample_full_check:
  "create_camera_check w sample_admin sample_create_camera sample_full = (Inr 20, sample_full)"
  by (simp add: create_camera_check_def resolve_node_def check_capacity_def prog_simps
      sample_full_count max_cameras_per_node_def sample_admin_def
      is_operator_or_above_def sample_create_camera_def sample_node_def)

definition sample_ext3 :: ext where
  "sample_ext3 = sample_ext\<lparr>fresh_uuid := 98\<rparr>"

lemma sample_full_ids:
  "cam_id ` set (cameras (db sample_full)) = (\<lambda>i. word_of_nat (100 + i)) ` {0..<63}"
  by (simp add: sample_full_def image_image)

lemma sample_full_fresh:
  assumes "k < 100"
  shows "word_of_nat k \<notin> cam_id ` set (cameras (db sample_full))"
proof
  assume "word_of_nat k \<in> cam_id ` set (cameras (db sample_full))"
  then obtain i where "i < 63" "(word_of_nat k :: uuid) = word_of_nat (100 + i)"
    unfolding sample_full_ids by auto
  then have "take_bit LENGTH(128) k = take_bit LENGTH(128) (100 + i)"
    by (simp only: word_of_nat_eq_iff)
  with \<open>i < 63\<close> assms show False by (simp add: take_bit_eq_mod)
qed

lemma create_insert_runs:
  assumes "faults s = []" and "nodes (db s) = [sample_node]"
    and "fresh_uuid w \<notin> cam_id ` set (cameras (db s))"
  shows "\<exists>v t. create_camera_insert w sample_create_camera 20 s = (Inr v, t) \<and> faults t = [] \<and>
    nodes (db t) = [sample_node] \<and>
    cam_id ` set (cameras (db t)) = insert (fresh_uuid w) (cam_id ` set (cameras (db s)))"
  using assms
  by (auto simp: create_camera_insert_def prog_simps insert_into_def camera_check_def put_defs
      new_camera_def policy_exists_def sample_node_def)

theorem create_camera_race_witness:
  "\<exists>v1 s1 v2 s2. create_camera_insert sample_ext sample_create_camera 20 sample_full = (Inr v1, s1) \<and>
     create_camera_insert sample_ext3 sample_create_camera 20 s1 = (Inr v2, s2) \<and>
     camera_count 20 (db s2) = 65"
proof -
  have f: "fresh_uuid sample_ext = word_of_nat 99" "fresh_uuid sample_ext3 = word_of_nat 98"
    by (simp_all add: sample_ext_def sample_ext3_def)
  obtain v1 s1 where 1: "create_camera_insert sample_ext sample_create_camera 20 sample_full = (Inr v1, s1)"
    and s1: "faults s1 = []" "nodes (db s1) = [sample_node]"
      "cam_id ` set (cameras (db s1)) = insert (word_of_nat 99) (cam_id ` set (cameras (db sample_full)))"
    using create_insert_runs [of sample_full sample_ext] sample_full_fresh [of 99] unfolding f by auto
  have "word_of_nat 98 \<notin> cam_id ` set (cameras (db s1))"
    using sample_full_fresh [of 98] unfolding s1(3) by simp
  then obtain v2 s2 where 2: "create_camera_insert sample_ext3 sample_create_camera 20 s1 = (Inr v2, s2)"
    using create_insert_runs [of s1 sample_ext3] s1 unfolding f by auto
  from create_camera_race [OF _ sample_full_count sample_full_check sample_full_check 1 2] 1 2
  show ?thesis by auto
qed

text \<open>
  Reading a camera misreports its motion settings: \<open>get_camera\<close> and \<open>list_cameras\<close> select
  neither the ONVIF columns nor \<open>motion_detection\<close>, so the answer says that motion detection is
  off and that there is no ONVIF address, whatever is stored; every other field is the stored one.
\<close>

theorem get_camera_hides_motion:
  assumes "faults s = []" and "db_ok (db s)" and "c \<in> set (cameras (db s))"
  shows "\<exists>v. get_camera w (cam_id c) s = (Inr v, s) \<and>
    \<not> cam_motion_detection (view_camera v) \<and> cam_onvif_url (view_camera v) = None \<and>
    view_camera v = c\<lparr>cam_onvif_url := None, cam_onvif_username := None,
                      cam_onvif_password := None, cam_motion_detection := False\<rparr> \<and>
    v \<in> set (the (case fst (list_cameras w (Some (cam_node_id c)) s) of Inr vs \<Rightarrow> Some vs | _ \<Rightarrow> None))"
proof -
  have "find (\<lambda>q. cam_id q = cam_id c) (cameras (db s)) = Some c"
    using assms(2,3) by (simp add: db_ok_def cameras.find_iff)
  with assms show ?thesis
    by (auto simp: get_camera_def list_cameras_def prog_simps camera_view_from_def
        without_onvif_def cameras_of_def)
qed

theorem get_camera_hides_motion_witness:
  "cam_motion_detection sample_camera \<and>
   (\<exists>v. get_camera sample_ext 30 sample_app = (Inr v, sample_app) \<and>
      \<not> cam_motion_detection (view_camera v))"
proof -
  have c: "cam_id sample_camera = 30" "cam_motion_detection sample_camera"
    by (simp_all add: sample_camera_def)
  with get_camera_hides_motion [of sample_app sample_camera sample_ext] show ?thesis by auto
qed

text \<open>
  The reported headroom is what can still be added: for an existing node
  \<open>get_node_capacity\<close> reports a headroom between 0 and 64 that, with the number of cameras,
  makes up 64 as long as the limit is kept, and the headroom is positive exactly when the
  capacity check of \<open>create_camera\<close> lets another camera pass.
\<close>

theorem capacity_reports_headroom:
  assumes "faults s = []" and "is_operator_or_above me" and "n \<in> node_id ` set (nodes (db s))"
  shows "\<exists>c. get_node_capacity me n s = (Inr c, s) \<and>
    0 \<le> nc_headroom c \<and> nc_headroom c \<le> 64 \<and>
    (cap_ok (db s) \<longrightarrow> nc_headroom c + nc_camera_count c = 64) \<and>
    (0 < nc_headroom c \<longleftrightarrow> fst (check_capacity w n s) = Inr ())"
proof -
  have "find (\<lambda>m. node_id m = n) (nodes (db s)) \<noteq> None"
    using assms(3) by (auto simp: find_None_iff)
  with assms show ?thesis
    using camera_count_nonneg [of n "db s"]
    by (auto simp: get_node_capacity_def check_capacity_def prog_simps max_cameras_per_node_def
        cap_ok_def)
qed

theorem capacity_reports_headroom_witness:
  "\<exists>c. get_node_capacity sample_admin 20 sample_app = (Inr c, sample_app) \<and>
     nc_headroom c + nc_camera_count c = 64"
proof -
  have "is_operator_or_above sample_admin" "20 \<in> node_id ` set (nodes (db sample_app))"
    by (simp_all add: sample_admin_def is_operator_or_above_def sample_node_def)
  moreover have "cap_ok sample_db"
    by (simp add: cap_ok_def camera_count_def cameras_of_def max_cameras_per_node_def)
  ultimately show ?thesis using capacity_reports_headroom [of sample_app sample_admin 20] by auto
qed

end
