(* ===== verification/Retention.thy ===== *)
theory Retention
  imports Cameras
begin

text \<open>
  Retention policies (\<open>coordinator/src/routes/retention.rs\<close>) and the hourly enforcer that deletes
  expired recordings (\<open>coordinator/src/retention.rs\<close>).
\<close>

section \<open>Handlers of the policies\<close>

text \<open>\<open>collate\<close> stands for the text order of the database.\<close>

definition list_retention_policies ::
  "(string \<Rightarrow> int) \<Rightarrow> current_user \<Rightarrow> policy list handler" where
  "list_retention_policies collate me =
     andthen (ensure (is_admin me) Forbidden) (\<lambda>_.
     sqlq (query (\<lambda>d. sort_key (\<lambda>p. \<not> pol_is_default p)
       (sort_key (\<lambda>p. collate (pol_name p)) (policies d)))))"

definition create_retention_policy ::
  "ext \<Rightarrow> current_user \<Rightarrow> create_policy \<Rightarrow> (nat \<times> policy) handler" where
  "create_retention_policy w me body =
     andthen (ensure (is_admin me) Forbidden) (\<lambda>_.
     andthen (ensure (\<not> sint (cp_keep_days body) \<le> 0) (BadRequest ''keep_days must be > 0'')) (\<lambda>_.
     let is_default = (case cp_is_default body of None \<Rightarrow> False | Some b \<Rightarrow> b) in
     andthen (in_tx (
       andthen (if is_default then sqlq (clear_default_where (\<lambda>_. True)) else ret ()) (\<lambda>_.
       sqlq (insert_policy
         \<lparr>pol_id = fresh_uuid w, pol_name = cp_name body, pol_keep_days = cp_keep_days body,
          pol_is_default = is_default, pol_created_at = db_now w\<rparr>)))) (\<lambda>row.
     ret (201, row))))"

definition get_retention_policy :: "current_user \<Rightarrow> uuid \<Rightarrow> policy handler" where
  "get_retention_policy me i =
     andthen (ensure (is_admin me) Forbidden) (\<lambda>_.
     andthen (sqlq (query (\<lambda>d. find (\<lambda>p. pol_id p = i) (policies d)))) (\<lambda>row.
     ok_or NotFound row))"

definition set_policy :: "update_policy \<Rightarrow> policy \<Rightarrow> policy" where
  "set_policy body p = p
     \<lparr>pol_name := coalesce (up_name body) (pol_name p),
      pol_keep_days := coalesce (up_keep_days body) (pol_keep_days p),
      pol_is_default := coalesce (up_is_default body) (pol_is_default p)\<rparr>"

definition update_retention_policy ::
  "current_user \<Rightarrow> uuid \<Rightarrow> update_policy \<Rightarrow> policy handler" where
  "update_retention_policy me i body =
     andthen (ensure (is_admin me) Forbidden) (\<lambda>_.
     andthen (ensure (case up_keep_days body of None \<Rightarrow> True | Some d \<Rightarrow> \<not> sint d \<le> 0)
       (BadRequest ''keep_days must be > 0'')) (\<lambda>_.
     in_tx (
       andthen (if up_is_default body = Some True
                then sqlq (clear_default_where (\<lambda>p. pol_id p \<noteq> i)) else ret ()) (\<lambda>_.
       andthen (sqlq (update_policy_row i (set_policy body))) (\<lambda>row.
       ok_or NotFound row)))))"

definition delete_retention_policy :: "current_user \<Rightarrow> uuid \<Rightarrow> nat handler" where
  "delete_retention_policy me i =
     andthen (ensure (is_admin me) Forbidden) (\<lambda>_.
     andthen (sqlq (delete_policy_row i)) (\<lambda>row.
     andthen (ensure (row \<noteq> None) NotFound) (\<lambda>_.
     ret 204)))"

section \<open>The enforcer\<close>

text \<open>
  \<open>NOW() - (days || ' days')::INTERVAL\<close> is an error when it falls before the first timestamp of
  PostgreSQL, in 4713 BC; the session's time zone is UTC.
\<close>

definition pg_min_timestamp :: time where
  "pg_min_timestamp = - 210866803200000000"

definition minus_days :: "time \<Rightarrow> i32 \<Rightarrow> time option" where
  "minus_days t n = (let r = t - days (sint n) in if r < pg_min_timestamp then None else Some r)"

text \<open>\<open>COALESCE(rp.keep_days, def.keep_days)\<close>: the recording's policy, else the default one.\<close>

definition default_policy :: "database \<Rightarrow> policy option" where
  "default_policy d = find pol_is_default (policies d)"

definition keep_days_of :: "database \<Rightarrow> recording \<Rightarrow> i32 option" where
  "keep_days_of d r =
     (case (case rec_policy_id r of
              None \<Rightarrow> None
            | Some i \<Rightarrow> find (\<lambda>p. pol_id p = i) (policies d)) of
        Some p \<Rightarrow> Some (pol_keep_days p)
      | None \<Rightarrow> map_option pol_keep_days (default_policy d))"

definition expired :: "time \<Rightarrow> database \<Rightarrow> recording \<Rightarrow> bool" where
  "expired t d r \<longleftrightarrow>
     (case keep_days_of d r of
        None \<Rightarrow> False
      | Some n \<Rightarrow> (case minus_days t n of None \<Rightarrow> False | Some limit \<Rightarrow> rec_started_at r < limit))"

definition out_of_range :: "time \<Rightarrow> database \<Rightarrow> recording \<Rightarrow> bool" where
  "out_of_range t d r \<longleftrightarrow>
     (case keep_days_of d r of None \<Rightarrow> False | Some n \<Rightarrow> minus_days t n = None)"

definition query_expired :: "time \<Rightarrow> recording list stmt" where
  "query_expired t d =
     (if list_ex (out_of_range t d) (recordings d) then Inl Datetime_overflow
      else Inr (take 500 (sort_key rec_started_at (filter (expired t d) (recordings d))), d))"

definition delete_message :: "recording \<Rightarrow> ws_message" where
  "delete_message r = DeleteRecording 0 (rec_id r) (rec_started_at r) (rec_storage_uri r)"

fun delete_and_notify :: "recording list \<Rightarrow> unit handler" where
  "delete_and_notify [] = ret ()"
| "delete_and_notify (r # rs) =
     andthen (attempt (sql (delete_recording (rec_key r)))) (\<lambda>_.
     andthen (modify (push_to_node (rec_node_id r) (delete_message r))) (\<lambda>_.
     delete_and_notify rs))"

definition enforcer_pass :: "ext \<Rightarrow> unit handler" where
  "enforcer_pass w =
     andthen (attempt (sql (query_expired (db_now w)))) (\<lambda>r.
     delete_and_notify (unwrap_or [] r))"

text \<open>\<open>run_enforcer\<close>: one pass per tick of the hourly timer.\<close>

fun run_enforcer :: "ext list \<Rightarrow> unit handler" where
  "run_enforcer [] = ret ()"
| "run_enforcer (w # ws) = andthen (enforcer_pass w) (\<lambda>_. run_enforcer ws)"

text \<open>\<open>run_single_pass\<close>: the same deletions without the notifications.\<close>

fun delete_each :: "recording list \<Rightarrow> unit handler" where
  "delete_each [] = ret ()"
| "delete_each (r # rs) =
     andthen (attempt (sql (delete_recording (rec_key r)))) (\<lambda>_. delete_each rs)"

definition run_single_pass :: "ext \<Rightarrow> unit handler" where
  "run_single_pass w =
     andthen (attempt (sql (query_expired (db_now w)))) (\<lambda>r. delete_each (unwrap_or [] r))"

section \<open>Invariants\<close>

lemma set_policy_id [simp]: "pol_id (set_policy b p) = pol_id p"
  by (simp add: set_policy_def)

context reader
begin

lemma keeps_query_expired [keeps_rules]: "app_keeps J (query_expired t)"
  by (rule keeps_unchanged) (auto simp: query_expired_def split: if_splits)

lemma keeps_list_policies: "keeps J (list_retention_policies c me)"
  unfolding list_retention_policies_def by (intro keeps_rules)

lemma keeps_get_policy: "keeps J (get_retention_policy me i)"
  unfolding get_retention_policy_def by (intro keeps_rules)

end

context writer
begin

lemma keeps_create_policy: "keeps J (create_retention_policy w me b)"
  unfolding create_retention_policy_def Let_def by (intro keeps_rules)

lemma keeps_update_policy: "keeps J (update_retention_policy me i b)"
  unfolding update_retention_policy_def by (intro keeps_rules) simp

lemma keeps_delete_policy: "keeps J (delete_retention_policy me i)"
  unfolding delete_retention_policy_def by (intro keeps_rules)

lemma keeps_delete_and_notify [keeps_rules]: "keeps J (delete_and_notify rs)"
  by (induction rs) (auto intro!: keeps_rules)

lemma keeps_enforcer_pass [keeps_rules]: "keeps J (enforcer_pass w)"
  unfolding enforcer_pass_def by (intro keeps_rules)

lemma keeps_run_enforcer: "keeps J (run_enforcer ws)"
  by (induction ws) (auto intro!: keeps_rules)

lemma keeps_run_single_pass: "keeps J (run_single_pass w)"
proof -
  have "keeps J (delete_each rs)" for rs
    by (induction rs) (auto intro!: keeps_rules)
  then show ?thesis unfolding run_single_pass_def by (intro keeps_rules)
qed

end

section \<open>Policies\<close>

lemma default_unique:
  assumes "db_ok d" "p \<in> set (policies d)" "q \<in> set (policies d)"
    "pol_is_default p \<and> pol_is_default q \<or> pol_id p = pol_id q"
  shows "p = q"
proof -
  have "distinct (map pol_id ps) \<and> length (filter pol_is_default ps) \<le> 1"
    if "sound_rows P policy_clash ps" for ps P
    using that by (induction ps)
      (auto simp: sound_rows_def policy_clash_def filter_empty_conv)
  with assms(1) have d: "distinct (map pol_id (policies d))"
    and l: "length (filter pol_is_default (policies d)) \<le> 1" by (auto simp: db_ok_def)
  have "p = q" if "pol_is_default p" "pol_is_default q"
  proof -
    have "p \<in> set (filter pol_is_default (policies d))" "q \<in> set (filter pol_is_default (policies d))"
      using assms(2,3) that by auto
    with l show ?thesis by (cases "filter pol_is_default (policies d)") auto
  qed
  with d assms(2-4) show ?thesis by (auto simp: distinct_map inj_on_def)
qed

lemma default_single:
  assumes "db_ok d" "p \<in> set (policies d)" "pol_is_default p"
  shows "filter pol_is_default (policies d) = [p]"
proof (rule distinct_single)
  have "distinct (policies d)"
    using assms(1) policies.sound_distinct [of d "policies d"] by (auto simp: db_ok_def distinct_map)
  then show "distinct (filter pol_is_default (policies d))" by simp
  show "set (filter pol_is_default (policies d)) = {p}"
    using assms default_unique [OF assms(1)] by auto
qed

lemma keep_days_pos: "db_ok d \<Longrightarrow> p \<in> set (policies d) \<Longrightarrow> 0 < sint (pol_keep_days p)"
  by (auto simp: db_ok_def sound_rows_def list_all_iff policy_ok_def)

lemma in_tx_Inr:
  assumes "in_tx body s = (Inr x, t)"
  shows "\<exists>s1 s2. db s1 = db s \<and> body s1 = (Inr x, s2) \<and> db t = db s2"
proof -
  obtain r1 s1 where 1: "sqlq (query (\<lambda>_. ())) s = (r1, s1)" by fastforce
  obtain r2 s2 where 2: "body s1 = (r2, s2)" by fastforce
  obtain r3 s3 where 3: "sqlq (query (\<lambda>_. ())) s2 = (r3, s3)" by fastforce
  have d: "db s1 = db s" "db s3 = db s2"
    using sqlq_query_db [of "\<lambda>_. ()" s] 1 sqlq_query_db [of "\<lambda>_. ()" s2] 3 by simp_all
  have "r2 = Inr x \<and> t = s3"
    using assms by (cases r1; cases r2; cases r3) (simp_all add: in_tx_def andthen_apply 1 2 3)
  with d 2 show ?thesis by blast
qed

lemma create_policy_Inr:
  assumes "create_retention_policy w me b s = (Inr (code, p), t)"
  shows "code = 201 \<and> p \<in> set (policies (db t)) \<and>
    (cp_is_default b = Some True \<longrightarrow> pol_is_default p)"
proof -
  from assms obtain u where
    "in_tx (andthen (if (case cp_is_default b of None \<Rightarrow> False | Some x \<Rightarrow> x)
                     then sqlq (clear_default_where (\<lambda>_. True)) else ret ()) (\<lambda>_.
       sqlq (insert_policy
         \<lparr>pol_id = fresh_uuid w, pol_name = cp_name b, pol_keep_days = cp_keep_days b,
          pol_is_default = (case cp_is_default b of None \<Rightarrow> False | Some x \<Rightarrow> x),
          pol_created_at = db_now w\<rparr>))) s = (Inr p, u)" and c: "code = 201" "t = u"
    by (auto simp: create_retention_policy_def Let_def andthen_Inr ensure_Inr)
  from in_tx_Inr [OF this(1)] c show ?thesis
    by (auto simp: andthen_Inr put_defs policies.insert_Inr dest!: sqlq_Inr)
qed

lemma create_policy_Inl: "create_retention_policy w me b s = (Inl e, t) \<Longrightarrow> db t = db s"
  by (auto simp: create_retention_policy_def Let_def andthen_apply ensure_apply dest: in_tx_rollback
      split: if_splits sum.splits prod.splits)

lemma update_policy_Inl: "update_retention_policy me i b s = (Inl e, t) \<Longrightarrow> db t = db s"
  by (auto simp: update_retention_policy_def andthen_apply ensure_apply dest: in_tx_rollback
      split: if_splits)

lemma update_policy_Inr:
  assumes "update_retention_policy me i b s = (Inr p, t)"
  shows "pol_id p = i \<and> p \<in> set (policies (db t)) \<and>
    (up_is_default b = Some True \<longrightarrow> pol_is_default p)"
proof -
  from assms have
    "in_tx (andthen (if up_is_default b = Some True
                then sqlq (clear_default_where (\<lambda>p. pol_id p \<noteq> i)) else ret ()) (\<lambda>_.
       andthen (sqlq (update_policy_row i (set_policy b))) (\<lambda>row. ok_or NotFound row))) s = (Inr p, t)"
    by (simp add: update_retention_policy_def andthen_Inr ensure_Inr)
  from in_tx_Inr [OF this] obtain s1 s2 where
    "andthen (sqlq (update_policy_row i (set_policy b))) (\<lambda>row. ok_or NotFound row) s1 = (Inr p, s2)"
    "db t = db s2"
    unfolding andthen_Inr [of "if up_is_default b = Some True then _ else _"] by blast
  then obtain d e where u: "update_policy_row i (set_policy b) d = Inr (Some p, e)" "db t = e"
    by (auto simp: andthen_Inr ok_or_Inr dest!: sqlq_Inr)
  then obtain r where r: "find (\<lambda>q. pol_id q = i) (policies d) = Some r" "p = set_policy b r"
    "policies e = update_where (\<lambda>q. pol_id q = i) (set_policy b) (policies d)"
    by (auto simp: policies.update_Some put_defs)
  from find_key_Some [OF r(1)] r u show ?thesis
    by (auto simp: set_update_where set_policy_def)
qed

text \<open>
  C29. Policies change atomically and there is never more than one default: whatever round trips
  to the database are lost, \<open>create_retention_policy\<close> and \<open>update_retention_policy\<close> either
  answer an error and leave the database exactly as it was, although they may already have
  cleared the old default, or they succeed, and then the policy is stored with a positive number
  of days and, if the request asked for it, is the one and only default.
\<close>

theorem policy_change_atomic:
  assumes "db_ok (db s)"
  shows "(case create_retention_policy w me cb s of
      (Inl e, t) \<Rightarrow> db t = db s
    | (Inr (code, p), t) \<Rightarrow> code = 201 \<and> p \<in> set (policies (db t)) \<and> 0 < sint (pol_keep_days p) \<and>
        (cp_is_default cb = Some True \<longrightarrow> filter pol_is_default (policies (db t)) = [p])) \<and>
    (case update_retention_policy me i ub s of
      (Inl e, t) \<Rightarrow> db t = db s
    | (Inr p, t) \<Rightarrow> pol_id p = i \<and> p \<in> set (policies (db t)) \<and> 0 < sint (pol_keep_days p) \<and>
        (up_is_default ub = Some True \<longrightarrow> filter pol_is_default (policies (db t)) = [p]))"
proof -
  obtain r t where c: "create_retention_policy w me cb s = (r, t)" by fastforce
  obtain q u where d: "update_retention_policy me i ub s = (q, u)" by fastforce
  have ok: "db_ok (db t)" "db_ok (db u)"
    using keepsD [OF sound.keeps_create_policy, OF assms, of w me cb] c
      keepsD [OF sound.keeps_update_policy, OF assms, of me i ub] d by simp_all
  show ?thesis
    using c d create_policy_Inr [of w me cb s _ _ t] update_policy_Inr [of me i ub s _ u]
      create_policy_Inl [of w me cb s _ t] update_policy_Inl [of me i ub s _ u]
      keep_days_pos ok default_single
    by (cases r; cases q) auto
qed

definition sample_create_policy :: create_policy where
  "sample_create_policy = \<lparr>cp_name = ''60_days'', cp_keep_days = 60, cp_is_default = Some True\<rparr>"

lemma sample_create_policy_runs:
  "\<exists>v t. create_retention_policy sample_ext sample_admin sample_create_policy sample_app = (Inr v, t)"
proof -
  let ?p = "\<lparr>pol_id = fresh_uuid sample_ext, pol_name = ''60_days'', pol_keep_days = 60,
    pol_is_default = True, pol_created_at = db_now sample_ext\<rparr>"
  have "is_admin sample_admin" by (simp add: sample_admin_def is_admin_def)
  moreover have "policy_check d ?p
      (update_where pol_is_default (\<lambda>p. p\<lparr>pol_is_default := False\<rparr>) [sample_policy, sample_policy7]) = None" for d
    by (simp add: policy_check_def update_where_def sample_policy_def sample_policy7_def sample_ext_def)
  ultimately show ?thesis
    by (simp add: create_retention_policy_def sample_create_policy_def in_tx_def prog_simps
        clear_default_where_def insert_into_def)
qed

theorem policy_change_atomic_witness:
  "\<exists>p t. create_retention_policy sample_ext sample_admin sample_create_policy sample_app =
       (Inr (201, p), t) \<and> filter pol_is_default (policies (db t)) = [p]"
proof -
  obtain v t where "create_retention_policy sample_ext sample_admin sample_create_policy sample_app = (Inr v, t)"
    using sample_create_policy_runs by blast
  with policy_change_atomic [where s = sample_app and w = sample_ext and me = sample_admin and
      cb = sample_create_policy]
  show ?thesis by (cases v) (auto simp: sample_create_policy_def)
qed

text \<open>
  A policy in use is protected: \<open>delete_retention_policy\<close> by an administrator answers 204
  and removes exactly the policy when no camera and no recording refers to it, 404 when there is
  no such policy, and 500 when it is in use; in the last two cases nothing changes.
\<close>

theorem delete_policy_protected:
  assumes "faults s = []" and "is_admin me" and "delete_retention_policy me i s = (res, t)"
  shows "if i \<notin> pol_id ` set (policies (db s))
         then res = Inl NotFound \<and> db t = db s
         else if policy_in_use i (db s)
         then (\<exists>e. res = Inl e \<and> fst (into_response e) = 500) \<and> db t = db s
         else res = Inr 204 \<and>
           db t = (db s)\<lparr>policies := delete_where (\<lambda>p. pol_id p = i) (policies (db s))\<rparr>"
proof (cases "find (\<lambda>p. pol_id p = i) (policies (db s))")
  case None
  then have "i \<notin> pol_id ` set (policies (db s))" by (simp add: find_None_key)
  moreover from this have "delete_where (\<lambda>p. pol_id p = i) (policies (db s)) = policies (db s)"
    by (auto intro!: delete_where_none)
  ultimately show ?thesis
    using assms None
    by (auto simp: delete_retention_policy_def prog_simps delete_policy_row_def delete_pk_def put_defs)
next
  case (Some p)
  with find_key_Some [OF this] have "i \<in> pol_id ` set (policies (db s))" by auto
  with assms Some show ?thesis
    by (auto simp: delete_retention_policy_def prog_simps delete_policy_row_def delete_pk_def put_defs)
qed

theorem delete_policy_protected_witness:
  "fst (delete_retention_policy sample_admin 40 sample_app) = Inl (Sqlx Foreign_key_violation) \<and>
   fst (delete_retention_policy sample_admin 41 sample_app) = Inr 204"
proof -
  obtain r t q u where d: "delete_retention_policy sample_admin 40 sample_app = (r, t)"
      "delete_retention_policy sample_admin 41 sample_app = (q, u)" by fastforce
  have a: "is_admin sample_admin" by (simp add: sample_admin_def is_admin_def)
  have u: "policy_in_use 40 sample_db" "\<not> policy_in_use 41 sample_db"
    "40 \<in> pol_id ` set (policies sample_db)" "41 \<in> pol_id ` set (policies sample_db)"
    by (simp_all add: policy_in_use_def sample_recording_def sample_camera_def sample_policy_def
        sample_policy7_def)
  have "r = Inl (Sqlx Foreign_key_violation)"
    using d(1) u a by (simp add: delete_retention_policy_def prog_simps delete_policy_row_def)
  moreover have "q = Inr 204"
    using delete_policy_protected [OF _ a d(2)] u by simp
  ultimately show ?thesis using d by simp
qed

section \<open>One pass of the enforcer\<close>

definition expired_batch :: "time \<Rightarrow> database \<Rightarrow> recording list" where
  "expired_batch t d = take 500 (sort_key rec_started_at (filter (expired t d) (recordings d)))"

lemma expired_batch_in: "r \<in> set (expired_batch t d) \<Longrightarrow> r \<in> set (recordings d) \<and> expired t d r"
  by (auto simp: expired_batch_def dest!: in_set_takeD)

lemma expired_batch_rest:
  assumes "r \<in> set (recordings d)" "expired t d r" "r \<notin> set (expired_batch t d)"
  shows "length (expired_batch t d) = 500 \<and>
    (\<forall>b \<in> set (expired_batch t d). rec_started_at b \<le> rec_started_at r)"
  using assms take_sorted_rest [of r "filter (expired t d) (recordings d)" 500 rec_started_at]
  by (simp add: expired_batch_def)

lemma delete_and_notify_db:
  "faults s = [] \<Longrightarrow> delete_and_notify rs s = (res, t) \<Longrightarrow>
   res = Inr () \<and> faults t = [] \<and>
   db t = (db s)\<lparr>recordings := delete_where (\<lambda>r. rec_key r \<in> rec_key ` set rs) (recordings (db s))\<rparr>"
proof (induction rs arbitrary: s)
  case Nil
  then show ?case by (auto simp: delete_where_def)
next
  case (Cons r rs)
  let ?s = "push_to_node (rec_node_id r) (delete_message r)
    (s\<lparr>db := put_recordings (delete_where (\<lambda>q. rec_key q = rec_key r) (recordings (db s))) (db s)\<rparr>)"
  have "delete_and_notify rs ?s = (res, t)"
    using Cons.prems by (simp add: andthen_apply sql_no_fault delete_pk_def)
  moreover have "faults ?s = []" using Cons.prems by simp
  ultimately show ?case
    using Cons.IH [of ?s] by (auto simp: put_defs delete_where_def intro!: filter_cong)
qed

text \<open>The messages are sent whatever becomes of the statements.\<close>

lemma delete_and_notify_pending:
  "channels_apart s \<Longrightarrow> online n s \<Longrightarrow> delete_and_notify rs s = (res, t) \<Longrightarrow>
   pending_for n t = pending_for n s @ map delete_message (filter (\<lambda>r. rec_node_id r = n) rs)"
proof (induction rs arbitrary: s)
  case Nil
  then show ?case by simp
next
  case (Cons r rs)
  obtain q u where q: "sql (delete_recording (rec_key r)) s = (q, u)" by fastforce
  then have u: "\<exists>f d. u = s\<lparr>faults := f, db := d\<rparr>"
    by (auto simp: sql_def delete_pk_def split: if_splits) (metis app.surjective app.update_convs(1,2))
  let ?s = "push_to_node (rec_node_id r) (delete_message r) u"
  have "delete_and_notify rs ?s = (res, t)"
    using Cons.prems q by (simp add: andthen_apply)
  moreover have "channels_apart u" "online n u" "pending_for n u = pending_for n s"
    using Cons.prems u by (auto simp: channels_apart_def)
  moreover have "channels_apart ?s" using \<open>channels_apart u\<close> by (simp add: channels_apart_def)
  moreover have "online n ?s" using \<open>online n u\<close>
    by (auto simp: online_def push_to_node_def send_def split: option.splits)
  moreover have "pending_for n ?s = pending_for n u @ (if rec_node_id r = n then [delete_message r] else [])"
    using \<open>channels_apart u\<close> \<open>online n u\<close>
    by (simp add: pending_push_same pending_push_other)
  ultimately show ?case using Cons.IH [of ?s] by auto
qed

lemma enforcer_pass_runs:
  assumes "faults s = []" "\<not> list_ex (out_of_range (db_now w) (db s)) (recordings (db s))"
  shows "enforcer_pass w s = delete_and_notify (expired_batch (db_now w) (db s)) s"
  using assms by (simp add: enforcer_pass_def andthen_apply sql_no_fault query_expired_def
      expired_batch_def)

text \<open>
  C30. The enforcer deletes what has expired and nothing else: one pass deletes exactly the
  oldest expired recordings, at most 500 of them, and touches no other row; whatever expired
  recording is left is not older than the ones deleted and is left only because 500 were
  deleted. The owner of every deleted recording that is connected is sent one
  \<open>DeleteRecording\<close> for it, in the order of deletion, and nothing else.
\<close>

theorem enforcer_pass_exact:
  assumes "faults s = []" and "db_ok (db s)" and "channels_apart s"
    and "\<not> list_ex (out_of_range (db_now w) (db s)) (recordings (db s))"
    and "enforcer_pass w s = (res, t)"
  shows "\<exists>gone. (\<forall>r \<in> set gone. r \<in> set (recordings (db s)) \<and> expired (db_now w) (db s) r) \<and>
    length gone \<le> 500 \<and>
    db t = (db s)\<lparr>recordings := delete_where (\<lambda>r. r \<in> set gone) (recordings (db s))\<rparr> \<and>
    (\<forall>r \<in> set (recordings (db t)). expired (db_now w) (db s) r \<longrightarrow>
       length gone = 500 \<and> (\<forall>b \<in> set gone. rec_started_at b \<le> rec_started_at r)) \<and>
    (\<forall>n. online n s \<longrightarrow> pending_for n t =
       pending_for n s @ map delete_message (filter (\<lambda>r. rec_node_id r = n) gone))"
proof -
  let ?B = "expired_batch (db_now w) (db s)"
  have run: "delete_and_notify ?B s = (res, t)" using assms(4,5) enforcer_pass_runs [OF assms(1)] by simp
  have keys: "distinct (map rec_key (recordings (db s)))"
    using assms(2) recordings.sound_distinct [of "db s" "recordings (db s)"] by (auto simp: db_ok_def)
  have "rec_key r \<in> rec_key ` set ?B \<longleftrightarrow> r \<in> set ?B" if "r \<in> set (recordings (db s))" for r
    using that keys expired_batch_in [of _ "db_now w" "db s"] by (auto simp: distinct_map inj_on_def)
  then have t: "db t = (db s)\<lparr>recordings := delete_where (\<lambda>r. r \<in> set ?B) (recordings (db s))\<rparr>"
    using delete_and_notify_db [OF assms(1) run] by (simp add: delete_where_def cong: filter_cong)
  have rest: "\<forall>r \<in> set (recordings (db t)). expired (db_now w) (db s) r \<longrightarrow>
      length ?B = 500 \<and> (\<forall>b \<in> set ?B. rec_started_at b \<le> rec_started_at r)"
    using t expired_batch_rest [of _ "db s" "db_now w"] by auto
  have len: "length ?B \<le> 500" by (simp add: expired_batch_def)
  have sub: "\<forall>r \<in> set ?B. r \<in> set (recordings (db s)) \<and> expired (db_now w) (db s) r"
    using expired_batch_in by blast
  have pend: "\<forall>n. online n s \<longrightarrow> pending_for n t =
      pending_for n s @ map delete_message (filter (\<lambda>r. rec_node_id r = n) ?B)"
    using delete_and_notify_pending [OF assms(3) _ run] by blast
  from sub len t rest pend show ?thesis by (intro exI [of _ ?B] conjI)
qed

definition sample_late :: ext where
  "sample_late = sample_ext\<lparr>db_now := days 31\<rparr>"

lemma sample_late_expired:
  "expired (db_now sample_late) sample_db sample_recording"
  "\<not> out_of_range (db_now sample_late) sample_db sample_recording"
  by (simp_all add: expired_def out_of_range_def keep_days_of_def sample_recording_def sample_policy_def
      minus_days_def pg_min_timestamp_def sample_late_def days_def seconds_def)

theorem enforcer_pass_exact_witness:
  "\<exists>t. enforcer_pass sample_late sample_app = (Inr (), t) \<and> recordings (db t) = []"
proof -
  obtain res t where e: "enforcer_pass sample_late sample_app = (res, t)" by fastforce
  have "channels_apart sample_app" by (simp add: channels_apart_def)
  with enforcer_pass_exact [OF _ _ _ _ e] sample_late_expired(2)
  obtain gone where g: "recordings (db t) = delete_where (\<lambda>r. r \<in> set gone) [sample_recording]"
    "\<forall>r \<in> set (recordings (db t)). expired (db_now sample_late) sample_db r \<longrightarrow> length gone = 500"
    "\<forall>r \<in> set gone. r = sample_recording" by auto
  have "recordings (db t) = []"
    using g sample_late_expired(1) by (cases gone) (auto simp: delete_where_def split: if_splits)
  moreover have "res = Inr ()" using e sample_late_expired(2)
    by (auto simp: enforcer_pass_runs dest: delete_and_notify_db [rotated])
  ultimately show ?thesis using e by simp
qed

text \<open>
  A file can be deleted while its recording stays: the messages of a pass do not depend on
  its \<open>DELETE\<close> statements. When the connection to the database is lost after the expired
  recordings were read, the database does not change and every connected node is still told to
  delete its files.
\<close>

theorem enforcer_ignores_failed_delete:
  assumes "faults s = False # replicate (length (expired_batch (db_now w) (db s))) True"
    and "channels_apart s"
    and "\<not> list_ex (out_of_range (db_now w) (db s)) (recordings (db s))"
    and "enforcer_pass w s = (res, t)"
  shows "db t = db s \<and>
    (\<forall>n. online n s \<longrightarrow> pending_for n t =
       pending_for n s @ map delete_message
         (filter (\<lambda>r. rec_node_id r = n) (expired_batch (db_now w) (db s))))"
proof -
  let ?B = "expired_batch (db_now w) (db s)"
  let ?s = "s\<lparr>faults := replicate (length ?B) True\<rparr>"
  have run: "delete_and_notify ?B ?s = (res, t)"
    using assms(1,3,4) by (simp add: enforcer_pass_def andthen_apply sql_def query_expired_def
        expired_batch_def)
  have "db (snd (delete_and_notify rs u)) = db u"
    if "faults u = replicate (length rs) True" for rs u
    using that by (induction rs arbitrary: u) (auto simp: andthen_apply sql_def)
  from this [of ?s ?B] run have "db t = db s" by simp
  moreover have "channels_apart ?s" using assms(2) by (simp add: channels_apart_def)
  ultimately show ?thesis
    using delete_and_notify_pending [OF _ _ run] by auto
qed

theorem enforcer_ignores_failed_delete_witness:
  "\<exists>t. enforcer_pass sample_late (sample_app\<lparr>faults := [False, True]\<rparr>) = (Inr (), t) \<and>
     recordings (db t) = [sample_recording] \<and> pending_for 20 t = [delete_message sample_recording]"
proof -
  let ?s = "sample_app\<lparr>faults := [False, True]\<rparr>"
  obtain res t where e: "enforcer_pass sample_late ?s = (res, t)" by fastforce
  have b: "expired_batch (db_now sample_late) (db ?s) = [sample_recording]"
    using sample_late_expired by (simp add: expired_batch_def)
  have o: "online 20 ?s" "channels_apart ?s" "pending_for 20 ?s = []" "rec_node_id sample_recording = 20"
    by (simp_all add: online_def channels_apart_def pending_for_def sample_recording_def)
  have r: "res = Inr ()" using e b sample_late_expired
    by (auto simp: enforcer_pass_def andthen_apply sql_def query_expired_def expired_batch_def)
  have "faults ?s = False # replicate (length (expired_batch (db_now sample_late) (db ?s))) True"
    using b by simp
  moreover have "\<not> list_ex (out_of_range (db_now sample_late) (db ?s)) (recordings (db ?s))"
    using sample_late_expired(2) by simp
  ultimately have "db t = db ?s" "pending_for 20 t = [delete_message sample_recording]"
    using enforcer_ignores_failed_delete [OF _ o(2) _ e] o b by auto
  with e r show ?thesis by simp
qed

text \<open>
  C31. One far-reaching policy stops retention for all: \<open>keep_days\<close> is only checked to be positive.
  Once a recording has a policy of three million days or more, the query of the enforcer fails
  on the subtraction of the interval, its error is read as an empty result, and no pass, however
  many follow, deletes any recording or sends any message, whatever the other policies say
  (for the clocks of the next centuries).
\<close>

theorem long_policy_stops_retention:
  assumes "db_ok (db s)" and "p \<in> set (policies (db s))" and "3000000 \<le> sint (pol_keep_days p)"
    and "r \<in> set (recordings (db s))" and "rec_policy_id r = Some (pol_id p)"
    and "\<forall>w \<in> set ws. db_now w < seconds 48000000000"
  shows "\<exists>t. run_enforcer ws s = (Inr (), t) \<and> db t = db s \<and> node_chans t = node_chans s"
  using assms
proof (induction ws arbitrary: s)
  case Nil
  then show ?case by simp
next
  case (Cons w ws)
  have look: "find (\<lambda>q. pol_id q = pol_id p) (policies (db s)) = Some p"
    using Cons.prems(1,2) by (simp add: db_ok_def policies.find_iff)
  have "days 3000000 \<le> days (sint (pol_keep_days p))"
    using Cons.prems(3) by (simp only: days_mono)
  then have "minus_days (db_now w) (pol_keep_days p) = None"
    using Cons.prems(6) by (auto simp: minus_days_def pg_min_timestamp_def days_def seconds_def)
  then have "out_of_range (db_now w) (db s) r"
    using Cons.prems(5) look by (simp add: out_of_range_def keep_days_of_def)
  then have "list_ex (out_of_range (db_now w) (db s)) (recordings (db s))"
    using Cons.prems(4) by (auto simp: list_ex_iff)
  then have "enforcer_pass w s = (Inr (), s\<lparr>faults := tl (faults s)\<rparr>)"
    by (simp add: enforcer_pass_def andthen_apply sql_def query_expired_def)
  with Cons.IH [of "s\<lparr>faults := tl (faults s)\<rparr>"] Cons.prems show ?case
    by (simp add: andthen_apply)
qed

definition sample_long :: update_policy where
  "sample_long = \<lparr>up_name = None, up_keep_days = Some 3000000, up_is_default = None\<rparr>"

lemma sample_long_runs:
  "update_retention_policy sample_admin 40 sample_long sample_app =
     (Inr (sample_policy\<lparr>pol_keep_days := 3000000\<rparr>),
      sample_app\<lparr>db := sample_db\<lparr>policies := [sample_policy\<lparr>pol_keep_days := 3000000\<rparr>, sample_policy7]\<rparr>\<rparr>)"
proof -
  have "is_admin sample_admin" by (simp add: sample_admin_def is_admin_def)
  moreover have "update_policy_row 40 (set_policy sample_long) sample_db =
      Inr (Some (sample_policy\<lparr>pol_keep_days := 3000000\<rparr>),
        sample_db\<lparr>policies := [sample_policy\<lparr>pol_keep_days := 3000000\<rparr>, sample_policy7]\<rparr>)"
    by (simp add: update_pk_def policy_check_def delete_where_def update_where_def put_defs
        set_policy_def sample_long_def sample_policy_def sample_policy7_def)
  ultimately show ?thesis
    by (simp add: update_retention_policy_def in_tx_def prog_simps) (simp add: sample_long_def prog_simps)
qed

theorem long_policy_stops_retention_witness:
  "\<exists>p t u. update_retention_policy sample_admin 40 sample_long sample_app = (Inr p, t) \<and>
     run_enforcer [sample_late] t = (Inr (), u) \<and> recordings (db u) = [sample_recording]"
proof -
  let ?t = "sample_app\<lparr>db := sample_db\<lparr>policies := [sample_policy\<lparr>pol_keep_days := 3000000\<rparr>, sample_policy7]\<rparr>\<rparr>"
  have ok: "db_ok (db ?t)"
    using keepsD [OF sound.keeps_update_policy, of sample_app sample_admin 40 sample_long]
      sample_long_runs by simp
  have "\<exists>u. run_enforcer [sample_late] ?t = (Inr (), u) \<and> db u = db ?t \<and> node_chans u = node_chans ?t"
    by (rule long_policy_stops_retention [OF ok, of "sample_policy\<lparr>pol_keep_days := 3000000\<rparr>" sample_recording])
      (simp_all add: sample_recording_def sample_policy_def sample_late_def days_def seconds_def)
  with sample_long_runs show ?thesis by fastforce
qed

end
