(* ===== verification/NodeSocket.thy ===== *)
theory NodeSocket
  imports Retention
begin

text \<open>
  The WebSocket of a recording node, seen from the coordinator
  (\<open>coordinator/src/routes/node_ws.rs\<close>): authentication by API key, the phases of
  \<open>handle_socket\<close>, and the handling of the messages a node sends.
\<close>

section \<open>Upgrade\<close>

definition authenticate :: "ext \<Rightarrow> headers \<Rightarrow> uuid handler" where
  "authenticate w hs =
     andthen (ok_or Unauthorized (header_str hs ''x-api-key'')) (\<lambda>api_key.
     let key_hash = hash_token w api_key in
     andthen (sqlq (query (\<lambda>d. find (\<lambda>n. node_api_key_hash n = key_hash) (nodes d)))) (\<lambda>row.
     andthen (ok_or Unauthorized row) (\<lambda>n.
     if node_status n = Rejected then throw Forbidden
     else ret (node_id n))))"

text \<open>The address of the node: the first entry of \<open>X-Forwarded-For\<close>, else the TCP peer.\<close>

definition client_ip :: "headers \<Rightarrow> string \<Rightarrow> string" where
  "client_ip hs peer =
     (case header_str hs ''x-forwarded-for'' of
        None \<Rightarrow> peer
      | Some v \<Rightarrow> trim (takeWhile (\<lambda>c. c \<noteq> CHR '','') v))"

section \<open>Messages of a node\<close>

definition camera_status_update :: "ext \<Rightarrow> uuid \<Rightarrow> camera_status list \<Rightarrow> json" where
  "camera_status_update w n cams = JObj
     [(''type'', JStr ''camera_status_update''), (''node_id'', JStr (show_uuid w n)),
      (''cameras'', JArr (map (camera_status_json (show_uuid w)) cams))]"

definition heartbeat_metadata :: "ext \<Rightarrow> heartbeat_payload \<Rightarrow> json" where
  "heartbeat_metadata w p = JObj
     [(''hardware'', hardware_json (hb_hardware p)),
      (''cameras'', JArr (map (camera_status_json (show_uuid w)) (hb_cameras p)))]"

definition motion_event_json :: "ext \<Rightarrow> event_payload \<Rightarrow> json" where
  "motion_event_json w e = JObj
     [(''type'', JStr ''motion_event''), (''camera_id'', JStr (show_uuid w (ep_camera_id e))),
      (''occurred_at'', JStr (show_time w (ep_occurred_at e))), (''source'', JStr (ep_source e)),
      (''score'', json_opt JFloat (ep_score e))]"

text \<open>\<open>COALESCE(c.retention_policy_id, rp.id)\<close> of the camera's row, if there is one.\<close>

definition segment_policy :: "uuid \<Rightarrow> database \<Rightarrow> uuid option" where
  "segment_policy i d =
     (case find (\<lambda>c. cam_id c = i) (cameras d) of
        None \<Rightarrow> None
      | Some c \<Rightarrow> coalesce_opt (cam_retention_policy_id c) (map_option pol_id (default_policy d)))"

text \<open>\<open>ON CONFLICT DO NOTHING\<close> answers the number of rows it wrote.\<close>

definition insert_recording_ignore :: "recording \<Rightarrow> nat stmt" where
  "insert_recording_ignore r d =
     (if taken rec_key (rec_key r) (recordings d) then Inr (0, d)
      else case insert_recording r d of Inl e \<Rightarrow> Inl e | Inr (_, e) \<Rightarrow> Inr (1, e))"

definition segment_row :: "uuid \<Rightarrow> segment_payload \<Rightarrow> uuid option \<Rightarrow> recording" where
  "segment_row n seg pol =
     \<lparr>rec_id = seg_id seg, rec_camera_id = seg_camera_id seg, rec_node_id = n,
      rec_storage_uri = seg_storage_uri seg, rec_started_at = seg_started_at seg,
      rec_ended_at = Some (seg_ended_at seg), rec_duration_secs = Some (seg_duration_secs seg),
      rec_size_bytes = Some (seg_size_bytes seg), rec_policy_id = pol\<rparr>"

definition index_segment :: "uuid \<Rightarrow> segment_payload \<Rightarrow> unit handler" where
  "index_segment n seg =
     andthen (attempt (sql (query (segment_policy (seg_camera_id seg))))) (\<lambda>r.
     let retention_id = unwrap_or None r in
     andthen (attempt (sql (insert_recording_ignore (segment_row n seg retention_id)))) (\<lambda>_.
     ret ()))"

definition index_event :: "ext \<Rightarrow> uuid \<Rightarrow> event_payload \<Rightarrow> unit handler" where
  "index_event w n e =
     andthen (attempt (sql (insert_event
       \<lparr>ev_id = fresh_uuid w, ev_camera_id = ep_camera_id e, ev_node_id = n, ev_type = Motion,
        ev_source = Some (ep_source e), ev_score = ep_score e, ev_occurred_at = ep_occurred_at e\<rparr>)))
       (\<lambda>r. case r of
          Inr _ \<Rightarrow> modify (broadcast_dashboard (motion_event_json w e))
        | Inl _ \<Rightarrow> ret ())"

definition update_segment_uri :: "segment_migrated_payload \<Rightarrow> unit handler" where
  "update_segment_uri p =
     andthen (attempt (sql (update_recording (sm_recording_id p, sm_started_at p)
       (\<lambda>r. r\<lparr>rec_storage_uri := sm_storage_uri p\<rparr>)))) (\<lambda>_. ret ())"

definition handle_heartbeat :: "ext \<Rightarrow> uuid \<Rightarrow> heartbeat_payload \<Rightarrow> unit handler" where
  "handle_heartbeat w n p =
     andthen (attempt (sql (update_node n (\<lambda>m. m
       \<lparr>node_last_seen_at := Some (db_now w), node_metadata := heartbeat_metadata w p,
        node_version := hb_mediamtx_version p, node_updated_at := db_now w\<rparr>)))) (\<lambda>_.
     modify (broadcast_dashboard (camera_status_update w n (hb_cameras p))))"

fun handle_incoming :: "ext \<Rightarrow> uuid \<Rightarrow> ws_message option \<Rightarrow> unit handler" where
  "handle_incoming w n None = ret ()"
| "handle_incoming w n (Some (Heartbeat _ p)) = handle_heartbeat w n p"
| "handle_incoming w n (Some (SegmentComplete _ seg)) = index_segment n seg"
| "handle_incoming w n (Some (MotionEvent _ e)) = index_event w n e"
| "handle_incoming w n (Some (SegmentMigrated _ p)) = update_segment_uri p"
| "handle_incoming w n (Some (Ping q)) = modify (push_to_node n (Pong q))"
| "handle_incoming w n (Some _) = ret ()"

section \<open>The life of a socket\<close>

text \<open>
  \<open>attach_socket\<close> registers the sender of a fresh channel \<open>c\<close>; a sender registered before for
  the node is dropped. \<open>detach_socket\<close> is what follows the loop.
\<close>

definition online_update :: "ext \<Rightarrow> uuid \<Rightarrow> bool \<Rightarrow> json" where
  "online_update w n b = JObj
     [(''type'', JStr ''node_status_update''), (''node_id'', JStr (show_uuid w n)),
      (''online'', JBool b)]"

definition attach_socket :: "uuid \<Rightarrow> nat \<Rightarrow> app \<Rightarrow> app" where
  "attach_socket n c s =
     s\<lparr>node_txs := (n, c) # filter (\<lambda>e. fst e \<noteq> n) (node_txs s),
       node_chans := (node_chans s)(c := Some [])\<rparr>"

definition detach_socket :: "ext \<Rightarrow> uuid \<Rightarrow> nat \<Rightarrow> app \<Rightarrow> app" where
  "detach_socket w n c s =
     (let s1 = s\<lparr>node_txs := filter (\<lambda>e. fst e \<noteq> n) (node_txs s)\<rparr>;
          s2 = broadcast_dashboard (online_update w n False) s1
      in s2\<lparr>node_chans := (node_chans s2)(c := None)\<rparr>)"

text \<open>\<open>$2::inet\<close> fails on text that is not an address, and then nothing is saved.\<close>

definition save_node_seen :: "ext \<Rightarrow> uuid \<Rightarrow> string \<Rightarrow> node option stmt" where
  "save_node_seen w n ip d =
     (case parse_inet w ip of
        None \<Rightarrow> if taken node_id n (nodes d) then Inl Invalid_text else Inr (None, d)
      | Some a \<Rightarrow> update_node n (\<lambda>m. m
          \<lparr>node_last_seen_at := Some (db_now w), node_ip_addr := Some a,
           node_updated_at := db_now w\<rparr>) d)"

definition greet_socket :: "ext \<Rightarrow> uuid \<Rightarrow> string \<Rightarrow> ws_message list handler" where
  "greet_socket w n ip =
     andthen (fetch_node_cameras n) (\<lambda>cams.
     andthen (attempt (sql (save_node_seen w n ip))) (\<lambda>_.
     andthen (modify (broadcast_dashboard (online_update w n True))) (\<lambda>_.
     ret [config_sync cams])))"

text \<open>
  What \<open>select!\<close> finds ready: a text frame from the node, another frame, the end of the stream
  (a close frame or an error too), or a message in the channel, whose sending works or not.
\<close>

datatype socket_event =
    Text_frame "ws_message option"
  | Other_frame
  | Stream_end
  | Outgoing bool

text \<open>The loop answers the messages it has written to the sink, after those in \<open>sent\<close>.\<close>

fun socket_loop ::
  "uuid \<Rightarrow> nat \<Rightarrow> (ext \<times> socket_event) list \<Rightarrow> ws_message list \<Rightarrow> ws_message list handler" where
  "socket_loop n c [] sent = ret sent"
| "socket_loop n c ((w, Text_frame m) # es) sent =
     andthen (handle_incoming w n m) (\<lambda>_. socket_loop n c es sent)"
| "socket_loop n c ((w, Other_frame) # es) sent = socket_loop n c es sent"
| "socket_loop n c ((w, Stream_end) # es) sent = ret sent"
| "socket_loop n c ((w, Outgoing ok) # es) sent =
     andthen (gets (\<lambda>s. node_chans s c)) (\<lambda>q.
     case q of
       Some (m # ms) \<Rightarrow>
         andthen (modify (\<lambda>s. s\<lparr>node_chans := (node_chans s)(c := Some ms)\<rparr>)) (\<lambda>_.
         if ok then socket_loop n c es (sent @ [m]) else ret sent)
     | _ \<Rightarrow> socket_loop n c es sent)"

definition handle_socket ::
  "ext \<Rightarrow> uuid \<Rightarrow> string \<Rightarrow> nat \<Rightarrow> (ext \<times> socket_event) list \<Rightarrow> ext \<Rightarrow> ws_message list handler" where
  "handle_socket w n ip c es w_end =
     andthen (modify (attach_socket n c)) (\<lambda>_.
     andthen (greet_socket w n ip) (\<lambda>hello.
     andthen (socket_loop n c es hello) (\<lambda>sent.
     andthen (modify (detach_socket w_end n c)) (\<lambda>_.
     ret sent))))"

section \<open>Invariants\<close>

lemma keeps_modify_db [keeps_rules]:
  "(\<And>s. db (f s) = db s) \<Longrightarrow> keeps (\<lambda>s. I (db s)) (modify f)"
  by (simp add: keeps_def)

lemma attach_detach_db [simp]:
  "db (attach_socket n c s) = db s" "db (detach_socket w n c s) = db s"
  "faults (attach_socket n c s) = faults s" "faults (detach_socket w n c s) = faults s"
  by (simp_all add: attach_socket_def detach_socket_def Let_def)

context reader
begin

lemma keeps_authenticate: "keeps J (authenticate w hs)"
  unfolding authenticate_def Let_def by (intro keeps_rules)

end

context writer
begin

lemma keeps_insert_ignore [keeps_rules]: "app_keeps J (insert_recording_ignore r)"
  using recording_insert [of r]
  by (auto simp: app_keeps_def insert_recording_ignore_def split: if_splits sum.splits)

lemma keeps_save_node_seen [keeps_rules]: "app_keeps J (save_node_seen w n ip)"
proof -
  have "app_keeps J (update_node n (\<lambda>m. m
      \<lparr>node_last_seen_at := Some (db_now w), node_ip_addr := Some a, node_updated_at := db_now w\<rparr>))" for a
    by (rule node_update) simp
  then show ?thesis
    by (auto simp: app_keeps_def save_node_seen_def split: option.splits if_splits)
qed

lemma keeps_index_segment [keeps_rules]: "keeps J (index_segment n seg)"
  unfolding index_segment_def Let_def by (intro keeps_rules)

lemma keeps_index_event [keeps_rules]: "keeps J (index_event w n e)"
  unfolding index_event_def by (intro keeps_rules) (simp split: sum.split add: keeps_rules)

lemma keeps_update_segment_uri [keeps_rules]: "keeps J (update_segment_uri p)"
  unfolding update_segment_uri_def by (intro keeps_rules)

lemma keeps_handle_heartbeat [keeps_rules]: "keeps J (handle_heartbeat w n p)"
  unfolding handle_heartbeat_def by (intro keeps_rules) simp

lemma keeps_handle_incoming [keeps_rules]: "keeps J (handle_incoming w n m)"
  by (cases "(w, n, m)" rule: handle_incoming.cases) (simp_all add: keeps_rules)

lemma keeps_greet_socket [keeps_rules]: "keeps J (greet_socket w n ip)"
  unfolding greet_socket_def by (intro keeps_rules)

end

lemma sound_socket_loop [keeps_rules]: "keeps (\<lambda>s. db_ok (db s)) (socket_loop n c es sent)"
  by (induction n c es sent rule: socket_loop.induct)
    (auto intro!: keeps_rules split: option.split list.split)

lemma sound_handle_socket: "keeps (\<lambda>s. db_ok (db s)) (handle_socket w n ip c es w2)"
  unfolding handle_socket_def by (intro keeps_rules) simp_all

section \<open>Keys of nodes\<close>

lemma node_by_hash:
  assumes "db_ok d" and "n \<in> set (nodes d)"
  shows "find (\<lambda>m. node_api_key_hash m = node_api_key_hash n) (nodes d) = Some n"
proof -
  have "distinct (map node_api_key_hash ns)" if "sound_rows P node_clash ns" for P ns
    using that by (induction ns) (auto simp: sound_rows_def node_clash_def)
  with assms show ?thesis by (intro find_key_unique) (auto simp: db_ok_def)
qed

lemma authenticate_known:
  assumes "faults s = []" and "db_ok (db s)" and "n \<in> set (nodes (db s))"
    and "header_str hs ''x-api-key'' = Some key" and "hash_token w key = node_api_key_hash n"
  shows "authenticate w hs s =
    (if node_status n = Rejected then Inl Forbidden else Inr (node_id n), s)"
  using assms node_by_hash [OF assms(2,3)] by (simp add: authenticate_def prog_simps Let_def)

lemma authenticate_Inr:
  assumes "faults s = []" and "authenticate w hs s = (Inr i, t)"
  shows "t = s \<and> (\<exists>n \<in> set (nodes (db s)). node_id n = i \<and> node_status n \<noteq> Rejected \<and>
    (\<exists>key. header_str hs ''x-api-key'' = Some key \<and> hash_token w key = node_api_key_hash n))"
  using assms
  by (auto simp: authenticate_def andthen_Inr ok_or_Inr Let_def sqlq_no_fault split: if_splits
      dest!: find_key_Some intro: sym)

text \<open>The row a registration leaves.\<close>

lemma registered_row:
  assumes "faults s = []"
    and "self_register w body s = (Inr (code, v), t) \<or> create_node w me name s = (Inr (code, v), t)"
  shows "\<exists>n \<in> set (nodes (db t)). node_id n = nr_id (rn_node v) \<and>
    node_status n = nr_status (rn_node v) \<and> node_api_key_hash n = hash_token w (rn_api_key v) \<and>
    code = 201 \<and> faults t = []"
  using assms
  by (auto simp: self_register_def create_node_def andthen_Inr ensure_Inr Let_def sqlq_no_fault
      nodes.insert_Inr put_defs node_response_from_def new_node_def split: sum.splits prod.splits)

text \<open>
  C32. The key of a registration opens the node's socket until the node is rejected: after
  \<open>self_register\<close> or \<open>create_node\<close> answered with a key, a request with that key in \<open>x-api-key\<close>
  is authenticated as the new node. \<open>self_register\<close> needs no credentials and makes the node
  \<open>pending\<close>, \<open>create_node\<close> makes it \<open>approved\<close>; both statuses are let in. Once an administrator
  sets the status to \<open>rejected\<close>, the same key is refused with 403.
\<close>

theorem node_key_roundtrip:
  assumes "faults s = []" and "db_ok (db s)"
    and "self_register w body s = (Inr (code, v), t) \<and> st = Pending \<or>
         create_node w me name s = (Inr (code, v), t) \<and> st = Approved"
    and "header_str hs ''x-api-key'' = Some (rn_api_key v)"
    and "hash_token w2 = hash_token w"
  shows "nr_status (rn_node v) = st \<and>
    authenticate w2 hs t = (Inr (nr_id (rn_node v)), t) \<and>
    (\<forall>admin w3 r u. is_admin admin \<longrightarrow>
       update_node_status w3 admin (nr_id (rn_node v)) Rejected t = (r, u) \<longrightarrow>
       authenticate w2 hs u = (Inl Forbidden, u))"
proof -
  have reg: "self_register w body s = (Inr (code, v), t) \<or> create_node w me name s = (Inr (code, v), t)"
    using assms(3) by blast
  have st: "nr_status (rn_node v) = st"
    using assms(1,3)
    by (auto simp: self_register_def create_node_def andthen_Inr ensure_Inr Let_def sqlq_no_fault
        nodes.insert_Inr node_response_from_def new_node_def split: sum.splits prod.splits)
  have ok: "db_ok (db t)"
    using reg keepsD [OF sound.keeps_self_register assms(2), of w body]
      keepsD [OF sound.keeps_create_node assms(2), of w me name] by auto
  from registered_row [OF assms(1) reg] obtain n where n: "n \<in> set (nodes (db t))"
    "node_id n = nr_id (rn_node v)" "node_status n = st"
    "node_api_key_hash n = hash_token w (rn_api_key v)" and f: "faults t = []"
    using st by auto
  have auth: "authenticate w2 hs t = (Inr (nr_id (rn_node v)), t)"
    using authenticate_known [OF f ok n(1) assms(4)] n assms(3,5) by auto
  have "authenticate w2 hs u = (Inl Forbidden, u)"
    if "is_admin admin" and u: "update_node_status w3 admin (nr_id (rn_node v)) Rejected t = (r, u)"
    for admin w3 r u
  proof -
    let ?f = "\<lambda>m. m\<lparr>node_status := Rejected, node_updated_at := db_now w3\<rparr>"
    have "db u = (db t)\<lparr>nodes := update_where (\<lambda>m. node_id m = node_id n) ?f (nodes (db t))\<rparr>"
      using update_node_status_runs [OF f ok that(1) n(1)] u n(2) by auto
    then have mem: "?f n \<in> set (nodes (db u))" using n(1) by (auto simp: set_update_where)
    have "db_ok (db u)" using keepsD [OF sound.keeps_update_node_status ok, of w3 admin] u by (metis snd_conv)
    moreover have "faults u = []"
      using u f that(1) by (auto simp: update_node_status_def prog_simps split: sum.splits option.splits if_splits)
    ultimately show ?thesis
      using authenticate_known [OF _ _ mem assms(4), of w2] n(4) assms(5) by simp
  qed
  with st auth show ?thesis by blast
qed

definition sample_register :: self_register_request where
  "sample_register = \<lparr>sr_name = ''n2'', sr_hardware = None\<rparr>"

definition sample_key_header :: headers where
  "sample_key_header = [(''x-api-key'', ''r'')]"

lemma sample_register_runs:
  "\<exists>v t. self_register sample_ext sample_register sample_app = (Inr (201, v), t) \<and>
     rn_api_key v = ''r'' \<and> nr_id (rn_node v) = 99"
  by (simp add: self_register_def sample_register_def insert_into_def node_check_def prog_simps Let_def
      new_node_def node_response_from_def hash_token_def generate_refresh_token_def
      sample_ext_def sample_node_def)

lemma sample_key_header_str: "header_str sample_key_header ''x-api-key'' = Some ''r''"
  by (simp add: header_str_def sample_key_header_def header_to_str_def)

theorem node_key_roundtrip_witness:
  "\<exists>v t. self_register sample_ext sample_register sample_app = (Inr (201, v), t) \<and>
     authenticate sample_ext sample_key_header t = (Inr 99, t) \<and>
     (\<exists>r u. update_node_status sample_ext sample_admin 99 Rejected t = (r, u) \<and>
        authenticate sample_ext sample_key_header u = (Inl Forbidden, u))"
proof -
  obtain v t where v: "self_register sample_ext sample_register sample_app = (Inr (201, v), t)"
    "rn_api_key v = ''r''" "nr_id (rn_node v) = 99"
    using sample_register_runs by blast
  obtain r u where u: "update_node_status sample_ext sample_admin 99 Rejected t = (r, u)" by fastforce
  have a: "is_admin sample_admin" by (simp add: sample_admin_def is_admin_def)
  have h: "header_str sample_key_header ''x-api-key'' = Some (rn_api_key v)"
    using v(2) sample_key_header_str by simp
  have "authenticate sample_ext sample_key_header t = (Inr 99, t) \<and>
      authenticate sample_ext sample_key_header u = (Inl Forbidden, u)"
    using node_key_roundtrip [of sample_app sample_ext sample_register 201 v t Pending _ _
        sample_key_header sample_ext, OF _ _ _ h refl] v u a by auto
  with v u show ?thesis by blast
qed

section \<open>Recordings reported by nodes\<close>

lemma recording_lookup:
  "db_ok d \<Longrightarrow> find (\<lambda>r. rec_key r = k) (recordings d) = Some r \<longleftrightarrow>
     r \<in> set (recordings d) \<and> rec_key r = k"
  by (simp add: db_ok_def recordings.find_iff)

lemma default_policy_exists: "policy_exists d (map_option pol_id (default_policy d))"
  by (auto simp: policy_exists_def default_policy_def dest!: find_Some_iff [THEN iffD1]
      split: option.split)

text \<open>A segment's policy always exists, so its row can be inserted.\<close>

lemma segment_policy_exists: "db_ok d \<Longrightarrow> policy_exists d (segment_policy i d)"
proof (cases "find (\<lambda>c. cam_id c = i) (cameras d)")
  case None
  then show ?thesis by (simp add: segment_policy_def policy_exists_def)
next
  case (Some c)
  assume "db_ok d"
  with find_key_Some [OF Some] have "camera_ok d c"
    by (auto simp: db_ok_def sound_rows_def list_all_iff)
  with Some default_policy_exists [of d] show ?thesis
    by (cases "cam_retention_policy_id c")
      (auto simp: segment_policy_def coalesce_opt_def camera_ok_def)
qed

lemma index_segment_runs:
  assumes "faults s = []" and "db_ok (db s)"
  shows "index_segment n seg s = (Inr (),
    if (seg_id seg, seg_started_at seg) \<in> rec_key ` set (recordings (db s)) then s
    else s\<lparr>db := (db s)\<lparr>recordings := recordings (db s) @
      [segment_row n seg (segment_policy (seg_camera_id seg) (db s))]\<rparr>\<rparr>)"
proof -
  let ?r = "segment_row n seg (segment_policy (seg_camera_id seg) (db s))"
  have k: "rec_key ?r = (seg_id seg, seg_started_at seg)" "rec_policy_id ?r = segment_policy (seg_camera_id seg) (db s)"
    by (simp_all add: rec_key_def segment_row_def)
  have "recording_check (db s) ?r (recordings (db s)) = None"
    if "(seg_id seg, seg_started_at seg) \<notin> rec_key ` set (recordings (db s))"
    using that segment_policy_exists [OF assms(2), of "seg_camera_id seg"] k
    by (simp add: recording_check_def rec_key_def [abs_def])
  then show ?thesis
    using assms(1) k
    by (simp add: index_segment_def prog_simps Let_def insert_recording_ignore_def insert_into_def put_defs)
qed

text \<open>
  C33. A segment is indexed exactly once: the first report of a segment stores it as a recording
  of the reporting node, under the policy of its camera or else the default policy, and the
  rows before it stay; any further report with the same id and start, from whatever node and
  with whatever contents, changes nothing. So a node may send its queue again after a
  disconnect.
\<close>

theorem index_segment_idempotent:
  assumes "faults s = []" and "db_ok (db s)" and "index_segment n seg s = (res, t)"
    and "seg_id again = seg_id seg" and "seg_started_at again = seg_started_at seg"
  shows "res = Inr () \<and>
    (if (seg_id seg, seg_started_at seg) \<in> rec_key ` set (recordings (db s)) then t = s
     else t = s\<lparr>db := (db s)\<lparr>recordings := recordings (db s) @
       [segment_row n seg (segment_policy (seg_camera_id seg) (db s))]\<rparr>\<rparr>) \<and>
    (\<forall>c \<in> set (cameras (db s)). cam_id c = seg_camera_id seg \<longrightarrow>
       segment_policy (seg_camera_id seg) (db s) =
         (if cam_retention_policy_id c \<noteq> None then cam_retention_policy_id c
          else map_option pol_id (default_policy (db s)))) \<and>
    index_segment m again t = (Inr (), t)"
proof -
  have t: "res = Inr ()" "t = (if (seg_id seg, seg_started_at seg) \<in> rec_key ` set (recordings (db s)) then s
    else s\<lparr>db := (db s)\<lparr>recordings := recordings (db s) @
      [segment_row n seg (segment_policy (seg_camera_id seg) (db s))]\<rparr>\<rparr>)"
    using assms(3) index_segment_runs [OF assms(1,2), of n seg] by auto
  have "db_ok (db t)" using keepsD [OF sound.keeps_index_segment assms(2), of n seg] assms(3) by simp
  moreover have "faults t = []" using t assms(1) by simp
  moreover have "(seg_id again, seg_started_at again) \<in> rec_key ` set (recordings (db t))"
    using t assms(4,5) by (auto simp: rec_key_def segment_row_def)
  ultimately have "index_segment m again t = (Inr (), t)" by (simp add: index_segment_runs)
  moreover have "segment_policy (seg_camera_id seg) (db s) = (if cam_retention_policy_id c \<noteq> None
      then cam_retention_policy_id c else map_option pol_id (default_policy (db s)))"
    if "c \<in> set (cameras (db s))" "cam_id c = seg_camera_id seg" for c
  proof -
    have "find (\<lambda>q. cam_id q = seg_camera_id seg) (cameras (db s)) = Some c"
      using assms(2) that by (simp add: db_ok_def cameras.find_iff)
    then show ?thesis by (auto simp: segment_policy_def coalesce_opt_def split: option.split)
  qed
  ultimately show ?thesis using t by simp
qed

definition sample_segment :: segment_payload where
  "sample_segment =
     \<lparr>seg_id = 60, seg_camera_id = 30, seg_stream_path = ''door'',
      seg_storage_uri = ''local://door/19700101_000100.mp4'', seg_started_at = seconds 60,
      seg_ended_at = seconds 120, seg_duration_secs = 60, seg_size_bytes = 1000\<rparr>"

theorem index_segment_idempotent_witness:
  "\<exists>t. index_segment 20 sample_segment sample_app = (Inr (), t) \<and>
     map rec_id (recordings (db t)) = [50, 60] \<and>
     map rec_policy_id (recordings (db t)) = [Some 40, Some 40] \<and>
     index_segment 21 sample_segment t = (Inr (), t)"
proof -
  obtain res t where i: "index_segment 20 sample_segment sample_app = (res, t)" by fastforce
  have f: "(seg_id sample_segment, seg_started_at sample_segment) \<notin> rec_key ` set (recordings sample_db)"
    by (simp add: sample_segment_def sample_recording_def rec_key_def)
  have pol: "segment_policy (seg_camera_id sample_segment) sample_db = Some 40"
    by (simp add: segment_policy_def sample_segment_def sample_camera_def coalesce_opt_def
        default_policy_def sample_policy_def)
  have "res = Inr ()" "db t = sample_db\<lparr>recordings := [sample_recording, segment_row 20 sample_segment (Some 40)]\<rparr>"
    "index_segment 21 sample_segment t = (Inr (), t)"
    using index_segment_idempotent [OF _ _ i refl refl, of 21] f pol by auto
  with i show ?thesis by (simp add: segment_row_def sample_segment_def sample_recording_def)
qed

section \<open>What a message may change\<close>

lemma sql_cases: "sql q s = (r, t) \<Longrightarrow> db t = db s \<or> (\<exists>x. r = Inr x \<and> q (db s) = Inr (x, db t))"
  by (auto simp: sql_def split: if_splits sum.splits)

text \<open>The effect of each kind of message on the database, whatever round trips are lost.\<close>

lemma index_segment_effect:
  assumes "index_segment n seg s = (res, t)"
  shows "db t = db s \<or> (\<exists>r. rec_node_id r = n \<and> rec_key r \<notin> rec_key ` set (recordings (db s)) \<and>
    db t = (db s)\<lparr>recordings := recordings (db s) @ [r]\<rparr>)"
proof -
  obtain r1 s1 where 1: "sql (query (segment_policy (seg_camera_id seg))) s = (r1, s1)" by fastforce
  let ?r = "segment_row n seg (unwrap_or None r1)"
  obtain r2 s2 where 2: "sql (insert_recording_ignore ?r) s1 = (r2, s2)" by fastforce
  have "db s1 = db s" using sql_query_db [of "segment_policy (seg_camera_id seg)" s] 1 by simp
  moreover have "t = s2" using assms 1 2 by (simp add: index_segment_def andthen_apply Let_def)
  moreover have "rec_node_id ?r = n" by (simp add: segment_row_def)
  ultimately show ?thesis
    using sql_cases [OF 2]
    by (auto simp: insert_recording_ignore_def recordings.insert_Inr put_defs
        split: if_splits sum.splits)
qed

lemma index_event_effect:
  assumes "index_event w n e s = (res, t)"
  shows "\<exists>es. db t = (db s)\<lparr>events := events (db s) @ es\<rparr>"
proof -
  let ?e = "\<lparr>ev_id = fresh_uuid w, ev_camera_id = ep_camera_id e, ev_node_id = n, ev_type = Motion,
    ev_source = Some (ep_source e), ev_score = ep_score e, ev_occurred_at = ep_occurred_at e\<rparr>"
  obtain r u where 1: "sql (insert_event ?e) s = (r, u)" by fastforce
  have "db t = db u" using assms 1 by (cases r) (auto simp: index_event_def andthen_apply)
  with sql_cases [OF 1] show ?thesis
    by (auto simp: events.insert_Inr put_defs intro: exI [of _ "[]"])
qed

lemma heartbeat_effect:
  assumes "handle_heartbeat w n p s = (res, t)"
  shows "\<exists>f. (\<forall>m. node_id (f m) = node_id m \<and> node_ip_addr (f m) = node_ip_addr m) \<and>
    db t = (db s)\<lparr>nodes := update_where (\<lambda>m. node_id m = n) f (nodes (db s))\<rparr>"
proof -
  let ?f = "\<lambda>m. m\<lparr>node_last_seen_at := Some (db_now w), node_metadata := heartbeat_metadata w p,
        node_version := hb_mediamtx_version p, node_updated_at := db_now w\<rparr>"
  obtain r u where 1: "sql (update_node n ?f) s = (r, u)" by fastforce
  have "db t = db u" using assms 1 by (auto simp: handle_heartbeat_def andthen_apply)
  moreover have "(db s)\<lparr>nodes := update_where (\<lambda>m. node_id m = n) id (nodes (db s))\<rparr> = db s"
    by (simp add: update_where_def cong: if_cong)
  moreover have "update_node n ?f (db s) = Inr (x, d) \<Longrightarrow> d = db s \<or>
      d = (db s)\<lparr>nodes := update_where (\<lambda>m. node_id m = n) ?f (nodes (db s))\<rparr>" for x d
    by (cases x) (auto simp: nodes.update_None nodes.update_Some put_defs)
  ultimately consider "db t = (db s)\<lparr>nodes := update_where (\<lambda>m. node_id m = n) id (nodes (db s))\<rparr>"
    | "db t = (db s)\<lparr>nodes := update_where (\<lambda>m. node_id m = n) ?f (nodes (db s))\<rparr>"
    using sql_cases [OF 1] by auto
  then show ?thesis by cases (auto intro: exI [of _ id] exI [of _ ?f])
qed

lemma migrated_effect:
  assumes "update_segment_uri p s = (res, t)"
  shows "db t = db s \<or>
    db t = (db s)\<lparr>recordings := update_where (\<lambda>r. rec_key r = (sm_recording_id p, sm_started_at p))
      (\<lambda>r. r\<lparr>rec_storage_uri := sm_storage_uri p\<rparr>) (recordings (db s))\<rparr>"
proof -
  let ?f = "\<lambda>r. r\<lparr>rec_storage_uri := sm_storage_uri p\<rparr>"
  let ?k = "(sm_recording_id p, sm_started_at p)"
  obtain r u where 1: "sql (update_recording ?k ?f) s = (r, u)" by fastforce
  have "db t = db u" using assms 1 by (auto simp: update_segment_uri_def andthen_apply)
  moreover have "update_recording ?k ?f (db s) = Inr (x, d) \<Longrightarrow> d = db s \<or>
      d = (db s)\<lparr>recordings := update_where (\<lambda>r. rec_key r = ?k) ?f (recordings (db s))\<rparr>" for x d
    by (cases x) (auto simp: recordings.update_None recordings.update_Some put_defs)
  ultimately show ?thesis using sql_cases [OF 1] by auto
qed

definition without_uri :: "recording \<Rightarrow> recording" where
  "without_uri r = r\<lparr>rec_storage_uri := []\<rparr>"

text \<open>
  C34. A message is confined: whatever a node sends, and whatever round trips to the database
  are lost, users, sessions, roles, cameras and policies stay as they are, no other node's row
  changes, no event and no recording is removed or altered but for the storage URI, and every
  recording that appears belongs to the sending node.
\<close>

theorem incoming_confined:
  assumes "handle_incoming w n m s = (res, t)"
  shows "res = Inr () \<and> roles (db t) = roles (db s) \<and> users (db t) = users (db s) \<and>
    sessions (db t) = sessions (db s) \<and> cameras (db t) = cameras (db s) \<and>
    policies (db t) = policies (db s) \<and>
    map node_id (nodes (db t)) = map node_id (nodes (db s)) \<and>
    filter (\<lambda>x. node_id x \<noteq> n) (nodes (db t)) = filter (\<lambda>x. node_id x \<noteq> n) (nodes (db s)) \<and>
    (\<exists>es. events (db t) = events (db s) @ es) \<and>
    (\<exists>rs. map without_uri (recordings (db t)) = map without_uri (recordings (db s)) @ rs \<and>
       (\<forall>r \<in> set rs. rec_node_id r = n))"
proof (cases "(w, n, m)" rule: handle_incoming.cases)
  case (2 w' n' q p)
  then have m: "m = Some (Heartbeat q p)" by simp
  then have h: "handle_heartbeat w n p s = (res, t)" using assms by simp
  from heartbeat_effect [OF this] obtain f where f: "\<forall>x. node_id (f x) = node_id x \<and> node_ip_addr (f x) = node_ip_addr x"
    "db t = (db s)\<lparr>nodes := update_where (\<lambda>x. node_id x = n) f (nodes (db s))\<rparr>" by blast
  have "filter (\<lambda>x. node_id x \<noteq> n) (update_where (\<lambda>x. node_id x = n) f ns) =
      filter (\<lambda>x. node_id x \<noteq> n) ns" for ns
    using f(1) by (induction ns) (auto simp: update_where_def)
  with f h show ?thesis
    by (auto simp: map_update_where handle_heartbeat_def andthen_apply)
next
  case (3 w' n' q seg)
  then have h: "index_segment n seg s = (res, t)" using assms by simp
  from index_segment_effect [OF h] have
    "db t = db s \<or> (\<exists>r. rec_node_id r = n \<and> db t = (db s)\<lparr>recordings := recordings (db s) @ [r]\<rparr>)"
    by blast
  moreover have "res = Inr ()" using h by (auto simp: index_segment_def andthen_apply Let_def)
  ultimately show ?thesis by (auto simp: without_uri_def)
next
  case (4 w' n' q e)
  then have h: "index_event w n e s = (res, t)" using assms by simp
  moreover have "res = Inr ()" using h by (auto simp: index_event_def andthen_apply split: sum.splits)
  ultimately show ?thesis using index_event_effect [OF h] by auto
next
  case (5 w' n' q p)
  then have h: "update_segment_uri p s = (res, t)" using assms by simp
  have "map without_uri (update_where P (\<lambda>r. r\<lparr>rec_storage_uri := u\<rparr>) rs) = map without_uri rs"
    for P u rs by (rule map_update_where) (simp add: without_uri_def)
  with migrated_effect [OF h] h show ?thesis
    by (auto simp: update_segment_uri_def andthen_apply)
next
  case (6 w' n' q)
  with assms show ?thesis by auto
qed (use assms in auto)

theorem incoming_confined_witness:
  "\<exists>t. handle_incoming sample_ext 20 (Some (SegmentComplete 1 sample_segment)) sample_app = (Inr (), t) \<and>
     cameras (db t) = [sample_camera]"
proof -
  obtain res t where h: "handle_incoming sample_ext 20 (Some (SegmentComplete 1 sample_segment)) sample_app = (res, t)"
    by fastforce
  from incoming_confined [OF h] h show ?thesis by simp
qed

text \<open>The frames of all nodes in the order they are handled.\<close>

fun deliver :: "(ext \<times> uuid \<times> ws_message option) list \<Rightarrow> unit handler" where
  "deliver [] = ret ()"
| "deliver ((w, n, m) # fs) = andthen (handle_incoming w n m) (\<lambda>_. deliver fs)"

lemma incoming_keeps_row:
  assumes "find (\<lambda>r. rec_key r = k) (recordings (db s)) = Some r"
    and "\<forall>q p. m = Some (SegmentMigrated q p) \<longrightarrow> (sm_recording_id p, sm_started_at p) \<noteq> k"
    and "handle_incoming w n m s = (res, t)"
  shows "find (\<lambda>r. rec_key r = k) (recordings (db t)) = Some r"
proof (cases "(w, n, m)" rule: handle_incoming.cases)
  case (2 w' n' q p)
  with assms heartbeat_effect [of w n p s res t] show ?thesis by auto
next
  case (3 w' n' q seg)
  have "find P xs = Some r \<Longrightarrow> find P (xs @ ys) = Some r" for P and xs ys :: "recording list"
    by (induction xs) auto
  with 3 assms index_segment_effect [of n seg s res t] show ?thesis by auto
next
  case (4 w' n' q e)
  with assms index_event_effect [of w n e s res t] show ?thesis by auto
next
  case (5 w' n' q p)
  have "find (\<lambda>r. rec_key r = k) (update_where (\<lambda>r. rec_key r = j) (\<lambda>r. r\<lparr>rec_storage_uri := u\<rparr>) rs) =
      find (\<lambda>r. rec_key r = k) rs" if "j \<noteq> k" for j u rs
    using that by (induction rs) (auto simp: update_where_def rec_key_def)
  with 5 assms migrated_effect [of p s res t] show ?thesis by auto
qed (use assms in auto)

lemma deliver_keeps_row:
  assumes "find (\<lambda>r. rec_key r = k) (recordings (db s)) = Some r"
    and "\<forall>(w, n, m) \<in> set fs. \<forall>q p. m = Some (SegmentMigrated q p) \<longrightarrow>
      (sm_recording_id p, sm_started_at p) \<noteq> k"
  shows "find (\<lambda>r. rec_key r = k) (recordings (db (snd (deliver fs s)))) = Some r"
  using assms
proof (induction fs arbitrary: s)
  case Nil
  then show ?case by simp
next
  case (Cons f fs)
  obtain w n m where f: "f = (w, n, m)" by (cases f) auto
  obtain res t where h: "handle_incoming w n m s = (res, t)" by fastforce
  have "find (\<lambda>r. rec_key r = k) (recordings (db t)) = Some r"
    using incoming_keeps_row [OF Cons.prems(1) _ h] Cons.prems(2) f by auto
  with Cons.IH [of t] Cons.prems(2) f h show ?case
    by (cases res) (auto simp: andthen_apply)
qed

text \<open>A notice of migration rewrites the URI of the row it names and nothing else.\<close>

lemma migrated_lookup:
  assumes "faults s = []" and "db_ok (db s)"
    and "find (\<lambda>r. rec_key r = k) (recordings (db s)) = Some r"
    and "(sm_recording_id p, sm_started_at p) = k"
  shows "\<exists>t. handle_incoming w n (Some (SegmentMigrated q p)) s = (Inr (), t) \<and>
    (\<forall>j. find (\<lambda>r. rec_key r = j) (recordings (db t)) =
       (if j = k then Some (r\<lparr>rec_storage_uri := sm_storage_uri p\<rparr>)
        else find (\<lambda>r. rec_key r = j) (recordings (db s))))"
proof -
  let ?f = "\<lambda>r. r\<lparr>rec_storage_uri := sm_storage_uri p\<rparr>"
  have key: "rec_key (?f x) = rec_key x" for x by (simp add: rec_key_def)
  have r: "r \<in> set (recordings (db s))" "rec_key r = k" using find_key_Some [OF assms(3)] by auto
  then have "policy_exists (db s) (rec_policy_id r)"
    using assms(2) by (auto simp: db_ok_def sound_rows_def list_all_iff recording_ok_def)
  then have "recording_check (db s) (?f r) (delete_where (\<lambda>q. rec_key q = k) (recordings (db s))) = None"
    using r(2) by (auto simp: recording_check_def rec_key_def)
  then have u: "update_recording k ?f (db s) = Inr (Some (?f r),
      (db s)\<lparr>recordings := update_where (\<lambda>r. rec_key r = k) ?f (recordings (db s))\<rparr>)"
    by (simp add: update_pk_def assms(3) put_defs)
  with assms(1,4) have "handle_incoming w n (Some (SegmentMigrated q p)) s = (Inr (),
      s\<lparr>db := (db s)\<lparr>recordings := update_where (\<lambda>r. rec_key r = k) ?f (recordings (db s))\<rparr>\<rparr>)"
    by (auto simp: update_segment_uri_def prog_simps)
  moreover have "find (\<lambda>r. rec_key r = j) (update_where (\<lambda>r. rec_key r = k) ?f rs) =
      (if j = k then map_option ?f (find (\<lambda>r. rec_key r = j) rs) else find (\<lambda>r. rec_key r = j) rs)" for j rs
    by (induction rs) (auto simp: update_where_def key)
  ultimately show ?thesis using assms(3) by simp
qed

text \<open>
  C35. A migrated recording stays migrated: \<open>SegmentMigrated\<close> for a stored recording changes its
  storage URI and nothing else of it, whichever node sends the message; afterwards no sequence
  of messages of any nodes, replays of the segment's own \<open>SegmentComplete\<close> included, and no
  loss of the database connection changes the row again, unless a message migrates that same
  recording once more.
\<close>

theorem migrated_uri_sticks:
  assumes "faults s = []" and "db_ok (db s)"
    and "find (\<lambda>r. rec_key r = k) (recordings (db s)) = Some r"
    and "(sm_recording_id p, sm_started_at p) = k"
    and "handle_incoming w n (Some (SegmentMigrated q p)) s = (res, t)"
    and "\<forall>(w, n, m) \<in> set later. \<forall>q p. m = Some (SegmentMigrated q p) \<longrightarrow>
      (sm_recording_id p, sm_started_at p) \<noteq> k"
  shows "find (\<lambda>r. rec_key r = k) (recordings (db (snd (deliver later (t\<lparr>faults := lost\<rparr>))))) =
    Some (r\<lparr>rec_storage_uri := sm_storage_uri p\<rparr>)"
proof (rule deliver_keeps_row [OF _ assms(6)])
  show "find (\<lambda>r. rec_key r = k) (recordings (db (t\<lparr>faults := lost\<rparr>))) =
      Some (r\<lparr>rec_storage_uri := sm_storage_uri p\<rparr>)"
    using migrated_lookup [OF assms(1-4), of w n q] assms(5) by (cases k) auto
qed

definition sample_migrated :: segment_migrated_payload where
  "sample_migrated = \<lparr>sm_recording_id = 50, sm_started_at = 0, sm_storage_uri = ''s3://b/x''\<rparr>"

text \<open>Here the sender is not the owner of the recording, not even a node that exists.\<close>

theorem migrated_uri_sticks_witness:
  "\<exists>t. handle_incoming sample_ext 99 (Some (SegmentMigrated 1 sample_migrated)) sample_app = (Inr (), t) \<and>
     find (\<lambda>r. rec_key r = (50, 0)) (recordings (db (snd (deliver [] (t\<lparr>faults := []\<rparr>))))) =
       Some (sample_recording\<lparr>rec_storage_uri := ''s3://b/x''\<rparr>) \<and> rec_node_id sample_recording = 20"
proof -
  obtain res t where h: "handle_incoming sample_ext 99 (Some (SegmentMigrated 1 sample_migrated)) sample_app = (res, t)"
    by fastforce
  have f: "find (\<lambda>r. rec_key r = (50, 0)) (recordings (db sample_app)) = Some sample_recording"
    by (simp add: rec_key_def sample_recording_def)
  have k: "(sm_recording_id sample_migrated, sm_started_at sample_migrated) = (50, 0)"
    by (simp add: sample_migrated_def)
  have "res = Inr ()" using h by (auto simp: update_segment_uri_def andthen_apply)
  moreover have "find (\<lambda>r. rec_key r = (50, 0)) (recordings (db (snd (deliver [] (t\<lparr>faults := []\<rparr>))))) =
      Some (sample_recording\<lparr>rec_storage_uri := sm_storage_uri sample_migrated\<rparr>)"
    by (rule migrated_uri_sticks [OF _ _ f k h]) simp_all
  ultimately show ?thesis using h by (simp add: sample_migrated_def sample_recording_def)
qed

section \<open>Connecting and disconnecting\<close>

text \<open>
  C36. A late disconnect cuts off the new connection: when a node connects again before the
  coordinator has noticed the end of its previous socket, the new socket receives what is sent
  to the node, but as soon as the old socket's handler cleans up it removes the sender of the
  new one. From then on the node counts as offline and every message for it is dropped,
  although the receiver of the new socket is still there.
\<close>

theorem reconnect_loses_sender:
  assumes "map_of (node_txs s) n = Some c1" and "node_chans s c1 \<noteq> None" and "node_chans s c2 = None"
    and "s1 = attach_socket n c2 s" and "s2 = detach_socket w n c1 s1"
  shows "node_chans (push_to_node n m s1) c2 = Some [m] \<and>
    node_chans s2 c2 = Some [] \<and> \<not> online n s2 \<and> push_to_node n m s2 = s2"
proof -
  have "c1 \<noteq> c2" using assms(2,3) by auto
  moreover have gone: "map_of (filter (\<lambda>e. fst e \<noteq> n) xs) n = None" for xs :: "(uuid \<times> nat) list"
    by (induction xs) auto
  moreover have "map_of (node_txs s2) n = None"
    using assms(4,5) gone by (simp add: attach_socket_def detach_socket_def broadcast_dashboard_def Let_def)
  ultimately show ?thesis
    using assms(4,5)
    by (simp add: attach_socket_def detach_socket_def broadcast_dashboard_def Let_def online_def
        push_to_node_def send_def)
qed

theorem reconnect_loses_sender_witness:
  "map_of (node_txs sample_app) 20 = Some 7 \<and>
   node_chans (detach_socket sample_ext 20 7 (attach_socket 20 8 sample_app)) 8 = Some [] \<and>
   \<not> online 20 (detach_socket sample_ext 20 7 (attach_socket 20 8 sample_app))"
  using reconnect_loses_sender [of sample_app 20 7 8 _ _ sample_ext, OF _ _ _ refl refl] by simp

text \<open>The pongs a list of frames asks for.\<close>

definition pong_of :: "ext \<times> socket_event \<Rightarrow> ws_message list" where
  "pong_of x = (case snd x of Text_frame (Some (Ping q)) \<Rightarrow> [Pong q] | _ \<Rightarrow> [])"

definition pongs :: "(ext \<times> socket_event) list \<Rightarrow> ws_message list" where
  "pongs es = concat (map pong_of es)"

text \<open>
  Events that keep the connection, and the turns of the channel in which a message can be written.
  \<open>served q es k\<close>: of \<open>q\<close> and the pongs asked for, at least as many of \<open>k\<close> are written as there
  are turns for, in every stretch \<open>gs\<close> of the events before the connection ends.
\<close>

definition lasting :: "(ext \<times> socket_event) list \<Rightarrow> bool" where
  "lasting es \<longleftrightarrow> Stream_end \<notin> snd ` set es \<and> Outgoing False \<notin> snd ` set es"

definition turns :: "(ext \<times> socket_event) list \<Rightarrow> nat" where
  "turns es = length (filter (\<lambda>x. snd x = Outgoing True) es)"

definition served :: "nat \<Rightarrow> (ext \<times> socket_event) list \<Rightarrow> nat \<Rightarrow> bool" where
  "served l es k \<longleftrightarrow> (\<forall>fs gs hs. es = fs @ gs @ hs \<longrightarrow> lasting (fs @ gs) \<longrightarrow>
     min (l + length (pongs fs)) (turns gs) \<le> k)"

lemma event_list_simps [simp]:
  "pongs [] = []" "turns [] = 0" "pongs (x # es) = pong_of x @ pongs es"
  "turns (x # es) = (if snd x = Outgoing True then Suc (turns es) else turns es)"
  "lasting (x # es) \<longleftrightarrow> snd x \<noteq> Stream_end \<and> snd x \<noteq> Outgoing False \<and> lasting es"
  by (auto simp: pongs_def turns_def lasting_def)

lemma served_ends: "snd x = Stream_end \<or> snd x = Outgoing False \<Longrightarrow> served l (x # es) k"
  by (auto simp: served_def Cons_eq_append_conv)

text \<open>What holds of the events after the first holds of all of them.\<close>

lemma servedD: "served l (fs @ gs @ hs) k \<Longrightarrow> lasting (fs @ gs) \<Longrightarrow> min (l + length (pongs fs)) (turns gs) \<le> k"
  by (auto simp: served_def)

lemma served_frame:
  assumes "served (l + length (pong_of x)) es k" and "snd x \<noteq> Outgoing True"
  shows "served l (x # es) k"
  unfolding served_def
proof (intro allI impI)
  fix fs gs hs assume e: "x # es = fs @ gs @ hs" and l: "lasting (fs @ gs)"
  show "min (l + length (pongs fs)) (turns gs) \<le> k"
  proof (cases fs)
    case Nil
    show ?thesis
    proof (cases gs)
      case (Cons y gs')
      with e l Nil have "es = [] @ gs' @ hs" "lasting ([] @ gs')" "y = x" by auto
      with servedD [of _ "[]" gs' hs k] assms Nil Cons show ?thesis by fastforce
    qed simp
  next
    case (Cons y fs')
    with e l have "es = fs' @ gs @ hs" "lasting (fs' @ gs)" "y = x" by auto
    with servedD [of _ fs' gs hs k] assms(1) have "min (l + length (pong_of x) + length (pongs fs')) (turns gs) \<le> k"
      by blast
    moreover have "length (pongs fs) = length (pong_of x) + length (pongs fs')"
      using Cons \<open>y = x\<close> by simp
    ultimately show ?thesis by simp
  qed
qed

lemma served_turn:
  assumes "served l es k" and "snd x = Outgoing True"
  shows "served (Suc l) (x # es) (Suc k)" and "l = 0 \<Longrightarrow> served l (x # es) k"
proof -
  have p: "pong_of x = []" using assms(2) by (cases x) (simp add: pong_of_def)
  have "min (Suc l + length (pongs fs)) (turns gs) \<le> Suc k \<and> (l = 0 \<longrightarrow> min (l + length (pongs fs)) (turns gs) \<le> k)"
    if e: "x # es = fs @ gs @ hs" and las: "lasting (fs @ gs)" for fs gs hs
  proof (cases fs)
    case Nil
    show ?thesis
    proof (cases gs)
      case (Cons y gs')
      with e las Nil have "es = [] @ gs' @ hs" "lasting ([] @ gs')" "y = x" by auto
      with servedD [of l "[]" gs' hs k] assms Nil Cons show ?thesis by auto
    qed (simp add: Nil)
  next
    case (Cons y fs')
    with e las have "es = fs' @ gs @ hs" "lasting (fs' @ gs)" "y = x" by auto
    with servedD [of l fs' gs hs k] assms(1) have "min (l + length (pongs fs')) (turns gs) \<le> k" by blast
    moreover have "length (pongs fs) = length (pongs fs')" using Cons \<open>y = x\<close> p by simp
    ultimately show ?thesis by (auto simp: min_def split: if_splits)
  qed
  then show "served (Suc l) (x # es) (Suc k)" "l = 0 \<Longrightarrow> served l (x # es) k"
    by (simp_all add: served_def)
qed

lemma broadcast_chans [simp]: "node_chans (broadcast_dashboard j s) = node_chans s"
  by (simp add: broadcast_dashboard_def)

lemma sql_frame [simp]:
  "node_txs (snd (sql q s)) = node_txs s" "node_chans (snd (sql q s)) = node_chans s"
  by (auto simp: sql_def split: sum.splits)

lemma incoming_chan:
  assumes "map_of (node_txs s) n = Some c" and "node_chans s c = Some q"
    and "handle_incoming w n m s = (res, t)"
  shows "res = Inr () \<and> map_of (node_txs t) n = Some c \<and>
    node_chans t c = Some (q @ pong_of (w, Text_frame m)) \<and>
    map (\<lambda>x. (node_id x, node_ip_addr x)) (nodes (db t)) =
      map (\<lambda>x. (node_id x, node_ip_addr x)) (nodes (db s))"
proof (cases "(w, n, m)" rule: handle_incoming.cases)
  case (2 w' n' i p)
  then have h: "handle_heartbeat w n p s = (res, t)" using assms(3) by simp
  from heartbeat_effect [OF h] obtain f where "\<forall>x. node_id (f x) = node_id x \<and> node_ip_addr (f x) = node_ip_addr x"
    "db t = (db s)\<lparr>nodes := update_where (\<lambda>x. node_id x = n) f (nodes (db s))\<rparr>" by blast
  with h 2 assms(1,2) show ?thesis
    by (auto simp: handle_heartbeat_def andthen_apply pong_of_def map_update_where)
next
  case (3 w' n' i seg)
  then have h: "index_segment n seg s = (res, t)" using assms(3) by simp
  with index_segment_effect [OF h] 3 assms(1,2) show ?thesis
    by (auto simp: index_segment_def andthen_apply Let_def pong_of_def)
next
  case (4 w' n' i e)
  then have h: "index_event w n e s = (res, t)" using assms(3) by simp
  with index_event_effect [OF h] 4 assms(1,2) show ?thesis
    by (auto simp: index_event_def andthen_apply pong_of_def split: sum.splits)
next
  case (5 w' n' i p)
  then have h: "update_segment_uri p s = (res, t)" using assms(3) by simp
  with migrated_effect [OF h] 5 assms(1,2) show ?thesis
    by (auto simp: update_segment_uri_def andthen_apply pong_of_def)
next
  case (6 w' n' i)
  with assms show ?thesis by (auto simp: push_to_node_def send_def pong_of_def)
qed (use assms in \<open>auto simp: pong_of_def\<close>)

lemma socket_loop_sent:
  "map_of (node_txs s) n = Some c \<Longrightarrow> node_chans s c = Some q \<Longrightarrow>
   \<exists>t k. socket_loop n c es sent s = (Inr (sent @ take k (q @ pongs es)), t) \<and>
     served (length q) es k \<and>
     map (\<lambda>x. (node_id x, node_ip_addr x)) (nodes (db t)) =
       map (\<lambda>x. (node_id x, node_ip_addr x)) (nodes (db s))"
proof (induction n c es sent arbitrary: s q rule: socket_loop.induct)
  case (1 n c sent)
  have "served (length q) [] 0" by (simp add: served_def)
  then show ?case by (auto intro!: exI [of _ 0])
next
  case (2 n c w m es sent)
  obtain r u where h: "handle_incoming w n m s = (r, u)" by fastforce
  note u = incoming_chan [OF 2(2,3) h]
  from 2(1) [of u "q @ pong_of (w, Text_frame m)"] u h
  obtain t k where t: "socket_loop n c es sent u = (Inr (sent @ take k ((q @ pong_of (w, Text_frame m)) @ pongs es)), t)"
    "served (length q + length (pong_of (w, Text_frame m))) es k"
    "map (\<lambda>x. (node_id x, node_ip_addr x)) (nodes (db t)) = map (\<lambda>x. (node_id x, node_ip_addr x)) (nodes (db u))"
    by auto
  from served_frame [OF t(2)] have "served (length q) ((w, Text_frame m) # es) k" by simp
  with t u h show ?case
    by (intro exI [of _ t] exI [of _ k]) (simp add: andthen_apply)
next
  case (3 n c w es sent)
  have p: "pong_of (w, Other_frame) = []" by (simp add: pong_of_def)
  from 3(1) [OF 3(2,3)] served_frame [of "length q" "(w, Other_frame)" es] show ?case by (auto simp: p)
next
  case (4 n c w es sent)
  have "served (length q) ((w, Stream_end) # es) 0" by (rule served_ends) simp
  then show ?case by (auto intro!: exI [of _ 0])
next
  case (5 n c w ok es sent)
  have p: "pong_of (w, Outgoing b) = []" for b by (simp add: pong_of_def)
  show ?case
  proof (cases q)
    case Nil
    from 5(1) [OF 5(4,5)] 5(5) Nil obtain t k where t: "socket_loop n c es sent s = (Inr (sent @ take k (pongs es)), t)"
      "served 0 es k" "map (\<lambda>x. (node_id x, node_ip_addr x)) (nodes (db t)) =
         map (\<lambda>x. (node_id x, node_ip_addr x)) (nodes (db s))" by auto
    have "served 0 ((w, Outgoing ok) # es) k"
      using served_turn(2) [OF t(2)] served_ends by (cases ok) simp_all
    with t Nil 5(5) show ?thesis
      by (intro exI [of _ t] exI [of _ k]) (simp add: andthen_apply p)
  next
    case (Cons m ms)
    let ?s = "s\<lparr>node_chans := (node_chans s)(c := Some ms)\<rparr>"
    show ?thesis
    proof (cases ok)
      case True
      from 5(3) [OF True, of ?s ms m] 5(4)
      obtain t k where t: "socket_loop n c es (sent @ [m]) ?s =
          (Inr ((sent @ [m]) @ take k (ms @ pongs es)), t)" "served (length ms) es k"
        "map (\<lambda>x. (node_id x, node_ip_addr x)) (nodes (db t)) =
         map (\<lambda>x. (node_id x, node_ip_addr x)) (nodes (db s))" by auto
      have "served (length q) ((w, Outgoing ok) # es) (Suc k)"
        using served_turn(1) [OF t(2)] True Cons by simp
      with t True Cons 5(5) show ?thesis
        by (intro exI [of _ t] exI [of _ "Suc k"]) (simp add: andthen_apply p)
    next
      case False
      have "served (length q) ((w, Outgoing ok) # es) 0" by (rule served_ends) (simp add: False)
      with False Cons 5(5) show ?thesis by (auto simp: andthen_apply p intro!: exI [of _ 0])
    qed
  qed
qed

text \<open>
  C37. A connected node gets its cameras first and its pongs in order: the first message
  \<open>handle_socket\<close> writes is the \<open>ConfigSync\<close> with the cameras assigned to the node, whether or
  not the node is approved; after it come the answers to the node's pings in their order, and
  every one of them that the loop has a turn for: where the connection has neither ended nor
  failed during \<open>fs\<close> and then \<open>gs\<close>, as many of the pongs asked for in \<open>fs\<close> are written as the
  channel has turns in \<open>gs\<close>, all of them if it has enough. The address of the node is stored before
  the first message is read and no message of the node changes it; at the end the node is
  offline and its channel closed.
\<close>

theorem handle_socket_greets:
  assumes "faults s = []" and "db_ok (db s)" and "node \<in> set (nodes (db s))"
    and "parse_inet w ip = Some a"
    and "handle_socket w (node_id node) ip c es w2 s = (res, t)"
  shows "\<exists>k. res = Inr (ConfigSync 0 (node_config (node_id node) (db s)) # take k (pongs es)) \<and>
    (\<forall>fs gs hs. es = fs @ gs @ hs \<longrightarrow> lasting (fs @ gs) \<longrightarrow> min (length (pongs fs)) (turns gs) \<le> k) \<and>
    \<not> online (node_id node) t \<and> node_chans t c = None \<and>
    (\<exists>m \<in> set (nodes (db t)). node_id m = node_id node \<and> node_ip_addr m = Some a)"
proof -
  let ?n = "node_id node"
  let ?s1 = "attach_socket ?n c s"
  let ?f = "\<lambda>m. m\<lparr>node_last_seen_at := Some (db_now w), node_ip_addr := Some a, node_updated_at := db_now w\<rparr>"
  let ?d = "(db s)\<lparr>nodes := update_where (\<lambda>m. node_id m = ?n) ?f (nodes (db s))\<rparr>"
  let ?s2 = "broadcast_dashboard (online_update w ?n True) (?s1\<lparr>db := ?d\<rparr>)"
  have save: "save_node_seen w ?n ip (db s) = Inr (Some (?f node), ?d)"
    using update_node_Some [OF assms(2,3) refl, of ?f] by (simp add: save_node_seen_def assms(4))
  have greet: "greet_socket w ?n ip ?s1 = (Inr [config_sync (node_config ?n (db s))], ?s2)"
    using assms(1) save by (simp add: greet_socket_def prog_simps)
  have "map_of (node_txs ?s2) ?n = Some c" "node_chans ?s2 c = Some []"
    by (simp_all add: attach_socket_def)
  from socket_loop_sent [OF this, of es "[config_sync (node_config ?n (db s))]"]
  obtain u k where loop:
    "socket_loop ?n c es [config_sync (node_config ?n (db s))] ?s2 =
       (Inr (config_sync (node_config ?n (db s)) # take k (pongs es)), u)" "served 0 es k"
    "map (\<lambda>x. (node_id x, node_ip_addr x)) (nodes (db u)) =
       map (\<lambda>x. (node_id x, node_ip_addr x)) (nodes ?d)" by auto
  have "?f node \<in> set (nodes ?d)"
    using assms(3) by (auto simp: set_update_where)
  then have "(node_id (?f node), node_ip_addr (?f node)) \<in> set (map (\<lambda>x. (node_id x, node_ip_addr x)) (nodes ?d))"
    unfolding set_map by (rule imageI)
  then have "(?n, Some a) \<in> set (map (\<lambda>x. (node_id x, node_ip_addr x)) (nodes ?d))" by simp
  then have "\<exists>m \<in> set (nodes (db u)). node_id m = ?n \<and> node_ip_addr m = Some a"
    unfolding loop(3) [symmetric] by auto
  moreover have "map_of (filter (\<lambda>e. fst e \<noteq> ?n) xs) ?n = None" for xs :: "(uuid \<times> nat) list"
    by (induction xs) auto
  moreover have "res = Inr (config_sync (node_config ?n (db s)) # take k (pongs es))"
    "t = detach_socket w2 ?n c u"
    using assms(5) greet loop(1) by (auto simp: handle_socket_def andthen_apply)
  moreover have "\<forall>fs gs hs. es = fs @ gs @ hs \<longrightarrow> lasting (fs @ gs) \<longrightarrow> min (length (pongs fs)) (turns gs) \<le> k"
    using loop(2) by (simp add: served_def)
  ultimately show ?thesis
    by (intro exI [of _ k] conjI)
      (auto simp: config_sync_def detach_socket_def online_def Let_def broadcast_dashboard_def)
qed

theorem handle_socket_greets_witness:
  "\<exists>t. handle_socket sample_ext 20 ''10.0.0.9'' 8
       [(sample_ext, Text_frame (Some (Ping 5))), (sample_ext, Outgoing True)] sample_ext sample_app =
         (Inr [ConfigSync 0 [node_camera_config sample_camera], Pong 5], t) \<and> \<not> online 20 t"
proof -
  let ?es = "[(sample_ext, Text_frame (Some (Ping 5))), (sample_ext, Outgoing True)]"
  obtain res t where h: "handle_socket sample_ext 20 ''10.0.0.9'' 8 ?es sample_ext sample_app = (res, t)"
    by fastforce
  have n: "node_id sample_node = 20" by (simp add: sample_node_def)
  have p: "parse_inet sample_ext ''10.0.0.9'' = Some \<lparr>inet_host = ''10.0.0.9'', inet_masklen = 32\<rparr>"
    by (simp add: sample_ext_def)
  have c: "node_config 20 sample_db = [node_camera_config sample_camera]" "pongs ?es = [Pong 5]"
    by (simp_all add: node_config_def cameras_of_def sample_camera_def pong_of_def)
  obtain k where k: "res = Inr (ConfigSync 0 [node_camera_config sample_camera] # take k [Pong 5])"
    "\<not> online 20 t" and
    all: "\<forall>fs gs hs. ?es = fs @ gs @ hs \<longrightarrow> lasting (fs @ gs) \<longrightarrow> min (length (pongs fs)) (turns gs) \<le> k"
    using handle_socket_greets [of sample_app sample_node, OF _ _ _ p, of 8 ?es sample_ext res t] h n
    unfolding c(2) by (simp add: c(1)) blast
  have "lasting ([hd ?es] @ tl ?es)" "turns (tl ?es) = 1" "pongs [hd ?es] = [Pong 5]"
    by (simp_all add: lasting_def turns_def pong_of_def)
  with all [rule_format, of "[hd ?es]" "tl ?es" "[]"] have "1 \<le> k" by simp
  then have "take k [Pong 5] = [Pong 5]" by (cases k) simp_all
  with h k show ?thesis by auto
qed

end
