(* ===== verification/Presign.thy ===== *)
theory Presign
  imports NodeSocket
begin

text \<open>
  Presigned URLs for segments in S3 (\<open>coordinator/src/storage.rs\<close>). SHA-256, HMAC, hexadecimal
  and the formatting of times are parameters of the outside world.
\<close>

record s3_config =
  s3_endpoint :: string
  s3_key_id :: string
  s3_secret_key :: string
  s3_region :: string
  s3_path_style :: bool

definition env_flag :: "ext \<Rightarrow> string \<Rightarrow> bool \<Rightarrow> bool" where
  "env_flag w name dflt =
     (case env_var w name of
        None \<Rightarrow> dflt
      | Some v \<Rightarrow> v = ''1'' \<or> map ascii_lower v = ''true'')"

definition s3_from_env :: "ext \<Rightarrow> s3_config option" where
  "s3_from_env w =
     Option.bind (env_var w ''S3_ENDPOINT'') (\<lambda>endpoint.
     Option.bind (env_var w ''S3_KEY_ID'') (\<lambda>key_id.
     Option.bind (env_var w ''S3_SECRET_KEY'') (\<lambda>secret.
     Some \<lparr>s3_endpoint = endpoint, s3_key_id = key_id, s3_secret_key = secret,
           s3_region = (case env_var w ''S3_REGION'' of None \<Rightarrow> ''us-east-1'' | Some r \<Rightarrow> r),
           s3_path_style = env_flag w ''S3_PATH_STYLE'' True\<rparr>)))"

definition sha256_hex :: "ext \<Rightarrow> string \<Rightarrow> string" where
  "sha256_hex w d = hex_encode w (sha256 w d)"

definition signing_key :: "ext \<Rightarrow> string \<Rightarrow> string \<Rightarrow> string \<Rightarrow> string" where
  "signing_key w secret date region =
     (let k_date = hmac w (''AWS4'' @ secret) date;
          k_region = hmac w k_date region;
          k_service = hmac w k_region ''s3''
      in hmac w k_service ''aws4_request'')"

text \<open>\<open>{b:02X}\<close>, and the unreserved characters of RFC 3986.\<close>

definition hex_digit :: "nat \<Rightarrow> char" where
  "hex_digit n = (if n < 10 then char_of (48 + n) else char_of (55 + n))"

definition hex_byte :: "char \<Rightarrow> string" where
  "hex_byte c = [hex_digit (of_char c div 16), hex_digit (of_char c mod 16)]"

definition unreserved :: "char \<Rightarrow> bool" where
  "unreserved c \<longleftrightarrow>
     (let n = of_char c :: nat in
      65 \<le> n \<and> n \<le> 90 \<or> 97 \<le> n \<and> n \<le> 122 \<or> 48 \<le> n \<and> n \<le> 57 \<or>
      c \<in> {CHR ''-'', CHR ''_'', CHR ''.'', CHR ''~''})"

definition percent_encode :: "string \<Rightarrow> string" where
  "percent_encode s = concat (map (\<lambda>b. if unreserved b then [b] else CHR ''%'' # hex_byte b) s)"

text \<open>\<open>&endpoint[scheme_end..]\<close> with \<open>scheme_end\<close> behind the first \<open>://\<close>.\<close>

definition scheme_end :: "string \<Rightarrow> nat" where
  "scheme_end endpoint = (case find_str ''://'' endpoint of None \<Rightarrow> 0 | Some i \<Rightarrow> i + 3)"

definition presign_target :: "s3_config \<Rightarrow> string \<Rightarrow> string \<Rightarrow> string \<times> string" where
  "presign_target cfg bucket key =
     (let endpoint = trim_end_matches CHR ''/'' (s3_endpoint cfg);
          host_part = drop (scheme_end endpoint) endpoint
      in if s3_path_style cfg then (host_part, ''/'' @ bucket @ ''/'' @ key)
         else (bucket @ ''.'' @ host_part, ''/'' @ key))"

definition credential_scope :: "s3_config \<Rightarrow> string \<Rightarrow> string" where
  "credential_scope cfg date = date @ ''/'' @ s3_region cfg @ ''/s3/aws4_request''"

definition canonical_qs :: "s3_config \<Rightarrow> string \<Rightarrow> string \<Rightarrow> nat \<Rightarrow> string" where
  "canonical_qs cfg date datetime expires_secs =
     ''X-Amz-Algorithm=AWS4-HMAC-SHA256'' @
     ''&X-Amz-Credential='' @ percent_encode (s3_key_id cfg @ ''/'' @ credential_scope cfg date) @
     ''&X-Amz-Date='' @ datetime @ ''&X-Amz-Expires='' @ show_nat expires_secs @
     ''&X-Amz-SignedHeaders=host''"

definition canonical_request :: "string \<Rightarrow> string \<Rightarrow> string \<Rightarrow> string" where
  "canonical_request host path qs =
     ''GET'' @ nl @ path @ nl @ qs @ nl @ ''host:'' @ host @ nl @ nl @ ''host'' @ nl @
     ''UNSIGNED-PAYLOAD''"

definition string_to_sign :: "ext \<Rightarrow> s3_config \<Rightarrow> string \<Rightarrow> string \<Rightarrow> string \<Rightarrow> string" where
  "string_to_sign w cfg date datetime request =
     ''AWS4-HMAC-SHA256'' @ nl @ datetime @ nl @ credential_scope cfg date @ nl @
     sha256_hex w request"

definition presigned_get :: "ext \<Rightarrow> string \<Rightarrow> nat \<Rightarrow> string option" where
  "presigned_get w storage_uri expires_secs =
     Option.bind (s3_from_env w) (\<lambda>cfg.
     Option.bind (strip_prefix ''s3://'' storage_uri) (\<lambda>rest.
     Option.bind (find_str ''/'' rest) (\<lambda>slash.
     let bucket = take slash rest;
         key = drop (slash + 1) rest;
         datetime = strftime w ''%Y%m%dT%H%M%SZ'' (utc_now w);
         date = strftime w ''%Y%m%d'' (utc_now w);
         (host, path) = presign_target cfg bucket key;
         qs = canonical_qs cfg date datetime expires_secs;
         signature = hex_encode w (hmac w (signing_key w (s3_secret_key cfg) date (s3_region cfg))
           (string_to_sign w cfg date datetime (canonical_request host path qs)));
         scheme = (if starts_with ''https://'' (trim_end_matches CHR ''/'' (s3_endpoint cfg))
                   then ''https'' else ''http'')
     in Some (scheme @ ''://'' @ host @ path @ ''?'' @ qs @ ''&X-Amz-Signature='' @ signature))))"

section \<open>Encoding of query values\<close>

text \<open>The inverse: \<open>%XY\<close> back to a byte.\<close>

definition hex_value :: "char \<Rightarrow> nat" where
  "hex_value c = (let n = of_char c in if n \<le> 57 then n - 48 else n - 55)"

fun percent_decode :: "string \<Rightarrow> string" where
  "percent_decode (p # a # b # s) =
     (if p = CHR ''%'' then char_of (16 * hex_value a + hex_value b) # percent_decode s
      else p # percent_decode (a # b # s))"
| "percent_decode s = s"

lemma hex_value_digit: "n < 16 \<Longrightarrow> hex_value (hex_digit n) = n"
  by (auto simp: hex_value_def hex_digit_def Let_def)

lemma hex_byte_value:
  "hex_byte c = [a, b] \<Longrightarrow> 16 * hex_value a + hex_value b = of_char c"
  using nat_of_char_less_256 [of c]
  by (auto simp: hex_byte_def hex_value_digit less_mult_imp_div_less)

lemma percent_decode_plain: "p \<noteq> CHR ''%'' \<Longrightarrow> percent_decode (p # s) = p # percent_decode s"
  by (cases s; cases "tl s") auto

lemma percent_unreserved: "\<not> unreserved CHR ''%''"
  by (simp add: unreserved_def)

lemma percent_decode_encode: "percent_decode (percent_encode s) = s"
proof (induction s)
  case Nil
  then show ?case by (simp add: percent_encode_def)
next
  case (Cons c s)
  have enc: "percent_encode (c # s) =
      (if unreserved c then [c] else CHR ''%'' # hex_byte c) @ percent_encode s"
    by (simp add: percent_encode_def)
  show ?case
  proof (cases "unreserved c")
    case True
    with percent_unreserved have "c \<noteq> CHR ''%''" by auto
    with True Cons enc show ?thesis by (simp add: percent_decode_plain)
  next
    case False
    obtain a b where ab: "hex_byte c = [a, b]" by (simp add: hex_byte_def)
    with hex_byte_value have "char_of (16 * hex_value a + hex_value b) = c" by simp
    with False Cons enc ab show ?thesis by simp
  qed
qed

end
