(* ===== verification/SigV4.thy ===== *)
theory SigV4
  imports Presign
begin

text \<open>
  Uploads of segments to S3 by a node (\<open>node/src/storage/sigv4.rs\<close>). The file repeats
  \<open>hmac_sha256\<close>, \<open>sha256_hex\<close> and \<open>signing_key\<close> of the coordinator word for word; the model uses
  the definitions of \<open>Presign\<close> for both. A map of headers is its sorted list.
\<close>

record node_s3_config =
  ns_endpoint :: string
  ns_bucket :: string
  ns_key_id :: string
  ns_secret_key :: string
  ns_region :: string
  ns_path_style :: bool

definition node_s3_from_env :: "ext \<Rightarrow> node_s3_config option" where
  "node_s3_from_env w =
     Option.bind (env_var w ''S3_ENDPOINT'') (\<lambda>endpoint.
     Option.bind (env_var w ''S3_BUCKET'') (\<lambda>bucket.
     Option.bind (env_var w ''S3_KEY_ID'') (\<lambda>key_id.
     Option.bind (env_var w ''S3_SECRET_KEY'') (\<lambda>secret.
     Some \<lparr>ns_endpoint = endpoint, ns_bucket = bucket, ns_key_id = key_id, ns_secret_key = secret,
           ns_region = (case env_var w ''S3_REGION'' of None \<Rightarrow> ''us-east-1'' | Some r \<Rightarrow> r),
           ns_path_style = env_flag w ''S3_PATH_STYLE'' True\<rparr>))))"

definition object_url :: "node_s3_config \<Rightarrow> string \<Rightarrow> string" where
  "object_url cfg key =
     (let endpoint = trim_end_matches CHR ''/'' (ns_endpoint cfg) in
      if ns_path_style cfg
      then endpoint @ ''/'' @ ns_bucket cfg @ ''/'' @ trim_start_matches CHR ''/'' key
      else let e = scheme_end endpoint in
           take e endpoint @ ns_bucket cfg @ ''.'' @ drop e endpoint @ ''/'' @
           trim_start_matches CHR ''/'' key)"

definition s3_host :: "node_s3_config \<Rightarrow> string" where
  "s3_host cfg =
     (let endpoint = trim_end_matches CHR ''/'' (ns_endpoint cfg);
          host_part = drop (scheme_end endpoint) endpoint
      in if ns_path_style cfg then host_part else ns_bucket cfg @ ''.'' @ host_part)"

definition put_path :: "node_s3_config \<Rightarrow> string \<Rightarrow> string" where
  "put_path cfg key =
     (if ns_path_style cfg then ''/'' @ ns_bucket cfg @ ''/'' @ trim_start_matches CHR ''/'' key
      else ''/'' @ trim_start_matches CHR ''/'' key)"

definition put_request :: "string \<Rightarrow> string \<Rightarrow> string \<Rightarrow> string \<Rightarrow> string" where
  "put_request path host payload_hash datetime =
     ''PUT'' @ nl @ path @ nl @ nl @
     ''content-type:video/mp4'' @ nl @ ''host:'' @ host @ nl @
     ''x-amz-content-sha256:'' @ payload_hash @ nl @ ''x-amz-date:'' @ datetime @ nl @ nl @
     ''content-type;host;x-amz-content-sha256;x-amz-date'' @ nl @ payload_hash"

definition signed_put_headers ::
  "ext \<Rightarrow> node_s3_config \<Rightarrow> string \<Rightarrow> string \<Rightarrow> (string \<times> string) list" where
  "signed_put_headers w cfg key body =
     (let datetime = strftime w ''%Y%m%dT%H%M%SZ'' (utc_now w);
          date = strftime w ''%Y%m%d'' (utc_now w);
          host = s3_host cfg;
          payload_hash = sha256_hex w body;
          scope = date @ ''/'' @ ns_region cfg @ ''/s3/aws4_request'';
          to_sign = ''AWS4-HMAC-SHA256'' @ nl @ datetime @ nl @ scope @ nl @
            sha256_hex w (put_request (put_path cfg key) host payload_hash datetime);
          signature = hex_encode w
            (hmac w (signing_key w (ns_secret_key cfg) date (ns_region cfg)) to_sign)
      in [(''authorization'', ''AWS4-HMAC-SHA256 Credential='' @ ns_key_id cfg @ ''/'' @ scope @
             '', SignedHeaders=content-type;host;x-amz-content-sha256;x-amz-date, Signature='' @
             signature),
          (''content-type'', ''video/mp4''), (''host'', host),
          (''x-amz-content-sha256'', payload_hash), (''x-amz-date'', datetime)])"

section \<open>Both sides name the same object\<close>

lemma trim_end_append:
  "trim_end_matches c t \<noteq> [] \<Longrightarrow> trim_end_matches c (s @ t) = s @ trim_end_matches c t"
proof -
  have "dropWhile P (r @ q) = dropWhile P r @ q" if "dropWhile P r \<noteq> []" for P and r q :: string
    using that by (induction r) auto
  then show "trim_end_matches c t \<noteq> [] \<Longrightarrow> trim_end_matches c (s @ t) = s @ trim_end_matches c t"
    by (simp add: trim_end_matches_def)
qed

lemma find_str_app:
  "\<forall>x \<in> set s. x \<noteq> hd p \<Longrightarrow> p \<noteq> [] \<Longrightarrow> find_str p (s @ p @ t) = Some (length s)"
proof (induction s)
  case Nil
  then show ?case by (cases p) auto
next
  case (Cons a s)
  then show ?case by (cases p) auto
qed

lemma scheme_end_http:
  "s \<in> {''http'', ''https''} \<Longrightarrow> scheme_end (s @ ''://'' @ t) = length s + 3"
  using find_str_app [of s "''://''" t] by (auto simp: scheme_end_def)

lemma trim_start_id: "\<not> starts_with [c] s \<Longrightarrow> trim_start_matches c s = s"
  by (cases s) (auto simp: trim_start_matches_def)

text \<open>
  C38. The coordinator's presigned URL names the object the node uploaded: for the storage URI
  that a node reports after an upload, and the same endpoint, region and addressing style on
  both sides, \<open>presigned_get\<close> answers exactly the URL of the node's \<open>PUT\<close>, followed by the
  query that was signed and the signature; the canonical request of that signature is for the
  path and the host that the node signed.
\<close>

theorem presigned_gets_what_was_put:
  assumes "s3_from_env w = Some cfg" and "s3_endpoint cfg = ns_endpoint nc"
    and "s3_path_style cfg = ns_path_style nc"
    and "ns_endpoint nc = scheme @ ''://'' @ rest" and "scheme \<in> {''http'', ''https''}"
    and "trim_end_matches CHR ''/'' rest \<noteq> []"
    and "CHR ''/'' \<notin> set (ns_bucket nc)" and "\<not> starts_with ''/'' key"
  shows "\<exists>qs signature.
    presigned_get w (''s3://'' @ ns_bucket nc @ ''/'' @ key) expires =
      Some (object_url nc key @ ''?'' @ qs @ ''&X-Amz-Signature='' @ signature) \<and>
    signature = hex_encode w
      (hmac w (signing_key w (s3_secret_key cfg) (strftime w ''%Y%m%d'' (utc_now w)) (s3_region cfg))
        (string_to_sign w cfg (strftime w ''%Y%m%d'' (utc_now w))
          (strftime w ''%Y%m%dT%H%M%SZ'' (utc_now w))
          (canonical_request (s3_host nc) (put_path nc key) qs)))"
proof -
  let ?d = "strftime w ''%Y%m%d'' (utc_now w)" and ?t = "strftime w ''%Y%m%dT%H%M%SZ'' (utc_now w)"
  let ?qs = "canonical_qs cfg ?d ?t expires"
  let ?host = "trim_end_matches CHR ''/'' rest"
  have slash: "find_str ''/'' (ns_bucket nc @ ''/'' @ key) = Some (length (ns_bucket nc))"
    using find_str_app [of "ns_bucket nc" "''/''" key] assms(7) by auto
  have "trim_end_matches CHR ''/'' (ns_endpoint nc) = (scheme @ ''://'') @ ?host"
    using trim_end_append [OF assms(6), of "scheme @ ''://''"] assms(4) by simp
  then have ep: "trim_end_matches CHR ''/'' (ns_endpoint nc) = scheme @ ''://'' @ ?host" by simp
  have se: "scheme_end (scheme @ ''://'' @ ?host) = length (scheme @ ''://'')"
    using scheme_end_http [OF assms(5)] by simp
  have host: "drop (length (scheme @ ''://'')) (scheme @ ''://'' @ ?host) = ?host"
    "take (length (scheme @ ''://'')) (scheme @ ''://'' @ ?host) = scheme @ ''://''"
    using append_eq_conv_conj [of "scheme @ ''://''" "?host"] by auto
  have tgt: "presign_target cfg (ns_bucket nc) key = (s3_host nc, put_path nc key)"
    by (simp only: presign_target_def s3_host_def put_path_def Let_def assms(2,3) ep se host
        trim_start_id [OF assms(8)] split: if_split) simp
  have url: "object_url nc key = scheme @ ''://'' @ s3_host nc @ put_path nc key"
    unfolding object_url_def s3_host_def put_path_def Let_def ep se host
    by (simp add: trim_start_id [OF assms(8)])
  have "starts_with ''https://'' (scheme @ ''://'' @ ?host) = (scheme = ''https'')"
    using assms(5) by auto
  then have sch: "(if starts_with ''https://'' (trim_end_matches CHR ''/'' (s3_endpoint cfg))
      then ''https'' else ''http'') = scheme"
    using assms(5) unfolding assms(2) ep by auto
  have cut: "take (length (ns_bucket nc)) (ns_bucket nc @ ''/'' @ key) = ns_bucket nc"
    "drop (length (ns_bucket nc) + 1) (ns_bucket nc @ ''/'' @ key) = key" by simp_all
  have "presigned_get w (''s3://'' @ ns_bucket nc @ ''/'' @ key) expires =
      Some (scheme @ ''://'' @ s3_host nc @ put_path nc key @ ''?'' @ ?qs @ ''&X-Amz-Signature='' @
        hex_encode w (hmac w (signing_key w (s3_secret_key cfg) ?d (s3_region cfg))
          (string_to_sign w cfg ?d ?t (canonical_request (s3_host nc) (put_path nc key) ?qs))))"
    unfolding presigned_get_def assms(1) strip_prefix_append slash Option.bind.bind_lunit cut tgt sch Let_def
    by simp
  then show ?thesis unfolding url by (auto intro!: exI [of _ ?qs])
qed

definition sample_env :: "string \<Rightarrow> string option" where
  "sample_env = map_of [(''S3_ENDPOINT'', ''http://minio:9000''), (''S3_BUCKET'', ''cams''),
     (''S3_KEY_ID'', ''id''), (''S3_SECRET_KEY'', ''sec'')]"

definition sample_s3_ext :: ext where
  "sample_s3_ext = sample_ext\<lparr>env_var := sample_env\<rparr>"

theorem presigned_gets_what_was_put_witness:
  "\<exists>nc q. node_s3_from_env sample_s3_ext = Some nc \<and>
     object_url nc ''door/x.mp4'' = ''http://minio:9000/cams/door/x.mp4'' \<and>
     presigned_get sample_s3_ext ''s3://cams/door/x.mp4'' 3600 =
       Some (''http://minio:9000/cams/door/x.mp4?'' @ q)"
proof -
  let ?nc = "\<lparr>ns_endpoint = ''http://minio:9000'', ns_bucket = ''cams'', ns_key_id = ''id'',
    ns_secret_key = ''sec'', ns_region = ''us-east-1'', ns_path_style = True\<rparr>"
  let ?cfg = "\<lparr>s3_endpoint = ''http://minio:9000'', s3_key_id = ''id'', s3_secret_key = ''sec'',
    s3_region = ''us-east-1'', s3_path_style = True\<rparr>"
  have e: "node_s3_from_env sample_s3_ext = Some ?nc" "s3_from_env sample_s3_ext = Some ?cfg"
    by (simp_all add: node_s3_from_env_def s3_from_env_def sample_s3_ext_def sample_env_def env_flag_def)
  have u: "object_url ?nc ''door/x.mp4'' = ''http://minio:9000/cams/door/x.mp4''"
    by (simp add: object_url_def trim_end_matches_def trim_start_matches_def)
  from presigned_gets_what_was_put [OF e(2), of ?nc "''http''" "''minio:9000''" "''door/x.mp4''" 3600]
  show ?thesis using e u by (auto simp: trim_end_matches_def)
qed

end
