(* ===== verification/Playback.thy ===== *)
theory Playback
  imports SigV4 "HOL-Library.Multiset"
begin

text \<open>
  Reading recordings and events: the timeline queries, segments and clips proxied from the
  owning node (\<open>coordinator/src/routes/playback.rs\<close>, \<open>events.rs\<close>), the WebRTC proxy (\<open>whep.rs\<close>), and
  the sockets of dashboards (\<open>dashboard_ws.rs\<close>).
\<close>

section \<open>Timelines\<close>

record recording_segment =
  rsg_id :: uuid
  rsg_started_at :: time
  rsg_ended_at :: time
  rsg_duration_secs :: i32
  rsg_size_bytes :: i64

definition recording_segment_of :: "recording \<Rightarrow> recording_segment" where
  "recording_segment_of r =
     \<lparr>rsg_id = rec_id r, rsg_started_at = rec_started_at r,
      rsg_ended_at = coalesce (rec_ended_at r) (rec_started_at r + seconds 60),
      rsg_duration_secs = coalesce (rec_duration_secs r) 60,
      rsg_size_bytes = coalesce (rec_size_bytes r) 0\<rparr>"

text \<open>\<open>WHERE .. >= from AND .. < to ORDER BY .. LIMIT n\<close>\<close>

definition time_window :: "('r \<Rightarrow> time) \<Rightarrow> nat \<Rightarrow> time \<Rightarrow> time \<Rightarrow> 'r list \<Rightarrow> 'r list" where
  "time_window k n from_t to_t rs =
     take n (sort_key k (filter (\<lambda>r. from_t \<le> k r \<and> k r < to_t) rs))"

definition list_recordings ::
  "current_user \<Rightarrow> uuid \<Rightarrow> time \<Rightarrow> time \<Rightarrow> recording_segment list handler" where
  "list_recordings me cam from_t to_t =
     andthen (sqlq (query (\<lambda>d. time_window rec_started_at 10000 from_t to_t
       (filter (\<lambda>r. rec_camera_id r = cam) (recordings d))))) (\<lambda>rows.
     ret (map recording_segment_of rows))"

record event_row =
  er_id :: uuid
  er_camera_id :: uuid
  er_occurred_at :: time
  er_source :: string
  er_score :: "f32 option"

definition list_camera_events ::
  "current_user \<Rightarrow> uuid \<Rightarrow> time \<Rightarrow> time \<Rightarrow> event_row list handler" where
  "list_camera_events me cam from_t to_t =
     andthen (sqlq (query (\<lambda>d. time_window ev_occurred_at 5000 from_t to_t
       (filter (\<lambda>e. ev_camera_id e = cam \<and> ev_type e = Motion) (events d))))) (\<lambda>rows.
     ret (map (\<lambda>e. \<lparr>er_id = ev_id e, er_camera_id = cam, er_occurred_at = ev_occurred_at e,
       er_source = (case ev_source e of None \<Rightarrow> ''unknown'' | Some s \<Rightarrow> s), er_score = ev_score e\<rparr>) rows))"

section \<open>Segments and clips\<close>

record response =
  resp_status :: nat
  resp_headers :: "(string \<times> string) list"
  resp_body :: string

definition env_port :: "ext \<Rightarrow> string \<Rightarrow> nat \<Rightarrow> nat" where
  "env_port w name dflt =
     (case Option.bind (env_var w name) (parse_unsigned 65535) of None \<Rightarrow> dflt | Some p \<Rightarrow> p)"

definition node_http_port :: "ext \<Rightarrow> nat" where
  "node_http_port w = env_port w ''NODE_HTTP_PORT'' 8890"

definition encode_ts :: "string \<Rightarrow> string" where
  "encode_ts s = replace_char CHR ''+'' ''%2B'' s"

definition status_from :: "nat \<Rightarrow> nat" where
  "status_from n = (if 100 \<le> n \<and> n \<le> 999 then n else 502)"

definition forwarded_headers :: "string list" where
  "forwarded_headers =
     [''content-type'', ''content-range'', ''accept-ranges'', ''content-length'', ''content-disposition'']"

definition proxy_get :: "ext \<Rightarrow> string \<Rightarrow> string option \<Rightarrow> response handler" where
  "proxy_get w node_url rng =
     andthen (ok_or Internal (http w
       \<lparr>rq_method = ''GET'', rq_url = node_url,
        rq_headers = (case Option.bind rng header_to_str of None \<Rightarrow> [] | Some v \<Rightarrow> [(''Range'', v)]),
        rq_body = []\<rparr>)) (\<lambda>upstream.
     ret \<lparr>resp_status = status_from (rs_status upstream),
          resp_headers = concat (map (\<lambda>name.
            case map_of (rs_headers upstream) name of None \<Rightarrow> [] | Some v \<Rightarrow> [(name, v)])
              forwarded_headers),
          resp_body = rs_body upstream\<rparr>)"

text \<open>
  A row whose columns the code decodes as \<open>(String, String)\<close>: a \<open>NULL\<close> in the first row is an
  error of the query.
\<close>

definition fetch_strings :: "(string option \<times> string option) list \<Rightarrow> (string \<times> string) option stmt" where
  "fetch_strings rows d =
     (case rows of
        [] \<Rightarrow> Inr (None, d)
      | (a, b) # _ \<Rightarrow>
          (case (a, b) of
             (Some x, Some y) \<Rightarrow> Inr (Some (x, y), d)
           | _ \<Rightarrow> Inl Unexpected_null))"

definition segment_rows :: "ext \<Rightarrow> uuid \<Rightarrow> uuid \<Rightarrow> database \<Rightarrow> (string option \<times> string option) list" where
  "segment_rows w cam rid d =
     [(Some (rec_storage_uri r), map_option (inet_text w) (node_ip_addr n)).
        r \<leftarrow> recordings d, n \<leftarrow> nodes d,
        node_id n = rec_node_id r \<and> rec_id r = rid \<and> rec_camera_id r = cam]"

definition get_segment ::
  "ext \<Rightarrow> uuid \<Rightarrow> uuid \<Rightarrow> string \<Rightarrow> headers \<Rightarrow> response handler" where
  "get_segment w cam rid token hs =
     andthen (gets jwt) (\<lambda>j.
     andthen (ok_or Unauthorized (jwt_decode w j token)) (\<lambda>_.
     andthen (sqlq (\<lambda>d. fetch_strings (segment_rows w cam rid d) d)) (\<lambda>row.
     andthen (ok_or NotFound row) (\<lambda>(storage_uri, node_ip).
     if starts_with ''s3://'' storage_uri then
       andthen (ok_or Internal (presigned_get w storage_uri 3600)) (\<lambda>presigned.
       ret \<lparr>resp_status = 302, resp_headers = [(''location'', presigned)], resp_body = []\<rparr>)
     else
       let rel_path = (case strip_prefix ''local://'' storage_uri of
                         None \<Rightarrow> storage_uri | Some r \<Rightarrow> r);
           node_url = ''http://'' @ node_ip @ '':'' @ show_nat (node_http_port w) @ ''/segments/'' @
             rel_path
       in proxy_get w node_url (map_of hs ''range'')))))"

definition export_rows :: "ext \<Rightarrow> uuid \<Rightarrow> database \<Rightarrow> (string option \<times> string option) list" where
  "export_rows w cam d =
     [(cam_stream_path c, map_option (inet_text w) (node_ip_addr n)).
        c \<leftarrow> cameras d, n \<leftarrow> nodes d, node_id n = cam_node_id c \<and> cam_id c = cam]"

definition export_clip :: "ext \<Rightarrow> uuid \<Rightarrow> string \<Rightarrow> time \<Rightarrow> time \<Rightarrow> response handler" where
  "export_clip w cam token from_t to_t =
     andthen (gets jwt) (\<lambda>j.
     andthen (ok_or Unauthorized (jwt_decode w j token)) (\<lambda>_.
     andthen (sqlq (\<lambda>d. fetch_strings (export_rows w cam d) d)) (\<lambda>row.
     andthen (ok_or NotFound row) (\<lambda>(stream_path, node_ip).
     proxy_get w (''http://'' @ node_ip @ '':'' @ show_nat (node_http_port w) @
       ''/export?stream_path='' @ stream_path @ ''&from='' @ encode_ts (rfc3339 w from_t) @
       ''&to='' @ encode_ts (rfc3339 w to_t)) None))))"

section \<open>Live view\<close>

text \<open>\<open>HeaderMap::insert\<close> replaces what was there under the name.\<close>

definition header_insert :: "string \<Rightarrow> string \<Rightarrow> headers \<Rightarrow> headers" where
  "header_insert k v hs = filter (\<lambda>h. fst h \<noteq> k) hs @ [(k, v)]"

definition whep_rows :: "ext \<Rightarrow> uuid \<Rightarrow> database \<Rightarrow> (string option \<times> string option) list" where
  "whep_rows w cam d = export_rows w cam d"

text \<open>\<open>limit_error\<close> stands for the text of axum's error for a body over the limit.\<close>

definition whep_proxy ::
  "ext \<Rightarrow> string \<Rightarrow> current_user \<Rightarrow> uuid \<Rightarrow> headers \<Rightarrow> string \<Rightarrow> response handler" where
  "whep_proxy w limit_error me cam hs body =
     andthen (sqlq (query (\<lambda>d. fetch_optional (whep_rows w cam d)))) (\<lambda>row.
     andthen (ok_or NotFound row) (\<lambda>(path, ip).
     andthen (ok_or (BadRequest ''camera has no stream_path configured'') path) (\<lambda>stream_path.
     andthen (ok_or (BadRequest ''node IP not yet known'') ip) (\<lambda>node_ip.
     let whep_url = ''http://'' @ node_ip @ '':'' @
           show_nat (env_port w ''MEDIAMTX_WEBRTC_PORT'' 8889) @ ''/'' @ stream_path @ ''/whep'';
         content_type = (case header_str hs ''content-type'' of
                           None \<Rightarrow> ''application/sdp'' | Some v \<Rightarrow> v)
     in
     andthen (ensure (length body \<le> 64 * 1024) (BadRequest limit_error)) (\<lambda>_.
     andthen (ok_or Internal (http w
       \<lparr>rq_method = ''POST'', rq_url = whep_url, rq_headers = [(''Content-Type'', content_type)],
        rq_body = body\<rparr>)) (\<lambda>upstream.
     ret \<lparr>resp_status = status_from (rs_status upstream),
          resp_headers = header_insert ''access-control-allow-origin'' ''*''
            (fold (\<lambda>(k, v). header_insert k v) (rs_headers upstream) []),
          resp_body = rs_body upstream\<rparr>))))))"

definition whep_preflight :: response where
  "whep_preflight =
     \<lparr>resp_status = 204,
      resp_headers = [(''Access-Control-Allow-Origin'', ''*''),
        (''Access-Control-Allow-Methods'', ''POST, OPTIONS''),
        (''Access-Control-Allow-Headers'', ''Content-Type, Authorization'')],
      resp_body = []\<rparr>"

section \<open>Dashboards\<close>

fun status_text :: "node_status \<Rightarrow> string" where
  "status_text Pending = ''pending''"
| "status_text Approved = ''approved''"
| "status_text Rejected = ''rejected''"

definition build_snapshot :: "ext \<Rightarrow> database \<Rightarrow> json" where
  "build_snapshot w d = JObj
     [(''type'', JStr ''snapshot''),
      (''nodes'', JArr (map (\<lambda>n. JObj
         [(''id'', JStr (show_uuid w (node_id n))), (''name'', JStr (node_name n)),
          (''status'', JStr (status_text (node_status n))),
          (''last_seen_at'', json_opt (\<lambda>t. JStr (show_time w t)) (node_last_seen_at n))])
        (sort_key node_created_at (nodes d))))]"

definition attach_dashboard :: "uuid \<Rightarrow> nat \<Rightarrow> app \<Rightarrow> app" where
  "attach_dashboard i c s =
     s\<lparr>dash_txs := (i, c) # filter (\<lambda>e. fst e \<noteq> i) (dash_txs s),
       dash_chans := (dash_chans s)(c := Some [])\<rparr>"

definition detach_dashboard :: "uuid \<Rightarrow> nat \<Rightarrow> app \<Rightarrow> app" where
  "detach_dashboard i c s =
     s\<lparr>dash_txs := filter (\<lambda>e. fst e \<noteq> i) (dash_txs s),
       dash_chans := (dash_chans s)(c := None)\<rparr>"

datatype dash_event = Dash_frame | Dash_end | Dash_outgoing bool

fun dashboard_loop :: "nat \<Rightarrow> dash_event list \<Rightarrow> json list \<Rightarrow> json list handler" where
  "dashboard_loop c [] sent = ret sent"
| "dashboard_loop c (Dash_frame # es) sent = dashboard_loop c es sent"
| "dashboard_loop c (Dash_end # es) sent = ret sent"
| "dashboard_loop c (Dash_outgoing ok # es) sent =
     andthen (gets (\<lambda>s. dash_chans s c)) (\<lambda>q.
     case q of
       Some (m # ms) \<Rightarrow>
         andthen (modify (\<lambda>s. s\<lparr>dash_chans := (dash_chans s)(c := Some ms)\<rparr>)) (\<lambda>_.
         if ok then dashboard_loop c es (sent @ [m]) else ret sent)
     | _ \<Rightarrow> dashboard_loop c es sent)"

definition handle_dashboard :: "ext \<Rightarrow> nat \<Rightarrow> dash_event list \<Rightarrow> json list handler" where
  "handle_dashboard w c es =
     andthen (modify (attach_dashboard (fresh_uuid w) c)) (\<lambda>_.
     andthen (attempt (sql (query (build_snapshot w)))) (\<lambda>r.
     andthen (dashboard_loop c es (case r of Inl _ \<Rightarrow> [] | Inr snap \<Rightarrow> [snap])) (\<lambda>sent.
     andthen (modify (detach_dashboard (fresh_uuid w) c)) (\<lambda>_.
     ret sent))))"

definition dashboard_ws :: "ext \<Rightarrow> string \<Rightarrow> nat \<Rightarrow> dash_event list \<Rightarrow> json list handler" where
  "dashboard_ws w token c es =
     andthen (gets jwt) (\<lambda>j.
     andthen (ok_or Unauthorized (jwt_decode w j token)) (\<lambda>_.
     handle_dashboard w c es))"

section \<open>Invariants\<close>

lemma keeps_case_prod [keeps_rules]: "(\<And>a b. keeps I (f a b)) \<Longrightarrow> keeps I (case p of (a, b) \<Rightarrow> f a b)"
  by (simp split: prod.split)

lemma dashboard_frame [simp]:
  "db (attach_dashboard i c s) = db s" "db (detach_dashboard i c s) = db s"
  "faults (attach_dashboard i c s) = faults s"
  by (simp_all add: attach_dashboard_def detach_dashboard_def)

context reader
begin

lemma keeps_list_recordings: "keeps J (list_recordings me cam f t)"
  unfolding list_recordings_def by (intro keeps_rules)

lemma keeps_list_events: "keeps J (list_camera_events me cam f t)"
  unfolding list_camera_events_def by (intro keeps_rules)

lemma keeps_proxy_get [keeps_rules]: "keeps J (proxy_get w u r)"
  unfolding proxy_get_def by (intro keeps_rules)

lemma keeps_fetch_strings [keeps_rules]: "app_keeps J (\<lambda>d. fetch_strings (f d) d)"
  by (rule keeps_unchanged)
    (auto simp: fetch_strings_def split: list.splits option.splits prod.splits)

lemma keeps_get_segment: "keeps J (get_segment w cam rid tok hs)"
  unfolding get_segment_def Let_def by (intro keeps_rules)

lemma keeps_export_clip: "keeps J (export_clip w cam tok f t)"
  unfolding export_clip_def by (intro keeps_rules)

lemma keeps_whep_proxy: "keeps J (whep_proxy w le me cam hs b)"
  unfolding whep_proxy_def Let_def by (intro keeps_rules)

end

lemma keeps_dashboard_loop [keeps_rules]: "keeps (\<lambda>s. I (db s)) (dashboard_loop c es sent)"
  by (induction c es sent rule: dashboard_loop.induct)
    (auto intro!: keeps_rules split: option.split list.split)

lemma keeps_dashboard_ws: "keeps (\<lambda>s. I (db s)) (dashboard_ws w tok c es)"
  unfolding dashboard_ws_def handle_dashboard_def by (intro keeps_rules) simp_all

section \<open>The timeline is complete\<close>

lemma set_time_window:
  "set (time_window k n f t rs) \<subseteq> {r \<in> set rs. f \<le> k r \<and> k r < t}"
  by (auto simp: time_window_def dest!: in_set_takeD)

lemma sorted_time_window: "sorted (map k (time_window k n f t rs))"
  by (simp add: time_window_def take_map [symmetric] sorted_wrt_take)

lemma length_time_window: "length (time_window k n f t rs) \<le> n"
  by (simp add: time_window_def)

lemma time_window_rest:
  assumes "r \<in> set rs" "f \<le> k r" "k r < t" "r \<notin> set (time_window k n f t rs)"
  shows "length (time_window k n f t rs) = n \<and> (\<forall>q \<in> set (time_window k n f t rs). k q \<le> k r)"
  using assms take_sorted_rest [of r "filter (\<lambda>r. f \<le> k r \<and> k r < t) rs" n k]
  by (simp add: time_window_def)

lemma mset_time_window:
  "length (filter (\<lambda>r. f \<le> k r \<and> k r < t) rs) \<le> n \<Longrightarrow>
   mset (time_window k n f t rs) = mset (filter (\<lambda>r. f \<le> k r \<and> k r < t) rs)"
  by (simp add: time_window_def)

text \<open>
  C39. The timeline shows all of a camera's recordings in order: \<open>list_recordings\<close> returns the
  recordings of the camera that start in the half-open window, oldest first, at most 10000; as
  many as there are when they fit, and otherwise none that is left out is older than one that
  is shown. A recording without an end is shown with 60 seconds.
\<close>

theorem list_recordings_window:
  assumes "faults s = []"
    and "rows = filter (\<lambda>r. rec_camera_id r = cam \<and> f \<le> rec_started_at r \<and> rec_started_at r < t)
      (recordings (db s))"
  shows "\<exists>segs. list_recordings me cam f t s = (Inr segs, s) \<and>
    sorted (map rsg_started_at segs) \<and> length segs \<le> 10000 \<and>
    set segs \<subseteq> recording_segment_of ` set rows \<and>
    (length rows \<le> 10000 \<longrightarrow> mset segs = mset (map recording_segment_of rows)) \<and>
    (\<forall>r \<in> set rows. recording_segment_of r \<in> set segs \<or>
       length segs = 10000 \<and> (\<forall>g \<in> set segs. rsg_started_at g \<le> rec_started_at r)) \<and>
    (\<forall>r. rec_ended_at r = None \<longrightarrow>
       rsg_ended_at (recording_segment_of r) = rec_started_at r + seconds 60)"
proof -
  let ?rs = "filter (\<lambda>r. rec_camera_id r = cam) (recordings (db s))"
  let ?w = "time_window rec_started_at 10000 f t ?rs"
  have rows: "rows = filter (\<lambda>r. f \<le> rec_started_at r \<and> rec_started_at r < t) ?rs"
    using assms(2) by (auto intro!: filter_cong)
  have start: "rsg_started_at \<circ> recording_segment_of = rec_started_at"
    by (simp add: fun_eq_iff recording_segment_of_def)
  have run: "list_recordings me cam f t s = (Inr (map recording_segment_of ?w), s)"
    using assms(1) by (simp add: list_recordings_def prog_simps)
  have srt: "sorted (map rsg_started_at (map recording_segment_of ?w))"
    by (simp add: start sorted_time_window)
  have sub: "set (map recording_segment_of ?w) \<subseteq> recording_segment_of ` set rows"
    using set_time_window [of rec_started_at 10000 f t ?rs] rows by auto
  have eq: "length rows \<le> 10000 \<Longrightarrow>
      mset (map recording_segment_of ?w) = mset (map recording_segment_of rows)"
    using mset_time_window [of f rec_started_at t ?rs 10000] rows by simp
  have rest: "recording_segment_of r \<in> set (map recording_segment_of ?w) \<or>
      length (map recording_segment_of ?w) = 10000 \<and>
      (\<forall>g \<in> set (map recording_segment_of ?w). rsg_started_at g \<le> rec_started_at r)"
    if "r \<in> set rows" for r
    using that time_window_rest [of r ?rs f rec_started_at t 10000] rows
    by (cases "r \<in> set ?w") (auto simp: recording_segment_of_def)
  show ?thesis
    using run srt length_time_window [of rec_started_at 10000 f t ?rs] sub eq rest
    by (intro exI [of _ "map recording_segment_of ?w"] conjI)
      (simp_all add: recording_segment_of_def)
qed

theorem list_recordings_window_witness:
  "\<exists>segs. list_recordings sample_admin 30 0 (seconds 10) sample_app = (Inr segs, sample_app) \<and>
     map rsg_id segs = [50]"
proof -
  have r: "filter (\<lambda>r. rec_camera_id r = 30 \<and> 0 \<le> rec_started_at r \<and> rec_started_at r < seconds 10)
      (recordings (db sample_app)) = [sample_recording]"
    by (simp add: sample_recording_def seconds_def)
  from list_recordings_window [OF _ refl, of sample_app sample_admin 30 0 "seconds 10"]
  obtain segs where segs: "list_recordings sample_admin 30 0 (seconds 10) sample_app = (Inr segs, sample_app)"
    "mset segs = mset (map recording_segment_of [sample_recording])"
    unfolding r by auto
  then have "segs = [recording_segment_of sample_recording]" by simp
  with segs(1) show ?thesis by (simp add: recording_segment_of_def sample_recording_def)
qed

section \<open>Where a segment is fetched from\<close>

text \<open>The authority of an \<open>http\<close> URL, up to the first slash behind the scheme.\<close>

definition url_authority :: "string \<Rightarrow> string" where
  "url_authority url = takeWhile (\<lambda>c. c \<noteq> CHR ''/'') (drop (length ''http://'') url)"

lemma segment_rows_unique:
  assumes "db_ok d" and "r \<in> set (recordings d)" and "n \<in> set (nodes d)" and "node_id n = rec_node_id r"
    and "\<forall>q \<in> set (recordings d). rec_id q = rec_id r \<longrightarrow> q = r"
  shows "segment_rows w (rec_camera_id r) (rec_id r) d =
    [(Some (rec_storage_uri r), map_option (inet_text w) (node_ip_addr n))]"
proof -
  let ?ip = "\<lambda>n. map_option (inet_text w) (node_ip_addr n)"
  have dn: "distinct (map node_id (nodes d))" and dr: "distinct (map rec_key (recordings d))"
    using assms(1) nodes.sound_distinct [of d "nodes d"] recordings.sound_distinct [of d "recordings d"]
    by (auto simp: db_ok_def)
  have inner: "concat (map (\<lambda>m. if node_id m = rec_node_id r then [(Some (rec_storage_uri r), ?ip m)] else [])
      (nodes d)) = [(Some (rec_storage_uri r), ?ip n)]"
    using join_key_single [OF dn assms(3), of "\<lambda>m. (Some (rec_storage_uri r), ?ip m)"] assms(4) by simp
  have cond: "(node_id m = rec_node_id q \<and> rec_id q = rec_id r \<and> rec_camera_id q = rec_camera_id r) =
      (q = r \<and> node_id m = rec_node_id r)" if "q \<in> set (recordings d)" for q m
    using that assms(5) by auto
  have "segment_rows w (rec_camera_id r) (rec_id r) d =
      concat (map (\<lambda>q. if q = r then concat (map (\<lambda>m. if node_id m = rec_node_id r
        then [(Some (rec_storage_uri r), ?ip m)] else []) (nodes d)) else []) (recordings d))"
    unfolding segment_rows_def
    by (intro arg_cong [of _ _ concat] map_cong refl) (auto simp: cond intro!: join_none)
  also have "\<dots> = [(Some (rec_storage_uri r), ?ip n)]"
    using concat_if_single [of "recordings d" r "concat (map (\<lambda>m. if node_id m = rec_node_id r
        then [(Some (rec_storage_uri r), ?ip m)] else []) (nodes d))"] dr assms(2) inner
    by (simp add: distinct_map)
  finally show ?thesis .
qed

lemma takeWhile_authority:
  "CHR ''/'' \<notin> set h \<Longrightarrow> takeWhile (\<lambda>c. c \<noteq> CHR ''/'') (h @ CHR ''/'' # t) = h"
  by (induction h) auto

text \<open>
  Where a segment comes from: without a valid token \<open>get_segment\<close> answers 401. A migrated
  segment is answered with a redirect to its presigned URL, and with 500 when the coordinator
  has no S3 settings. A local segment is fetched from its node, but not from the node's playback
  server: PostgreSQL prints an \<open>INET\<close> value with its prefix length, so the URL is
  \<open>http://<host>/32:<port>/segments/..\<close>, whose authority is the bare host. The request goes to port
  80, and the port of the playback server is part of the path.
\<close>

theorem get_segment_target:
  assumes "faults s = []" and "db_ok (db s)" and "jwt_decode w (jwt s) token = Some c"
    and "r \<in> set (recordings (db s))"
    and "\<forall>q \<in> set (recordings (db s)). rec_id q = rec_id r \<longrightarrow> q = r"
    and "n \<in> set (nodes (db s))" and "node_id n = rec_node_id r" and "node_ip_addr n = Some a"
    and "inet_text w a = inet_host a @ ''/'' @ show_nat (inet_masklen a)"
    and "CHR ''/'' \<notin> set (inet_host a)"
  shows "(\<forall>bad. jwt_decode w (jwt s) bad = None \<longrightarrow>
      get_segment w (rec_camera_id r) (rec_id r) bad hs s = (Inl Unauthorized, s)) \<and>
    (\<forall>rest. rec_storage_uri r = ''s3://'' @ rest \<longrightarrow>
      get_segment w (rec_camera_id r) (rec_id r) token hs s =
        (case presigned_get w (rec_storage_uri r) 3600 of
           None \<Rightarrow> (Inl Internal, s)
         | Some url \<Rightarrow> (Inr \<lparr>resp_status = 302, resp_headers = [(''location'', url)], resp_body = []\<rparr>, s))) \<and>
    (\<forall>rel. rec_storage_uri r = ''local://'' @ rel \<longrightarrow>
      (\<exists>url. url = ''http://'' @ inet_host a @ ''/'' @ show_nat (inet_masklen a) @ '':'' @
           show_nat (node_http_port w) @ ''/segments/'' @ rel \<and>
         url_authority url = inet_host a \<and>
         get_segment w (rec_camera_id r) (rec_id r) token hs s = proxy_get w url (map_of hs ''range'') s))"
proof -
  have rows: "segment_rows w (rec_camera_id r) (rec_id r) (db s) =
      [(Some (rec_storage_uri r), Some (inet_host a @ ''/'' @ show_nat (inet_masklen a)))]"
    using segment_rows_unique [OF assms(2,4,6,7,5), of w] assms(8,9) by simp
  have "get_segment w (rec_camera_id r) (rec_id r) bad hs s = (Inl Unauthorized, s)"
    if "jwt_decode w (jwt s) bad = None" for bad
    using that by (simp add: get_segment_def prog_simps)
  moreover have "get_segment w (rec_camera_id r) (rec_id r) token hs s =
        (case presigned_get w (rec_storage_uri r) 3600 of
           None \<Rightarrow> (Inl Internal, s)
         | Some url \<Rightarrow> (Inr \<lparr>resp_status = 302, resp_headers = [(''location'', url)], resp_body = []\<rparr>, s))"
    if "rec_storage_uri r = ''s3://'' @ rest" for rest
    using assms(1,3) rows that
    by (auto simp: get_segment_def prog_simps fetch_strings_def split: option.split)
  moreover have "get_segment w (rec_camera_id r) (rec_id r) token hs s =
      proxy_get w (''http://'' @ inet_host a @ ''/'' @ show_nat (inet_masklen a) @ '':'' @
           show_nat (node_http_port w) @ ''/segments/'' @ rel) (map_of hs ''range'') s"
    if "rec_storage_uri r = ''local://'' @ rel" for rel
  proof -
    have "strip_prefix ''local://'' (rec_storage_uri r) = Some rel"
      unfolding that by (rule strip_prefix_append)
    moreover have "\<not> starts_with ''s3://'' (rec_storage_uri r)" by (simp add: that)
    ultimately show ?thesis
      using assms(1,3) rows
      by (simp add: get_segment_def prog_simps fetch_strings_def Let_def)
  qed
  moreover have "url_authority (''http://'' @ inet_host a @ ''/'' @ t) = inet_host a" for t
    using takeWhile_authority [OF assms(10), of t] by (simp add: url_authority_def)
  ultimately show ?thesis by simp
qed

definition sample_get_ext :: ext where
  "sample_get_ext = sample_ext\<lparr>http := (\<lambda>rq.
     if rq_url rq = ''http://10.0.0.5/32:8890/segments/door/19700101_000000.mp4''
     then Some \<lparr>rs_status = 404, rs_headers = [], rs_body = ''nginx''\<rparr> else None)\<rparr>"

lemma show_nat_32: "show_nat 32 = ''32''"
  by (simp add: show_nat.simps digit_char_def char_of_def bit_0)

lemma show_nat_8890: "show_nat 8890 = ''8890''"
  by (simp add: show_nat.simps digit_char_def char_of_def bit_0)

theorem get_segment_target_witness:
  "get_segment sample_get_ext 30 50 ''jwt'' [] sample_app =
     (Inr \<lparr>resp_status = 404, resp_headers = [], resp_body = ''nginx''\<rparr>, sample_app) \<and>
   url_authority ''http://10.0.0.5/32:8890/segments/door/19700101_000000.mp4'' = ''10.0.0.5''"
proof -
  let ?a = "\<lparr>inet_host = ''10.0.0.5'', inet_masklen = 32\<rparr>"
  have j: "jwt_decode sample_get_ext (jwt sample_app) ''jwt'' = Some sample_claims"
    by (simp add: jwt_decode_def sample_get_ext_def sample_ext_def seconds_def)
  have r: "sample_recording \<in> set (recordings (db sample_app))"
    "\<forall>q \<in> set (recordings (db sample_app)). rec_id q = rec_id sample_recording \<longrightarrow> q = sample_recording"
    by simp_all
  have n: "sample_node \<in> set (nodes (db sample_app))" "node_id sample_node = rec_node_id sample_recording"
    "node_ip_addr sample_node = Some ?a" by (simp_all add: sample_node_def sample_recording_def)
  have t: "inet_text sample_get_ext ?a = inet_host ?a @ ''/'' @ show_nat (inet_masklen ?a)"
    by (simp add: sample_get_ext_def sample_ext_def show_nat_32)
  have i: "rec_camera_id sample_recording = 30" "rec_id sample_recording = 50"
    "rec_storage_uri sample_recording = ''local://'' @ ''door/19700101_000000.mp4''"
    by (simp_all add: sample_recording_def)
  have p: "node_http_port sample_get_ext = 8890"
    by (simp add: node_http_port_def env_port_def sample_get_ext_def sample_ext_def)
  have g: "get_segment sample_get_ext 30 50 ''jwt'' [] sample_app =
      proxy_get sample_get_ext ''http://10.0.0.5/32:8890/segments/door/19700101_000000.mp4'' None sample_app"
    using get_segment_target [OF _ _ j r n t, of "[]"] i(3) unfolding i(1,2) p
    by (simp add: show_nat_32 show_nat_8890)
  show ?thesis
    unfolding g by (simp add: proxy_get_def prog_simps sample_get_ext_def status_from_def
        forwarded_headers_def url_authority_def)
qed

end
