(* ===== verification/Router.thy ===== *)
theory Router
  imports Playback
begin

text \<open>
  The coordinator as a whole: the routes of \<open>coordinator/src/routes/mod.rs\<close> with the extractor
  each handler takes, and a step relation of everything that happens in the process: the single
  statements and channel operations of its concurrent handlers, lost connections to the database,
  and the sockets of nodes. What holds in every reachable state is proved by induction over it,
  and every handler is shown to be a run of such steps.
\<close>

section \<open>Routes\<close>

text \<open>One constructor per method and path, with the path, query and body parameters.\<close>

datatype call =
    Post_login login_request
  | Post_refresh string
  | Post_logout
  | Get_users
  | Post_users create_user_req
  | Get_user uuid
  | Patch_user uuid update_user_req
  | Delete_user uuid
  | Post_nodes_register self_register_request
  | Get_nodes
  | Post_nodes string
  | Get_node uuid
  | Delete_node uuid
  | Patch_node_status uuid node_status
  | Get_node_capacity uuid
  | Get_cameras "uuid option"
  | Post_cameras create_camera_req
  | Get_camera uuid
  | Patch_camera uuid update_camera_req
  | Delete_camera uuid
  | Post_whep uuid string
  | Options_whep
  | Get_policies
  | Post_policies create_policy
  | Get_policy uuid
  | Patch_policy uuid update_policy
  | Delete_policy uuid
  | Get_camera_events uuid time time
  | Get_recordings uuid time time
  | Get_segment uuid uuid string
  | Get_export uuid string time time

text \<open>The status code of an answer; \<open>authed\<close> runs the extractor first.\<close>

definition answer :: "nat \<Rightarrow> 'a handler \<Rightarrow> nat handler" where
  "answer code m = andthen m (\<lambda>_. ret code)"

definition answer_fst :: "(nat \<times> 'a) handler \<Rightarrow> nat handler" where
  "answer_fst m = andthen m (\<lambda>r. ret (fst r))"

definition answer_resp :: "response handler \<Rightarrow> nat handler" where
  "answer_resp m = andthen m (\<lambda>r. ret (resp_status r))"

definition authed :: "ext \<Rightarrow> headers \<Rightarrow> (current_user \<Rightarrow> 'a handler) \<Rightarrow> 'a handler" where
  "authed w hs f = andthen (from_request_parts w hs) f"

text \<open>
  \<open>collate\<close> is the text order of the database, \<open>limit_error\<close> the text of a body over its limit. A
  call has its arguments already: which request goes to which route is up to axum, and the answers
  to requests that do not parse are those of \<open>receive\<close> in ApiAnswers.
\<close>

fun create_router :: "ext \<Rightarrow> (string \<Rightarrow> int) \<Rightarrow> string \<Rightarrow> headers \<Rightarrow> call \<Rightarrow> nat handler" where
  "create_router w cl le hs (Post_login b) = answer 200 (login w b)"
| "create_router w cl le hs (Post_refresh t) = answer 200 (refresh w t)"
| "create_router w cl le hs Post_logout = authed w hs logout"
| "create_router w cl le hs Get_users = authed w hs (\<lambda>me. answer 200 (list_users me))"
| "create_router w cl le hs (Post_users b) = authed w hs (\<lambda>me. answer_fst (create_user w me b))"
| "create_router w cl le hs (Get_user i) = authed w hs (\<lambda>me. answer 200 (get_user me i))"
| "create_router w cl le hs (Patch_user i b) = authed w hs (\<lambda>me. answer 200 (update_user w me i b))"
| "create_router w cl le hs (Delete_user i) = authed w hs (\<lambda>me. delete_user me i)"
| "create_router w cl le hs (Post_nodes_register b) = answer_fst (self_register w b)"
| "create_router w cl le hs Get_nodes = authed w hs (\<lambda>me. answer 200 (list_nodes w me))"
| "create_router w cl le hs (Post_nodes n) = authed w hs (\<lambda>me. answer_fst (create_node w me n))"
| "create_router w cl le hs (Get_node i) = authed w hs (\<lambda>me. answer 200 (get_node w me i))"
| "create_router w cl le hs (Delete_node i) = authed w hs (\<lambda>me. delete_node me i)"
| "create_router w cl le hs (Patch_node_status i st) =
     authed w hs (\<lambda>me. answer 200 (update_node_status w me i st))"
| "create_router w cl le hs (Get_node_capacity i) =
     authed w hs (\<lambda>me. answer 200 (get_node_capacity me i))"
| "create_router w cl le hs (Get_cameras f) = authed w hs (\<lambda>_. answer 200 (list_cameras w f))"
| "create_router w cl le hs (Post_cameras b) = authed w hs (\<lambda>me. answer_fst (create_camera w me b))"
| "create_router w cl le hs (Get_camera i) = authed w hs (\<lambda>_. answer 200 (get_camera w i))"
| "create_router w cl le hs (Patch_camera i b) =
     authed w hs (\<lambda>me. answer 200 (update_camera w me i b))"
| "create_router w cl le hs (Delete_camera i) = authed w hs (\<lambda>me. delete_camera me i)"
| "create_router w cl le hs (Post_whep i b) =
     authed w hs (\<lambda>me. answer_resp (whep_proxy w le me i hs b))"
| "create_router w cl le hs Options_whep = ret (resp_status whep_preflight)"
| "create_router w cl le hs Get_policies =
     authed w hs (\<lambda>me. answer 200 (list_retention_policies cl me))"
| "create_router w cl le hs (Post_policies b) =
     authed w hs (\<lambda>me. answer_fst (create_retention_policy w me b))"
| "create_router w cl le hs (Get_policy i) = authed w hs (\<lambda>me. answer 200 (get_retention_policy me i))"
| "create_router w cl le hs (Patch_policy i b) =
     authed w hs (\<lambda>me. answer 200 (update_retention_policy me i b))"
| "create_router w cl le hs (Delete_policy i) = authed w hs (\<lambda>me. delete_retention_policy me i)"
| "create_router w cl le hs (Get_camera_events i f t) =
     authed w hs (\<lambda>me. answer 200 (list_camera_events me i f t))"
| "create_router w cl le hs (Get_recordings i f t) =
     authed w hs (\<lambda>me. answer 200 (list_recordings me i f t))"
| "create_router w cl le hs (Get_segment i r tok) = answer_resp (get_segment w i r tok hs)"
| "create_router w cl le hs (Get_export i tok f t) = answer_resp (export_clip w i tok f t)"

text \<open>The status code of the response, errors included.\<close>

definition respond ::
  "ext \<Rightarrow> (string \<Rightarrow> int) \<Rightarrow> string \<Rightarrow> headers \<Rightarrow> call \<Rightarrow> app \<Rightarrow> nat \<times> app" where
  "respond w cl le hs c s =
     (case create_router w cl le hs c s of
        (Inl e, t) \<Rightarrow> (fst (into_response e), t)
      | (Inr code, t) \<Rightarrow> (code, t))"

section \<open>Every route keeps an invariant of the state\<close>

lemma keeps_answer [keeps_rules]: "keeps I m \<Longrightarrow> keeps I (answer code m)"
  unfolding answer_def by (intro keeps_rules)

lemma keeps_answer_fst [keeps_rules]: "keeps I m \<Longrightarrow> keeps I (answer_fst m)"
  unfolding answer_fst_def by (intro keeps_rules)

lemma keeps_answer_resp [keeps_rules]: "keeps I m \<Longrightarrow> keeps I (answer_resp m)"
  unfolding answer_resp_def by (intro keeps_rules)

lemma keeps_authed [keeps_rules]: "(\<And>me. keeps I (f me)) \<Longrightarrow> keeps I (authed w hs f)"
  unfolding authed_def from_request_parts_def by (intro keeps_rules)

context reader
begin

lemmas reader_routes =
  keeps_list_cameras keeps_get_camera keeps_list_policies keeps_get_policy
  keeps_list_recordings keeps_list_events keeps_get_segment keeps_export_clip keeps_whep_proxy

end

context writer
begin

lemmas writer_routes = reader_routes
  keeps_login keeps_refresh keeps_logout
  keeps_list_users keeps_create_user keeps_get_user keeps_update_user keeps_delete_user
  keeps_self_register keeps_list_nodes keeps_create_node keeps_get_node keeps_get_node_capacity
  keeps_update_node_status keeps_delete_node keeps_update_camera keeps_delete_camera
  keeps_create_policy keeps_update_policy keeps_delete_policy

lemma keeps_router:
  assumes "\<And>me b. c = Post_cameras b \<Longrightarrow> keeps J (create_camera w me b)"
  shows "keeps J (create_router w cl le hs c)"
  by (cases c) (simp_all add: keeps_answer keeps_answer_fst keeps_answer_resp keeps_authed
      writer_routes assms keeps_ret)

end

section \<open>Invariants\<close>

text \<open>Of the statements of the source only the insertion of a camera adds to a node.\<close>

lemma camera_count_frame [simp]:
  "camera_count n (d\<lparr>users := a\<rparr>) = camera_count n d" "camera_count n (d\<lparr>sessions := b\<rparr>) = camera_count n d"
  "camera_count n (d\<lparr>nodes := c\<rparr>) = camera_count n d" "camera_count n (d\<lparr>policies := e\<rparr>) = camera_count n d"
  "camera_count n (d\<lparr>recordings := f\<rparr>) = camera_count n d" "camera_count n (d\<lparr>events := g\<rparr>) = camera_count n d"
  by (simp_all add: camera_count_def cameras_of_def)

lemma camera_count_nodes:
  "map cam_node_id (cameras e) = map cam_node_id (cameras d) \<Longrightarrow> camera_count n e = camera_count n d"
proof -
  have "length (filter (\<lambda>c. cam_node_id c = n) cs) = count_list (map cam_node_id cs) n" for cs :: "camera list"
    by (induction cs) auto
  moreover assume "map cam_node_id (cameras e) = map cam_node_id (cameras d)"
  ultimately show ?thesis by (simp add: camera_count_def cameras_of_def)
qed

lemma camera_count_delete:
  "camera_count n (d\<lparr>cameras := delete_where P (cameras d)\<rparr>) \<le> camera_count n d"
proof -
  have "length (filter Q (delete_where P cs)) \<le> length (filter Q cs)" for Q and cs :: "camera list"
    by (induction cs) (auto simp: delete_where_def)
  then show ?thesis by (simp add: camera_count_def cameras_of_def)
qed

lemma camera_count_update:
  assumes "\<And>c. cam_node_id (k c) = cam_node_id c" and "update_camera_row i k d = Inr (x, e)"
  shows "camera_count n e = camera_count n d"
proof (rule camera_count_nodes)
  show "map cam_node_id (cameras e) = map cam_node_id (cameras d)"
    using assms(2)
    by (cases x) (auto simp: cameras.update_None cameras.update_Some put_defs map_update_where assms(1))
qed

interpretation capacity: writer "\<lambda>s. camera_count n (db s) \<le> b" for n b
proof unfold_locales
  show "app_keeps (\<lambda>s. camera_count n (db s) \<le> b) (update_camera_row i k)"
    if "\<And>c. cam_node_id (k c) = cam_node_id c" for i k
    using camera_count_update [OF that] by (simp add: app_keeps_def)
  have "camera_count n (d\<lparr>nodes := ns, cameras := delete_where P (cameras d)\<rparr>) \<le> camera_count n d" for d ns P
    using camera_count_delete [where d = "d\<lparr>nodes := ns\<rparr>" and P = P and n = n] by simp
  then show "app_keeps (\<lambda>s. camera_count n (db s) \<le> b) (delete_node_row i)" for i
    by (fastforce simp: app_keeps_def delete_node_row_def intro: order_trans)
  show "app_keeps (\<lambda>s. camera_count n (db s) \<le> b) (delete_camera_row i)" for i
    using camera_count_delete
    by (fastforce simp: app_keeps_def delete_pk_def put_defs intro: order_trans)
qed (auto simp: app_keeps_def insert_into_def update_pk_def delete_pk_def put_defs delete_user_row_def
    delete_sessions_of_def delete_policy_row_def clear_default_where_def
    split: option.splits if_splits)

text \<open>The registrations and the set of open channels, which no route changes.\<close>

definition chan_frame :: "(uuid \<times> nat) list \<Rightarrow> nat set \<Rightarrow> app \<Rightarrow> bool" where
  "chan_frame T D s \<longleftrightarrow> node_txs s = T \<and> dom (node_chans s) = D"

interpretation channels: camera_writer "chan_frame T D" for T D
proof unfold_locales
  show "chan_frame T D (push_to_node n m s)" if "chan_frame T D s" for n m s
    using that by (auto simp: chan_frame_def push_to_node_def send_def split: option.splits)
  show "chan_frame T D (broadcast_dashboard j s)" if "chan_frame T D s" for j s
    using that by (simp add: chan_frame_def)
qed (simp_all add: app_keeps_def chan_frame_def)

section \<open>The running coordinator\<close>

text \<open>
  Handlers run concurrently: each is a sequence of statements, of channel operations and of
  round trips that fail, and another may run between any two of them. So the steps are single
  statements and single channel operations, of whichever handler. First the statements of the
  source, all but the insertion of a camera.
\<close>

inductive stmt_step :: "database \<Rightarrow> database \<Rightarrow> bool" where
  user_inserted: "insert_user u d = Inr (x1, e) \<Longrightarrow> stmt_step d e"
| user_updated: "update_user_row i f1 d = Inr (x2, e) \<Longrightarrow> (\<And>r. user_id (f1 r) = user_id r) \<Longrightarrow> stmt_step d e"
| user_deleted: "delete_user_row i d = Inr (x3, e) \<Longrightarrow> stmt_step d e"
| session_inserted: "insert_session ss d = Inr (x4, e) \<Longrightarrow> stmt_step d e"
| session_updated: "update_session i f2 d = Inr (x5, e) \<Longrightarrow> stmt_step d e"
| sessions_deleted: "delete_sessions_of i d = Inr (x6, e) \<Longrightarrow> stmt_step d e"
| node_inserted: "insert_node n d = Inr (x7, e) \<Longrightarrow> stmt_step d e"
| node_updated: "update_node i f3 d = Inr (x8, e) \<Longrightarrow> (\<And>r. node_id (f3 r) = node_id r) \<Longrightarrow> stmt_step d e"
| node_deleted: "delete_node_row i d = Inr (x9, e) \<Longrightarrow> stmt_step d e"
| camera_updated: "update_camera_row i f4 d = Inr (x10, e) \<Longrightarrow> (\<And>r. cam_node_id (f4 r) = cam_node_id r) \<Longrightarrow>
    stmt_step d e"
| camera_deleted: "delete_camera_row i d = Inr (x11, e) \<Longrightarrow> stmt_step d e"
| policy_inserted: "insert_policy p d = Inr (x12, e) \<Longrightarrow> stmt_step d e"
| policy_updated: "update_policy_row i f5 d = Inr (x13, e) \<Longrightarrow> (\<And>r. pol_id (f5 r) = pol_id r) \<Longrightarrow> stmt_step d e"
| policy_deleted: "delete_policy_row i d = Inr (x14, e) \<Longrightarrow> stmt_step d e"
| default_cleared: "clear_default_where P d = Inr (x15, e) \<Longrightarrow> stmt_step d e"
| recording_inserted: "insert_recording r d = Inr (x16, e) \<Longrightarrow> stmt_step d e"
| recording_updated: "update_recording key f6 d = Inr (x17, e) \<Longrightarrow> stmt_step d e"
| recording_deleted: "delete_recording key d = Inr (x18, e) \<Longrightarrow> stmt_step d e"
| event_inserted: "insert_event ev d = Inr (x19, e) \<Longrightarrow> stmt_step d e"

context writer
begin

lemma after_stmt: "J s \<Longrightarrow> q (db s) = Inr (x, e) \<Longrightarrow> app_keeps J q \<Longrightarrow> J (s\<lparr>db := e\<rparr>)"
  by (auto simp: app_keeps_def)

lemma keeps_stmt_step:
  assumes "stmt_step (db s) e" and "J s"
  shows "J (s\<lparr>db := e\<rparr>)"
  using assms(1)
  by (cases rule: stmt_step.cases) (erule after_stmt [OF assms(2)]; rule keeps_rules; simp)+

end

text \<open>
  \<open>socks\<close> are the sockets of nodes that are open: the channel each one receives from, and the
  node it was authenticated as. \<open>creating\<close> are the requests to create a camera that have passed
  the capacity check of a node and not yet inserted their row.
\<close>

record server =
  srv :: app
  socks :: "nat \<Rightarrow> uuid option"
  creating :: "uuid list"

inductive serve :: "server \<Rightarrow> server \<Rightarrow> bool" where
  statement: "stmt_step (db (srv S)) d \<Longrightarrow> serve S (S\<lparr>srv := (srv S)\<lparr>db := d\<rparr>\<rparr>)"
| connection_lost: "serve S (S\<lparr>srv := (srv S)\<lparr>faults := f\<rparr>\<rparr>)"
| check: "check_capacity w n (srv S) = (Inr (), t) \<Longrightarrow>
    serve S (S\<lparr>srv := t, creating := n # creating S\<rparr>)"
| create: "n \<in> set (creating S) \<Longrightarrow> cam_node_id cam = n \<Longrightarrow>
    sqlq (insert_camera cam) (srv S) = (r, t) \<Longrightarrow>
    serve S (S\<lparr>srv := t, creating := remove1 n (creating S)\<rparr>)"
| abandon: "serve S (S\<lparr>creating := remove1 n (creating S)\<rparr>)"
| notify: "serve S (S\<lparr>srv := push_to_node n m (srv S)\<rparr>)"
| notify_dashboards: "serve S (S\<lparr>srv := broadcast_dashboard j (srv S)\<rparr>)"
| connect: "node_chans (srv S) c = None \<Longrightarrow>
    serve S (S\<lparr>srv := attach_socket n c (srv S), socks := (socks S)(c := Some n)\<rparr>)"
| frame_out: "socks S c = Some n \<Longrightarrow> node_chans (srv S) c = Some (m # ms) \<Longrightarrow>
    serve S (S\<lparr>srv := (srv S)\<lparr>node_chans := (node_chans (srv S))(c := Some ms)\<rparr>\<rparr>)"
| disconnect: "socks S c = Some n \<Longrightarrow>
    serve S (S\<lparr>srv := detach_socket w n c (srv S), socks := (socks S)(c := None)\<rparr>)"

inductive_simps serve_iff: "serve S T"

text \<open>The database after the migrations (\<open>0010_bootstrap.sql\<close>); \<open>ids\<close> are the fresh identifiers.\<close>

definition bootstrap_db :: "(nat \<Rightarrow> uuid) \<Rightarrow> time \<Rightarrow> database" where
  "bootstrap_db ids t =
     \<lparr>roles = [\<lparr>role_id = ids 0, role_name = ''admin''\<rparr>, \<lparr>role_id = ids 1, role_name = ''operator''\<rparr>,
               \<lparr>role_id = ids 2, role_name = ''viewer''\<rparr>],
      users = [], sessions = [], nodes = [], cameras = [],
      policies =
        [\<lparr>pol_id = ids 3, pol_name = ''30_days'', pol_keep_days = 30, pol_is_default = True, pol_created_at = t\<rparr>,
         \<lparr>pol_id = ids 4, pol_name = ''7_days'', pol_keep_days = 7, pol_is_default = False, pol_created_at = t\<rparr>,
         \<lparr>pol_id = ids 5, pol_name = ''90_days'', pol_keep_days = 90, pol_is_default = False, pol_created_at = t\<rparr>,
         \<lparr>pol_id = ids 6, pol_name = ''365_days'', pol_keep_days = 365, pol_is_default = False, pol_created_at = t\<rparr>],
      recordings = [], events = []\<rparr>"

text \<open>\<open>migrate\<close> seeds the administrator; then the server starts.\<close>

definition boot :: "(nat \<Rightarrow> uuid) \<Rightarrow> ext \<Rightarrow> string \<Rightarrow> server" where
  "boot ids w secret =
     \<lparr>srv = snd (seed_admin w (new_app (bootstrap_db ids (db_now w)) secret)), socks = (\<lambda>_. None),
      creating = []\<rparr>"

text \<open>At most \<open>k\<close> creations of cameras for one node overlap.\<close>

inductive reachable :: "nat \<Rightarrow> server \<Rightarrow> bool" for k where
  start: "inj_on ids {..6} \<Longrightarrow> reachable k (boot ids w secret)"
| step: "reachable k S \<Longrightarrow> serve S T \<Longrightarrow> \<forall>n. count_list (creating T) n \<le> k \<Longrightarrow> reachable k T"

text \<open>Every registered sender belongs to an open socket of that node.\<close>

definition socks_ok :: "server \<Rightarrow> bool" where
  "socks_ok S \<longleftrightarrow>
     (\<forall>(n, c) \<in> set (node_txs (srv S)). socks S c = Some n) \<and>
     (\<forall>c n. socks S c = Some n \<longrightarrow> node_chans (srv S) c \<noteq> None)"

definition server_ok :: "server \<Rightarrow> bool" where
  "server_ok S \<longleftrightarrow> db_ok (db (srv S)) \<and> socks_ok S"

text \<open>The cameras of a node and those on the way to it.\<close>

definition room_ok :: "nat \<Rightarrow> server \<Rightarrow> bool" where
  "room_ok k S \<longleftrightarrow> (\<forall>n. camera_count n (db (srv S)) + int (count_list (creating S) n) \<le> 63 + int k)"

lemma respond_state: "snd (respond w cl le hs c s) = snd (create_router w cl le hs c s)"
  by (auto simp: respond_def split: prod.split sum.split)

lemma sqlq_state:
  assumes "sqlq q s = (r, t)"
  shows "t = s\<lparr>faults := faults t, db := db t\<rparr>" and "db t = db s \<or> (\<exists>x. q (db s) = Inr (x, db t))"
proof -
  have f: "s\<lparr>faults := f\<rparr> = s\<lparr>faults := f, db := db s\<rparr>" for f by (cases s) simp
  show "t = s\<lparr>faults := faults t, db := db t\<rparr>"
    using assms f by (auto simp: sqlq_def map_err_def sql_def split: if_splits sum.splits)
  show "db t = db s \<or> (\<exists>x. q (db s) = Inr (x, db t))"
    using assms by (auto simp: sqlq_def map_err_def sql_def split: if_splits sum.splits)
qed

lemma check_capacity_Inr:
  assumes "check_capacity w n s = (Inr (), t)"
  shows "t = s\<lparr>faults := tl (faults s)\<rparr> \<and> camera_count n (db s) < 64"
proof -
  have "s\<lparr>faults := f, db := db s\<rparr> = s\<lparr>faults := f\<rparr>" for f by (cases s) simp
  with assms show ?thesis
    by (auto simp: check_capacity_def andthen_Inr ensure_Inr max_cameras_per_node_def dest!: sqlq_Inr)
qed

lemma push_chans [simp]: "(node_chans (push_to_node n m s) c = None) = (node_chans s c = None)"
  by (auto simp: push_to_node_def send_def split: option.split)

lemma socks_ok_frame:
  assumes "socks_ok S" "node_txs t = node_txs (srv S)" "\<And>c. (node_chans t c = None) = (node_chans (srv S) c = None)"
  shows "socks_ok (S\<lparr>srv := t, creating := l\<rparr>)"
  using assms by (simp add: socks_ok_def del: not_None_eq)

lemma socks_ok_attach:
  assumes ok: "socks_ok S" and fresh: "node_chans (srv S) c = None"
  shows "socks_ok (S\<lparr>srv := attach_socket n c (srv S), socks := (socks S)(c := Some n)\<rparr>)"
proof -
  have "c' \<noteq> c" if "(n', c') \<in> set (node_txs (srv S))" for n' c'
    using ok fresh that unfolding socks_ok_def by fastforce
  then show ?thesis using ok by (fastforce simp: socks_ok_def attach_socket_def)
qed

lemma server_same_creating [simp]: "(S :: server)\<lparr>srv := t, creating := creating S\<rparr> = S\<lparr>srv := t\<rparr>"
  by (cases S) simp

lemma insert_camera_keeps_ok: "db_ok d \<Longrightarrow> insert_camera c d = Inr (x, e) \<Longrightarrow> db_ok e"
  using stmt_keepsD [OF insert_camera_ok] by blast

lemma serve_ok:
  assumes "serve S T" and "server_ok S"
  shows "server_ok T"
proof -
  have ok: "db_ok (db (srv S))" "socks_ok S" using assms(2) by (simp_all add: server_ok_def)
  from assms(1) show ?thesis
  proof (cases rule: serve.cases)
    case (statement d)
    with ok sound.keeps_stmt_step [OF statement(2)] socks_ok_frame [OF ok(2), of "(srv S)\<lparr>db := d\<rparr>" "creating S"]
    show ?thesis by (simp add: server_ok_def)
  next
    case (connection_lost f)
    with ok socks_ok_frame [OF ok(2), of "(srv S)\<lparr>faults := f\<rparr>" "creating S"]
    show ?thesis by (simp add: server_ok_def)
  next
    case (check w n t)
    with ok check_capacity_Inr [OF check(2)] socks_ok_frame [OF ok(2), of t "n # creating S"]
    show ?thesis by (simp add: server_ok_def)
  next
    case (create n cam r t)
    note t = sqlq_state [OF create(4)]
    have "db_ok (db t)" using t(2) ok(1) insert_camera_keeps_ok by auto
    moreover have "node_txs t = node_txs (srv S)" "node_chans t = node_chans (srv S)"
      by (subst t(1), simp)+
    ultimately show ?thesis
      using create(1) socks_ok_frame [OF ok(2), of t "remove1 n (creating S)"] by (simp add: server_ok_def)
  next
    case (abandon n)
    with ok show ?thesis by (simp add: server_ok_def socks_ok_def)
  next
    case (notify n m)
    with ok socks_ok_frame [OF ok(2), of "push_to_node n m (srv S)" "creating S"]
    show ?thesis by (simp add: server_ok_def)
  next
    case (notify_dashboards j)
    with ok socks_ok_frame [OF ok(2), of "broadcast_dashboard j (srv S)" "creating S"]
    show ?thesis by (simp add: server_ok_def)
  next
    case (connect c n)
    with ok socks_ok_attach [OF ok(2) connect(2), of n] show ?thesis by (simp add: server_ok_def)
  next
    case (frame_out c n m ms)
    with ok show ?thesis by (auto simp: server_ok_def socks_ok_def)
  next
    case (disconnect c n w)
    with ok show ?thesis
      by (auto simp: server_ok_def socks_ok_def detach_socket_def Let_def broadcast_dashboard_def)
  qed
qed

lemma count_remove1: "n \<in> set xs \<Longrightarrow> count_list (remove1 n xs) m = count_list xs m - (if n = m then 1 else 0)"
  by (induction xs) auto

lemma count_remove1_le: "count_list (remove1 n xs) m \<le> count_list xs m"
  by (induction xs) auto

lemma room_ok_step:
  assumes "serve S T" and "room_ok k S" and "\<forall>n. count_list (creating T) n \<le> k"
  shows "room_ok k T"
  using assms(1)
proof (cases rule: serve.cases)
  case (statement d)
  have "camera_count n d \<le> camera_count n (db (srv S))" for n
    using capacity.keeps_stmt_step [OF statement(2), of n "camera_count n (db (srv S))"] by simp
  with statement assms(2) show ?thesis unfolding room_ok_def by (auto intro: order_trans [OF add_right_mono])
next
  case (check w n t)
  note c = check_capacity_Inr [OF check(2)]
  have "camera_count m (db t) + int (count_list (n # creating S) m) \<le> 63 + int k" for m
  proof (cases "m = n")
    case True
    have "count_list (n # creating S) n \<le> k" using assms(3) check(1) by (metis server.select_convs(3) server.surjective server.update_convs(1,3))
    with True c show ?thesis by simp
  next
    case False
    with assms(2) c show ?thesis by (simp add: room_ok_def)
  qed
  with check show ?thesis by (simp add: room_ok_def)
next
  case (create n cam r t)
  note t = sqlq_state(2) [OF create(4)]
  have pos: "1 \<le> count_list (creating S) n"
    using create(2) by (simp add: count_list_0_iff Suc_le_eq flip: neq0_conv)
  have "camera_count m (db t) + int (count_list (remove1 n (creating S)) m)
      \<le> camera_count m (db (srv S)) + int (count_list (creating S) m)" for m
    using t pos create(3)
    by (auto simp: count_remove1 [OF create(2)] camera_count_insert)
  also have "camera_count m (db (srv S)) + int (count_list (creating S) m) \<le> 63 + int k" for m
    using assms(2) by (simp add: room_ok_def)
  finally show ?thesis by (simp add: room_ok_def create(1))
next
  case (abandon n)
  have "camera_count m (db (srv S)) + int (count_list (remove1 n (creating S)) m)
      \<le> camera_count m (db (srv S)) + int (count_list (creating S) m)" for m
    using count_remove1_le [of n "creating S" m] by simp
  also have "camera_count m (db (srv S)) + int (count_list (creating S) m) \<le> 63 + int k" for m
    using assms(2) by (simp add: room_ok_def)
  finally show ?thesis by (simp add: room_ok_def abandon(1))
qed (use assms(2) in \<open>simp_all add: room_ok_def\<close>)

lemma bootstrap_ok:
  assumes "inj_on ids {..6}"
  shows "db_ok (bootstrap_db ids t) \<and> camera_count n (bootstrap_db ids t) = 0"
proof -
  have "ids i = ids j \<longleftrightarrow> i = j" if "i \<le> 6" "j \<le> 6" for i j
    using assms that by (auto simp: inj_on_def)
  then show ?thesis
    by (simp add: bootstrap_db_def db_ok_def sound_rows_def policy_ok_def policy_clash_def
        camera_count_def cameras_of_def)
qed

lemma boot_ok:
  assumes "inj_on ids {..6}"
  shows "server_ok (boot ids w secret)" and "room_ok k (boot ids w secret)"
proof -
  let ?s = "new_app (bootstrap_db ids (db_now w)) secret"
  have "db_ok (db (snd (seed_admin w ?s)))"
    using bootstrap_ok [OF assms] by (intro keepsD [OF sound.keeps_seed_admin]) (simp add: new_app_def)
  moreover have "chan_frame [] {} (snd (seed_admin w ?s))"
    by (rule keepsD [OF channels.keeps_seed_admin]) (simp add: chan_frame_def new_app_def)
  ultimately show "server_ok (boot ids w secret)"
    by (simp add: server_ok_def boot_def socks_ok_def chan_frame_def)
  have "camera_count n (db (snd (seed_admin w ?s))) \<le> 0" for n
    using bootstrap_ok [OF assms] by (intro keepsD [OF capacity.keeps_seed_admin]) (simp add: new_app_def)
  then show "room_ok k (boot ids w secret)"
    by (simp add: room_ok_def boot_def) (meson add_nonneg_nonneg of_nat_0_le_iff order_trans zero_le_numeral)
qed

lemma reachable_ok: "reachable k S \<Longrightarrow> server_ok S \<and> room_ok k S \<and> (\<forall>n. count_list (creating S) n \<le> k)"
proof (induction rule: reachable.induct)
  case (start ids w secret)
  with boot_ok [OF start] show ?case by (simp add: boot_def)
next
  case (step S T)
  with serve_ok [OF step(2)] room_ok_step [OF step(2)] show ?case by blast
qed

section \<open>Handlers are runs of steps\<close>

text \<open>
  The statements of a handler change the database, its notifications the channels. What a
  handler does on its own is a run of the statements and one of the notifications.
\<close>

inductive notify_step :: "app \<Rightarrow> app \<Rightarrow> bool" where
  lost: "notify_step s (s\<lparr>faults := f\<rparr>)"
| pushed: "notify_step s (push_to_node n m s)"
| broadcasted: "notify_step s (broadcast_dashboard j s)"

lemma notify_db [simp]:
  "(push_to_node n m s)\<lparr>db := d\<rparr> = push_to_node n m (s\<lparr>db := d\<rparr>)"
  "(broadcast_dashboard j s)\<lparr>db := d\<rparr> = broadcast_dashboard j (s\<lparr>db := d\<rparr>)"
  by (simp_all add: push_to_node_def broadcast_dashboard_def split: option.split)

definition runs_from :: "app \<Rightarrow> app \<Rightarrow> bool" where
  "runs_from s t \<longleftrightarrow> stmt_step\<^sup>*\<^sup>* (db s) (db t) \<and> notify_step\<^sup>*\<^sup>* s (t\<lparr>db := db s\<rparr>)"

lemma runs_from_stmt:
  "runs_from s t \<Longrightarrow> stmt_step (db t) e \<Longrightarrow> runs_from s (t\<lparr>db := e\<rparr>)"
  by (auto simp: runs_from_def intro: rtranclp.rtrancl_into_rtrancl)

lemma runs_from_notify:
  "runs_from s t \<Longrightarrow> db u = db t \<Longrightarrow> notify_step (t\<lparr>db := db s\<rparr>) (u\<lparr>db := db s\<rparr>) \<Longrightarrow> runs_from s u"
  by (auto simp: runs_from_def intro: rtranclp.rtrancl_into_rtrancl)

interpretation runs: writer "runs_from s" for s
proof unfold_locales
  show "runs_from s (t\<lparr>faults := f\<rparr>)" if "runs_from s t" for t f
  proof (rule runs_from_notify [OF that])
    have "(t\<lparr>faults := f\<rparr>)\<lparr>db := d\<rparr> = (t\<lparr>db := d\<rparr>)\<lparr>faults := f\<rparr>" for d by (cases t) simp
    then show "notify_step (t\<lparr>db := db s\<rparr>) ((t\<lparr>faults := f\<rparr>)\<lparr>db := db s\<rparr>)"
      by (simp only: notify_step.lost)
  qed simp
  show "runs_from s (t\<lparr>db := db u\<rparr>)" if "runs_from s u" "runs_from s t" for t u
    using that by (simp add: runs_from_def)
  show "runs_from s (push_to_node n m t)" if "runs_from s t" for n m t
    by (intro runs_from_notify [OF that]) (simp_all add: notify_step.pushed)
  show "runs_from s (broadcast_dashboard j t)" if "runs_from s t" for j t
    by (intro runs_from_notify [OF that]) (simp_all add: notify_step.broadcasted)
qed (unfold app_keeps_def, (intro allI impI, erule runs_from_stmt, rule stmt_step.intros; assumption)+)

section \<open>What holds in every reachable state\<close>

lemma sound_facts:
  assumes "db_ok d"
  shows "distinct (map user_email (users d))"
    and "\<forall>x \<in> set (sessions d). \<exists>u \<in> set (users d). user_id u = ses_user_id x"
    and "\<forall>c \<in> set (cameras d). \<exists>n \<in> set (nodes d). node_id n = cam_node_id c"
    and "\<forall>p \<in> set (policies d). 0 < sint (pol_keep_days p)"
    and "length (filter pol_is_default (policies d)) \<le> 1"
    and "\<forall>r \<in> set (recordings d). \<forall>i. rec_policy_id r = Some i \<longrightarrow> (\<exists>p \<in> set (policies d). pol_id p = i)"
    and "distinct (map rec_key (recordings d))"
proof -
  have "distinct (map user_email us)" if "sound_rows P user_clash us" for P us
    using that by (induction us) (auto simp: sound_rows_def user_clash_def)
  with assms show "distinct (map user_email (users d))" by (auto simp: db_ok_def)
  have "length (filter pol_is_default ps) \<le> 1" if "sound_rows P policy_clash ps" for P ps
    using that by (induction ps) (auto simp: sound_rows_def policy_clash_def filter_empty_conv)
  with assms show "length (filter pol_is_default (policies d)) \<le> 1" by (auto simp: db_ok_def)
  show "distinct (map rec_key (recordings d))"
    using assms recordings.sound_distinct [of d "recordings d"] by (auto simp: db_ok_def)
qed (use assms in \<open>force simp: db_ok_def sound_rows_def list_all_iff session_ok_def camera_ok_def
    policy_ok_def recording_ok_def policy_exists_def\<close>)+

lemma socks_apart:
  assumes "socks_ok S"
  shows "channels_apart (srv S)" and "map_of (node_txs (srv S)) n = Some c \<Longrightarrow> online n (srv S)"
proof -
  have own: "socks S c = Some n \<and> node_chans (srv S) c \<noteq> None"
    if "map_of (node_txs (srv S)) n = Some c" for n c
    using assms map_of_SomeD [OF that] unfolding socks_ok_def by fastforce
  show "channels_apart (srv S)"
    unfolding channels_apart_def inj_on_def by (auto, metis own option.inject)
  show "map_of (node_txs (srv S)) n = Some c \<Longrightarrow> online n (srv S)"
    using own by (auto simp: online_def)
qed

text \<open>A run of a handler is a run of steps, in which nothing else happens to be in between.\<close>

lemma reachable_creating: "reachable k S \<Longrightarrow> count_list (creating S) n \<le> k"
  using reachable_ok by blast

lemma reachable_stmts:
  assumes "stmt_step\<^sup>*\<^sup>* d e" and "reachable k S" and "d = db (srv S)"
  shows "reachable k (S\<lparr>srv := (srv S)\<lparr>db := e\<rparr>\<rparr>)"
  using assms(1,3)
proof (induction rule: rtranclp_induct)
  case base
  with assms(2) show ?case by simp
next
  case (step e f)
  let ?S = "S\<lparr>srv := (srv S)\<lparr>db := e\<rparr>\<rparr>"
  from reachable.step [OF step.IH [OF step.prems] serve.statement [of ?S f]] step.hyps(2)
    reachable_creating [OF assms(2)] show ?case by simp
qed

lemma reachable_notifies:
  assumes "notify_step\<^sup>*\<^sup>* s t" and "reachable k S" and "s = srv S"
  shows "reachable k (S\<lparr>srv := t\<rparr>)"
  using assms(1,3)
proof (induction rule: rtranclp_induct)
  case base
  with assms(2) show ?case by simp
next
  case (step t u)
  let ?T = "S\<lparr>srv := t\<rparr>"
  have "serve ?T (S\<lparr>srv := u\<rparr>)"
    using step.hyps(2)
  proof (cases rule: notify_step.cases)
    case (lost f)
    with serve.connection_lost [of ?T f] show ?thesis by simp
  next
    case (pushed n m)
    with serve.notify [of ?T n m] show ?thesis by simp
  next
    case (broadcasted j)
    with serve.notify_dashboards [of ?T j] show ?thesis by simp
  qed
  from reachable.step [OF step.IH [OF step.prems] this] reachable_creating [OF assms(2)]
  show ?case by simp
qed

lemma reachable_run:
  assumes "reachable k S" and "runs_from (srv S) t"
  shows "reachable k (S\<lparr>srv := t\<rparr>)"
proof -
  from assms(2) have st: "stmt_step\<^sup>*\<^sup>* (db (srv S)) (db t)" and nt: "notify_step\<^sup>*\<^sup>* (srv S) (t\<lparr>db := db (srv S)\<rparr>)"
    by (simp_all add: runs_from_def)
  from reachable_stmts [OF st reachable_notifies [OF nt assms(1) refl]] show ?thesis by simp
qed

lemma runs_refl: "runs_from s s"
  by (simp add: runs_from_def)

lemma handler_runs:
  "reachable k S \<Longrightarrow> keeps (runs_from (srv S)) m \<Longrightarrow> reachable k (S\<lparr>srv := snd (m (srv S))\<rparr>)"
  using reachable_run runs_refl by (simp add: keeps_def)

lemma reachable_create_camera:
  assumes "reachable k S" and "\<forall>n. count_list (creating S) n < k"
  shows "reachable k (S\<lparr>srv := snd (create_camera w me b (srv S))\<rparr>)"
proof -
  let ?choose = "andthen (ensure (is_operator_or_above me) Forbidden) (\<lambda>_. resolve_node (cc_node_id b))"
  obtain r s1 where 1: "?choose (srv S) = (r, s1)" by fastforce
  have split: "create_camera w me b = andthen ?choose (\<lambda>n. andthen (check_capacity w n) (\<lambda>_. create_camera_insert w b n))"
    by (rule ext) (auto simp: create_camera_def create_camera_check_def andthen_def split: prod.split sum.split)
  have "keeps (runs_from (srv S)) ?choose" by (intro keeps_rules runs.keeps_resolve_node)
  from handler_runs [OF assms(1) this] 1 have S1: "reachable k (S\<lparr>srv := s1\<rparr>)" by simp
  show ?thesis
  proof (cases r)
    case (Inl e)
    with 1 S1 show ?thesis by (simp add: split andthen_apply)
  next
    case (Inr n)
    let ?S1 = "S\<lparr>srv := s1\<rparr>"
    obtain c s2 where 2: "check_capacity w n s1 = (c, s2)" by fastforce
    show ?thesis
    proof (cases c)
      case (Inl e)
      from handler_runs [OF S1 runs.keeps_check_capacity [of _ w n]] 1 2 Inr Inl
      show ?thesis by (simp add: split andthen_apply)
    next
      case ok: (Inr u)
      let ?S2 = "S\<lparr>srv := s2, creating := n # creating S\<rparr>"
      have "serve ?S1 ?S2" using serve.check [of w n ?S1 s2] 2 ok by simp
      moreover have "\<forall>m. count_list (n # creating S) m \<le> k"
        using assms(2) by (auto simp: Suc_le_eq intro: less_imp_le)
      ultimately have S2: "reachable k ?S2" by (intro reachable.step [OF S1]) auto
      obtain q s3 where 3: "sqlq (insert_camera (new_camera w n b)) s2 = (q, s3)" by fastforce
      let ?S3 = "S\<lparr>srv := s3\<rparr>"
      have "serve ?S2 ?S3"
        using serve.create [of n ?S2 "new_camera w n b" q s3] 3 by (simp add: new_camera_def)
      then have S3: "reachable k ?S3"
        using reachable_creating [OF assms(1)] by (intro reachable.step [OF S2]) auto
      have "create_camera w me b (srv S) = create_camera_insert w b n s2"
        using 1 2 Inr ok by (simp add: split andthen_apply)
      moreover have "reachable k (?S3\<lparr>srv := push_to_node n m s3\<rparr>)" for m
        using serve.notify [of ?S3 n m] reachable_creating [OF assms(1)] by (intro reachable.step [OF S3]) auto
      ultimately show ?thesis
        using S3 3 by (cases q) (simp_all add: create_camera_insert_def andthen_apply)
    qed
  qed
qed

lemma reachable_respond:
  assumes "reachable k S" and "\<forall>n. count_list (creating S) n < k"
  shows "reachable k (S\<lparr>srv := snd (respond w cl le hs c (srv S))\<rparr>)"
proof (cases "\<exists>b. c = Post_cameras b")
  case False
  then show ?thesis
    unfolding respond_state by (intro handler_runs [OF assms(1)] runs.keeps_router) auto
next
  case True
  then obtain b where c: "c = Post_cameras b" by blast
  obtain r s1 where 1: "from_request_parts w hs (srv S) = (r, s1)" by fastforce
  have s1: "s1 = srv S" using 1 by (auto simp: from_request_parts_def prog_simps split: option.splits)
  have fst: "snd (answer_fst m s) = snd (m s)" for m :: "(nat \<times> 'y) handler" and s
    by (auto simp: answer_fst_def andthen_apply split: prod.split sum.split)
  show ?thesis
    using 1 s1 reachable_create_camera [OF assms] assms(1)
    by (cases r) (simp_all add: c respond_state authed_def andthen_apply fst)
qed

text \<open>
  C1. The coordinator keeps its data consistent: in every state that the statements and channel
  operations of its handlers, of the enforcer and of the sockets of nodes can lead to from the
  migrated database, in whatever order those of concurrent handlers come and whichever round
  trips fail, e-mails are unique, every session belongs to an account and every camera to a node,
  at most one policy is the default, every policy keeps recordings for at least a day, every
  recording's policy exists, a segment is recorded once, and every sender registered for a node
  belongs to an open channel of that node alone. Where at most \<open>k\<close> creations of cameras overlap
  for one node, no node has more than \<open>63 + k\<close> cameras: 64, the intended limit, when they do not
  overlap (two that do bring 65). Every request, pass of the enforcer, greeting and message of a
  node leads from such a state to another one.
\<close>

theorem reachable_consistent:
  assumes "reachable k S" and "d = db (srv S)"
  shows "distinct (map user_email (users d)) \<and>
    (\<forall>x \<in> set (sessions d). \<exists>u \<in> set (users d). user_id u = ses_user_id x) \<and>
    (\<forall>c \<in> set (cameras d). \<exists>n \<in> set (nodes d). node_id n = cam_node_id c) \<and>
    (\<forall>n. camera_count n d \<le> 63 + int k) \<and>
    length (filter pol_is_default (policies d)) \<le> 1 \<and>
    (\<forall>p \<in> set (policies d). 0 < sint (pol_keep_days p)) \<and>
    (\<forall>r \<in> set (recordings d). \<forall>i. rec_policy_id r = Some i \<longrightarrow>
       (\<exists>p \<in> set (policies d). pol_id p = i)) \<and>
    distinct (map rec_key (recordings d)) \<and>
    channels_apart (srv S) \<and>
    (\<forall>n c. map_of (node_txs (srv S)) n = Some c \<longrightarrow> online n (srv S) \<and> socks S c = Some n) \<and>
    ((\<forall>n. count_list (creating S) n < k) \<longrightarrow>
      (\<forall>w cl le hs c. reachable k (S\<lparr>srv := snd (respond w cl le hs c (srv S))\<rparr>))) \<and>
    (\<forall>w. reachable k (S\<lparr>srv := snd (enforcer_pass w (srv S))\<rparr>)) \<and>
    (\<forall>w n ip. reachable k (S\<lparr>srv := snd (greet_socket w n ip (srv S))\<rparr>)) \<and>
    (\<forall>w n m. reachable k (S\<lparr>srv := snd (handle_incoming w n m (srv S))\<rparr>))"
proof -
  from reachable_ok [OF assms(1)] have ok: "db_ok d" "socks_ok S" and room: "room_ok k S"
    using assms(2) by (auto simp: server_ok_def)
  have "socks S c = Some n" if "map_of (node_txs (srv S)) n = Some c" for n c
    using ok(2) map_of_SomeD [OF that] unfolding socks_ok_def by fastforce
  moreover have "camera_count n d \<le> 63 + int k" for n
    using room assms(2) unfolding room_ok_def by (meson add_increasing2 order_trans le_add_same_cancel1 of_nat_0_le_iff)
  moreover note reachable_respond [OF assms(1)]
    handler_runs [OF assms(1) runs.keeps_enforcer_pass]
    handler_runs [OF assms(1) runs.keeps_greet_socket]
    handler_runs [OF assms(1) runs.keeps_handle_incoming]
  ultimately show ?thesis
    using sound_facts [OF ok(1)] socks_apart [OF ok(2)] by simp
qed

lemma sample_boot: "reachable k (boot word_of_nat sample_ext ''secret'')"
proof (rule reachable.start)
  have "take_bit 128 i = i" if "i \<le> 6" for i :: nat
    using that by (simp add: take_bit_nat_eq_self_iff)
  then show "inj_on (word_of_nat :: nat \<Rightarrow> uuid) {..6}"
    by (auto simp: inj_on_def word_of_nat_eq_iff)
qed

theorem reachable_consistent_witness:
  "\<exists>S. reachable 1 S \<and> map user_email (users (db (srv S))) = [''admin''] \<and>
     (\<forall>n. camera_count n (db (srv S)) \<le> 64) \<and>
     reachable 1 (S\<lparr>srv := snd (respond sample_ext (\<lambda>_. 0) '''' [] (Get_users) (srv S))\<rparr>)"
proof -
  let ?S = "boot word_of_nat sample_ext ''secret''"
  have "map user_email (users (db (srv ?S))) = [''admin'']"
    by (simp add: boot_def seed_admin_def prog_simps bootstrap_db_def new_app_def hash_password_def
        insert_into_def user_check_def put_defs sample_ext_def)
  moreover have "\<forall>n. camera_count n (db (srv ?S)) \<le> 64"
    using reachable_consistent [OF sample_boot refl, of 1] by simp
  moreover have "\<forall>n. count_list (creating ?S) n < 1" by (simp add: boot_def)
  then have "reachable 1 (?S\<lparr>srv := snd (respond sample_ext (\<lambda>_. 0) '''' [] Get_users (srv ?S))\<rparr>)"
    using reachable_consistent [OF sample_boot refl, of 1] by blast
  ultimately show ?thesis using sample_boot by (intro exI [of _ ?S] conjI)
qed

section \<open>Privileges\<close>

text \<open>The routes that take no \<open>CurrentUser\<close>; two of them check a token in the query instead.\<close>

fun public_route :: "call \<Rightarrow> bool" where
  "public_route (Post_login _) = True"
| "public_route (Post_refresh _) = True"
| "public_route (Post_nodes_register _) = True"
| "public_route Options_whep = True"
| "public_route (Get_segment _ _ _) = True"
| "public_route (Get_export _ _ _ _) = True"
| "public_route _ = False"

lemma authed_Inl:
  "from_request_parts w hs s = (Inl e, t) \<Longrightarrow> authed w hs f s = (Inl e, t)"
  by (simp add: authed_def andthen_apply)

lemma authed_Inr:
  "from_request_parts w hs s = (Inr me, t) \<Longrightarrow> authed w hs f s = f me t"
  by (simp add: authed_def andthen_apply)

lemma extractor_state: "from_request_parts w hs s = (r, t) \<Longrightarrow> t = s \<and> (\<forall>e. r = Inl e \<longrightarrow> e = Unauthorized)"
  by (auto simp: from_request_parts_def prog_simps split: option.splits)

lemma unauthenticated:
  assumes "from_request_parts w hs s = (Inl e, t)" and "\<not> public_route c"
  shows "respond w cl le hs c s = (401, s)"
proof -
  have "e = Unauthorized" "t = s" using extractor_state [OF assms(1)] by auto
  with assms show ?thesis
    by (cases c) (simp_all add: respond_def authed_Inl [OF assms(1)])
qed

text \<open>What a viewer may change: the own account and the own sessions.\<close>

definition same_for_others :: "uuid \<Rightarrow> app \<Rightarrow> app \<Rightarrow> bool" where
  "same_for_others i s t \<longleftrightarrow>
     node_chans t = node_chans s \<and> node_txs t = node_txs s \<and>
     filter (\<lambda>u. user_id u \<noteq> i) (users (db t)) = filter (\<lambda>u. user_id u \<noteq> i) (users (db s)) \<and>
     filter (\<lambda>x. ses_user_id x \<noteq> i) (sessions (db t)) = filter (\<lambda>x. ses_user_id x \<noteq> i) (sessions (db s)) \<and>
     roles (db t) = roles (db s) \<and> nodes (db t) = nodes (db s) \<and> cameras (db t) = cameras (db s) \<and>
     policies (db t) = policies (db s) \<and> recordings (db t) = recordings (db s) \<and>
     events (db t) = events (db s)"

lemma same_refl [simp]: "same_for_others i s s"
  by (simp add: same_for_others_def)

lemma filter_update_where:
  "(\<And>r. k (f r) = k r) \<Longrightarrow>
   filter (\<lambda>r. k r \<noteq> i) (update_where (\<lambda>r. k r = i) f rs) = filter (\<lambda>r. k r \<noteq> i) rs"
  by (induction rs) (auto simp: update_where_def)

lemma filter_delete_where:
  "filter (\<lambda>r. k r \<noteq> i) (delete_where (\<lambda>r. k r = i) rs) = filter (\<lambda>r. k r \<noteq> i) rs"
  by (simp add: delete_where_def)

lemma logout_same:
  assumes "faults s = []"
  shows "same_for_others (me_id me) s (snd (logout me s))"
  using assms by (simp add: logout_def prog_simps delete_sessions_of_def same_for_others_def
      filter_delete_where)

lemma update_user_same:
  assumes "faults s = []" and "\<not> is_admin me"
  shows "same_for_others (me_id me) s (snd (update_user w me i b s))"
proof (cases "me_id me = i")
  case False
  with assms show ?thesis by (simp add: update_user_def prog_simps)
next
  case True
  have nh: "snd (new_hash w p s) = s" for p
    by (cases p) (auto simp: new_hash_def prog_simps split: option.splits)
  have "same_for_others i s (snd (sqlq (update_user_row i f) s))" if "\<And>u. user_id (f u) = user_id u" for f
    using assms(1) that
    by (auto simp: sqlq_no_fault update_pk_def put_defs same_for_others_def filter_update_where
        split: option.splits)
  then have upd: "same_for_others i s t"
    if "sqlq (update_user_row i f) s = (r, t)" "\<And>u. user_id (f u) = user_id u" for f r t
    using that by (metis snd_conv)
  obtain h where h: "new_hash w (uu_password b) s = (h, s)"
    using nh [of "uu_password b"] by (metis prod.collapse)
  show ?thesis
  proof (cases h)
    case (Inl e)
    with True h show ?thesis by (simp add: update_user_def prog_simps)
  next
    case (Inr x)
    let ?f = "\<lambda>u. u\<lparr>user_email := coalesce (uu_email b) (user_email u),
        user_password_hash := coalesce x (user_password_hash u),
        user_role_id := coalesce (uu_role_id b) (user_role_id u), user_updated_at := db_now w\<rparr>"
    obtain r t where q: "sqlq (update_user_row i ?f) s = (r, t)" by fastforce
    have "snd (update_user w me i b s) = t"
      using True h Inr q by (auto simp: update_user_def andthen_apply ensure_apply ok_or_apply
          split: sum.split option.split)
    with upd [OF q] True show ?thesis by simp
  qed
qed

text \<open>Handlers that only read leave the state as it is.\<close>

lemma reads_same:
  assumes "faults s = []"
  shows "snd (get_user me i s) = s" "snd (list_cameras w fl s) = s" "snd (get_camera w i s) = s"
    "snd (list_camera_events me i f u s) = s" "snd (list_recordings me i f u s) = s"
    "snd (whep_proxy w le me i hs b s) = s"
  using assms
  by (auto simp: get_user_def list_cameras_def get_camera_def list_camera_events_def
      list_recordings_def whep_proxy_def Let_def prog_simps split: option.splits)

lemma viewer_forbidden:
  assumes "\<not> is_operator_or_above me"
  shows "list_users me s = (Inl Forbidden, s)" "create_user w me cu s = (Inl Forbidden, s)"
    "delete_user me i s = (Inl Forbidden, s)" "list_nodes w me s = (Inl Forbidden, s)"
    "create_node w me nm s = (Inl Forbidden, s)" "get_node w me i s = (Inl Forbidden, s)"
    "delete_node me i s = (Inl Forbidden, s)" "update_node_status w me i st s = (Inl Forbidden, s)"
    "get_node_capacity me i s = (Inl Forbidden, s)" "create_camera w me cc s = (Inl Forbidden, s)"
    "update_camera w me i uc s = (Inl Forbidden, s)" "delete_camera me i s = (Inl Forbidden, s)"
    "list_retention_policies cl me s = (Inl Forbidden, s)"
    "create_retention_policy w me cp s = (Inl Forbidden, s)"
    "get_retention_policy me i s = (Inl Forbidden, s)"
    "update_retention_policy me i up s = (Inl Forbidden, s)"
    "delete_retention_policy me i s = (Inl Forbidden, s)"
proof -
  have a: "\<not> is_admin me" using assms by (auto simp: is_admin_def is_operator_or_above_def)
  show "create_camera w me cc s = (Inl Forbidden, s)"
    using assms by (simp add: create_camera_def create_camera_check_def prog_simps)
qed (use assms in \<open>simp_all add: is_admin_def is_operator_or_above_def list_users_def create_user_def
    delete_user_def list_nodes_def create_node_def get_node_def delete_node_def
    update_node_status_def get_node_capacity_def update_camera_def delete_camera_def
    list_retention_policies_def create_retention_policy_def get_retention_policy_def
    update_retention_policy_def delete_retention_policy_def prog_simps\<close>)

text \<open>
  C2. No change without the privilege for it: a request without a valid access token is answered
  401 on every route but the public ones and changes nothing. A request of an account that is
  neither administrator nor operator changes at most that account and its sessions: everything
  else in the database, and every message queue of a node, stays as it is.
\<close>

theorem least_privilege:
  assumes "faults s = []" and "\<not> public_route c" and "from_request_parts w hs s = (r, s')"
    and "respond w cl le hs c s = (code, t)"
  shows "case r of
      Inl _ \<Rightarrow> code = 401 \<and> t = s
    | Inr me \<Rightarrow> is_operator_or_above me \<or> same_for_others (me_id me) s t"
proof (cases r)
  case (Inl e)
  with unauthenticated [of w hs s e s' c cl le] assms show ?thesis by simp
next
  case (Inr me)
  note a = assms(3) [unfolded Inr]
  have s': "s' = s" using extractor_state [OF assms(3)] by simp
  have "same_for_others (me_id me) s (snd (create_router w cl le hs c s))"
    if v: "\<not> is_operator_or_above me"
  proof -
    have na: "\<not> is_admin me" using v by (auto simp: is_admin_def is_operator_or_above_def)
    have ans: "snd (answer k m s) = snd (m s)" "snd (answer_fst m' s) = snd (m' s)"
      "snd (answer_resp m'' s) = snd (m'' s)"
      for k and m :: "'z handler" and m' :: "(nat \<times> 'y) handler" and m'' :: "response handler"
      by (auto simp: answer_def answer_fst_def answer_resp_def andthen_apply split: prod.split sum.split)
    show ?thesis
      using assms(2)
      by (cases c) (simp_all add: authed_Inr [OF a] s' ans viewer_forbidden [OF v]
          reads_same [OF assms(1)] logout_same [OF assms(1)] update_user_same [OF assms(1) na])
  qed
  then show ?thesis
    using Inr assms(4) respond_state [of w cl le hs c s] by auto
qed

definition sample_viewer_ext :: ext where
  "sample_viewer_ext = sample_ext\<lparr>jwt_verify := (\<lambda>k t tok. if tok = ''v'' then Some
     \<lparr>sub = 11, claim_email = ''vi'', claim_role = ''viewer'', iat = 1000, exp_at = 1900\<rparr> else None)\<rparr>"

definition sample_viewer_headers :: headers where
  "sample_viewer_headers = [(''authorization'', ''Bearer v'')]"

lemma sample_viewer_request:
  "from_request_parts sample_viewer_ext sample_viewer_headers sample_app =
     (Inr \<lparr>me_id = 11, me_email = ''vi'', me_role = ''viewer''\<rparr>, sample_app)"
proof -
  have "strip_prefix ''Bearer '' ''Bearer v'' = Some ''v''"
    by (simp add: strip_prefix_Some_iff)
  then show ?thesis
    by (simp add: from_request_parts_def bearer_token_def header_str_def header_to_str_def
        sample_viewer_headers_def jwt_decode_def sample_viewer_ext_def prog_simps)
qed

theorem least_privilege_witness:
  "\<exists>t. respond sample_viewer_ext (\<lambda>_. 0) '''' sample_viewer_headers (Delete_camera 30) sample_app = (403, t) \<and>
     cameras (db t) = [sample_camera]"
proof -
  let ?me = "\<lparr>me_id = 11, me_email = ''vi'', me_role = ''viewer''\<rparr>"
  have v: "\<not> is_operator_or_above ?me" by (simp add: is_operator_or_above_def)
  obtain code t where r:
    "respond sample_viewer_ext (\<lambda>_. 0) '''' sample_viewer_headers (Delete_camera 30) sample_app = (code, t)"
    by fastforce
  from least_privilege [OF _ _ sample_viewer_request r] v
  have "same_for_others 11 sample_app t" by simp
  moreover have "code = 403"
    using r by (simp add: respond_def authed_Inr [OF sample_viewer_request] viewer_forbidden [OF v])
  ultimately show ?thesis using r by (simp add: same_for_others_def)
qed

end
