(* ===== verification/ApiDoc.thy ===== *)
theory ApiDoc
  imports Router
begin

text \<open>
  The OpenAPI document the coordinator serves (\<open>coordinator/src/openapi.rs\<close> with the
  \<open>#[utoipa::path]\<close> attribute of each handler), the table of routes of
  \<open>coordinator/src/routes/mod.rs\<close>, and what the handlers answer compared with what the document
  says they do.
\<close>

section \<open>Operations\<close>

datatype http_method = Get | Post | Patch | Delete | Options

text \<open>A response is a body of a schema, a list of bodies, or only a description.\<close>

datatype api_content = Body string | Vec string | Text string

datatype param_place = Path | Query

record api_operation =
  op_method :: http_method
  op_path :: string
  op_params :: "(string \<times> param_place) list"
  op_body :: "string option"
  op_responses :: "(nat \<times> api_content) list"
  op_bearer :: bool

definition doc_login :: api_operation where
  "doc_login =
     \<lparr>op_method = Post, op_path = ''/api/v1/auth/login'', op_params = [],
      op_body = Some ''LoginRequest'',
      op_responses = [(200, Body ''TokenResponse''),
        (401, Text ''Bad credentials'')],
      op_bearer = False\<rparr>"

definition doc_refresh :: api_operation where
  "doc_refresh =
     \<lparr>op_method = Post, op_path = ''/api/v1/auth/refresh'', op_params = [],
      op_body = Some ''RefreshRequest'',
      op_responses = [(200, Body ''TokenResponse''),
        (401, Text ''Invalid or expired token'')],
      op_bearer = False\<rparr>"

definition doc_logout :: api_operation where
  "doc_logout =
     \<lparr>op_method = Post, op_path = ''/api/v1/auth/logout'', op_params = [],
      op_body = None,
      op_responses = [(204, Text ''Logged out''),
        (401, Text ''Unauthorized'')],
      op_bearer = True\<rparr>"

definition doc_list_users :: api_operation where
  "doc_list_users =
     \<lparr>op_method = Get, op_path = ''/api/v1/users'', op_params = [],
      op_body = None,
      op_responses = [(200, Vec ''UserResponse'')],
      op_bearer = True\<rparr>"

definition doc_create_user :: api_operation where
  "doc_create_user =
     \<lparr>op_method = Post, op_path = ''/api/v1/users'', op_params = [],
      op_body = Some ''CreateUser'',
      op_responses = [(201, Body ''UserResponse''),
        (409, Text ''Email already exists'')],
      op_bearer = True\<rparr>"

definition doc_get_user :: api_operation where
  "doc_get_user =
     \<lparr>op_method = Get, op_path = ''/api/v1/users/{id}'', op_params = [(''id'', Path)],
      op_body = None,
      op_responses = [(200, Body ''UserResponse''),
        (404, Text ''Not found'')],
      op_bearer = True\<rparr>"

definition doc_update_user :: api_operation where
  "doc_update_user =
     \<lparr>op_method = Patch, op_path = ''/api/v1/users/{id}'', op_params = [(''id'', Path)],
      op_body = Some ''UpdateUser'',
      op_responses = [(200, Body ''UserResponse''),
        (404, Text ''Not found'')],
      op_bearer = True\<rparr>"

definition doc_delete_user :: api_operation where
  "doc_delete_user =
     \<lparr>op_method = Delete, op_path = ''/api/v1/users/{id}'', op_params = [(''id'', Path)],
      op_body = None,
      op_responses = [(204, Text ''Deleted''),
        (404, Text ''Not found'')],
      op_bearer = True\<rparr>"

definition doc_self_register :: api_operation where
  "doc_self_register =
     \<lparr>op_method = Post, op_path = ''/api/v1/nodes/register'', op_params = [],
      op_body = Some ''SelfRegisterRequest'',
      op_responses = [(201, Body ''RegisterNodeResponse''),
        (409, Text ''Name already taken'')],
      op_bearer = False\<rparr>"

definition doc_list_nodes :: api_operation where
  "doc_list_nodes =
     \<lparr>op_method = Get, op_path = ''/api/v1/nodes'', op_params = [],
      op_body = None,
      op_responses = [(200, Vec ''NodeResponse'')],
      op_bearer = True\<rparr>"

definition doc_create_node :: api_operation where
  "doc_create_node =
     \<lparr>op_method = Post, op_path = ''/api/v1/nodes'', op_params = [],
      op_body = Some ''CreateNode'',
      op_responses = [(201, Body ''RegisterNodeResponse'')],
      op_bearer = True\<rparr>"

definition doc_get_node :: api_operation where
  "doc_get_node =
     \<lparr>op_method = Get, op_path = ''/api/v1/nodes/{id}'', op_params = [(''id'', Path)],
      op_body = None,
      op_responses = [(200, Body ''NodeResponse''),
        (404, Text ''Not found'')],
      op_bearer = True\<rparr>"

definition doc_get_node_capacity :: api_operation where
  "doc_get_node_capacity =
     \<lparr>op_method = Get, op_path = ''/api/v1/nodes/{id}/capacity'', op_params = [(''id'', Path)],
      op_body = None,
      op_responses = [(200, Body ''NodeCapacity''),
        (404, Text ''Not found'')],
      op_bearer = True\<rparr>"

definition doc_update_node_status :: api_operation where
  "doc_update_node_status =
     \<lparr>op_method = Patch, op_path = ''/api/v1/nodes/{id}/status'', op_params = [(''id'', Path)],
      op_body = Some ''UpdateNodeStatus'',
      op_responses = [(200, Body ''NodeResponse''),
        (404, Text ''Not found'')],
      op_bearer = True\<rparr>"

definition doc_delete_node :: api_operation where
  "doc_delete_node =
     \<lparr>op_method = Delete, op_path = ''/api/v1/nodes/{id}'', op_params = [(''id'', Path)],
      op_body = None,
      op_responses = [(204, Text ''Deleted''),
        (404, Text ''Not found'')],
      op_bearer = True\<rparr>"

definition doc_list_cameras :: api_operation where
  "doc_list_cameras =
     \<lparr>op_method = Get, op_path = ''/api/v1/cameras'', op_params = [(''node_id'', Query)],
      op_body = None,
      op_responses = [(200, Vec ''Camera'')],
      op_bearer = True\<rparr>"

definition doc_create_camera :: api_operation where
  "doc_create_camera =
     \<lparr>op_method = Post, op_path = ''/api/v1/cameras'', op_params = [],
      op_body = Some ''CreateCamera'',
      op_responses = [(201, Body ''Camera''),
        (422, Text ''Node at 64-camera capacity or no approved node available'')],
      op_bearer = True\<rparr>"

definition doc_get_camera :: api_operation where
  "doc_get_camera =
     \<lparr>op_method = Get, op_path = ''/api/v1/cameras/{id}'', op_params = [(''id'', Path)],
      op_body = None,
      op_responses = [(200, Body ''Camera''),
        (404, Text ''Not found'')],
      op_bearer = True\<rparr>"

definition doc_update_camera :: api_operation where
  "doc_update_camera =
     \<lparr>op_method = Patch, op_path = ''/api/v1/cameras/{id}'', op_params = [(''id'', Path)],
      op_body = Some ''UpdateCamera'',
      op_responses = [(200, Body ''Camera''),
        (404, Text ''Not found'')],
      op_bearer = True\<rparr>"

definition doc_delete_camera :: api_operation where
  "doc_delete_camera =
     \<lparr>op_method = Delete, op_path = ''/api/v1/cameras/{id}'', op_params = [(''id'', Path)],
      op_body = None,
      op_responses = [(204, Text ''Deleted''),
        (404, Text ''Not found'')],
      op_bearer = True\<rparr>"

definition doc_list_retention_policies :: api_operation where
  "doc_list_retention_policies =
     \<lparr>op_method = Get, op_path = ''/api/v1/retention-policies'', op_params = [],
      op_body = None,
      op_responses = [(200, Vec ''RetentionPolicy'')],
      op_bearer = True\<rparr>"

definition doc_create_retention_policy :: api_operation where
  "doc_create_retention_policy =
     \<lparr>op_method = Post, op_path = ''/api/v1/retention-policies'', op_params = [],
      op_body = Some ''CreateRetentionPolicy'',
      op_responses = [(201, Body ''RetentionPolicy''),
        (409, Text ''Name already exists'')],
      op_bearer = True\<rparr>"

definition doc_get_retention_policy :: api_operation where
  "doc_get_retention_policy =
     \<lparr>op_method = Get, op_path = ''/api/v1/retention-policies/{id}'', op_params = [(''id'', Path)],
      op_body = None,
      op_responses = [(200, Body ''RetentionPolicy''),
        (404, Text ''Not found'')],
      op_bearer = True\<rparr>"

definition doc_update_retention_policy :: api_operation where
  "doc_update_retention_policy =
     \<lparr>op_method = Patch, op_path = ''/api/v1/retention-policies/{id}'', op_params = [(''id'', Path)],
      op_body = Some ''UpdateRetentionPolicy'',
      op_responses = [(200, Body ''RetentionPolicy''),
        (404, Text ''Not found'')],
      op_bearer = True\<rparr>"

definition doc_delete_retention_policy :: api_operation where
  "doc_delete_retention_policy =
     \<lparr>op_method = Delete, op_path = ''/api/v1/retention-policies/{id}'', op_params = [(''id'', Path)],
      op_body = None,
      op_responses = [(204, Text ''Deleted''),
        (404, Text ''Not found'')],
      op_bearer = True\<rparr>"

section \<open>The document\<close>

text \<open>
  \<open>ApiDoc\<close>: the operations listed under \<open>paths\<close>, the schemas of the components, and the security
  scheme that \<open>BearerAuth\<close> adds. The attributes of \<open>self_register\<close> and \<open>get_node_capacity\<close> are not
  listed.
\<close>

record api_document =
  api_title :: string
  api_version :: string
  api_paths :: "api_operation list"
  api_schemas :: "string list"
  api_security :: "(string \<times> string) list"

definition add_bearer :: "api_document \<Rightarrow> api_document" where
  "add_bearer d = d\<lparr>api_security := api_security d @ [(''bearer_token'', ''http bearer'')]\<rparr>"

definition api_doc :: api_document where
  "api_doc = add_bearer
     \<lparr>api_title = ''64cam Coordinator API'', api_version = ''0.1.0'',
      api_paths =
        [doc_login, doc_refresh, doc_logout,
         doc_list_users, doc_create_user, doc_get_user, doc_update_user, doc_delete_user,
         doc_list_nodes, doc_create_node, doc_get_node, doc_update_node_status, doc_delete_node,
         doc_list_cameras, doc_create_camera, doc_get_camera, doc_update_camera, doc_delete_camera,
         doc_list_retention_policies, doc_create_retention_policy, doc_get_retention_policy,
         doc_update_retention_policy, doc_delete_retention_policy],
      api_schemas =
        [''LoginRequest'', ''RefreshRequest'', ''TokenResponse'',
         ''UserResponse'', ''CreateUser'', ''UpdateUser'',
         ''NodeResponse'', ''NodeStatus'', ''CreateNode'', ''UpdateNodeStatus'',
         ''RegisterNodeResponse'', ''Camera'', ''CreateCamera'', ''UpdateCamera'',
         ''RetentionPolicy'', ''CreateRetentionPolicy'', ''UpdateRetentionPolicy''],
      api_security = []\<rparr>"

section \<open>Routes\<close>

text \<open>The table of \<open>create_router\<close> below \<open>/api/v1\<close>, sockets included.\<close>

definition routes :: "(string \<times> http_method list) list" where
  "routes =
     [(''/auth/login'', [Post]), (''/auth/refresh'', [Post]), (''/auth/logout'', [Post]),
      (''/users'', [Get, Post]), (''/users/:id'', [Get, Patch, Delete]),
      (''/nodes/register'', [Post]), (''/nodes'', [Get, Post]), (''/nodes/:id'', [Get, Delete]),
      (''/nodes/:id/status'', [Patch]), (''/nodes/:id/capacity'', [Get]), (''/ws/node'', [Get]),
      (''/cameras'', [Get, Post]), (''/cameras/:id'', [Get, Patch, Delete]),
      (''/cameras/:id/whep'', [Post, Options]),
      (''/retention-policies'', [Get, Post]), (''/retention-policies/:id'', [Get, Patch, Delete]),
      (''/cameras/:id/events'', [Get]), (''/cameras/:id/recordings'', [Get]),
      (''/cameras/:id/segments/:recording_id'', [Get]), (''/cameras/:id/export'', [Get]),
      (''/ws/dashboard'', [Get])]"

definition route_pairs :: "(http_method \<times> string) list" where
  "route_pairs = concat (map (\<lambda>(p, ms). map (\<lambda>m. (m, p)) ms) routes)"

text \<open>The entry of the table a call comes in by.\<close>

fun route_of :: "call \<Rightarrow> http_method \<times> string" where
  "route_of (Post_login _) = (Post, ''/auth/login'')"
| "route_of (Post_refresh _) = (Post, ''/auth/refresh'')"
| "route_of Post_logout = (Post, ''/auth/logout'')"
| "route_of Get_users = (Get, ''/users'')"
| "route_of (Post_users _) = (Post, ''/users'')"
| "route_of (Get_user _) = (Get, ''/users/:id'')"
| "route_of (Patch_user _ _) = (Patch, ''/users/:id'')"
| "route_of (Delete_user _) = (Delete, ''/users/:id'')"
| "route_of (Post_nodes_register _) = (Post, ''/nodes/register'')"
| "route_of Get_nodes = (Get, ''/nodes'')"
| "route_of (Post_nodes _) = (Post, ''/nodes'')"
| "route_of (Get_node _) = (Get, ''/nodes/:id'')"
| "route_of (Delete_node _) = (Delete, ''/nodes/:id'')"
| "route_of (Patch_node_status _ _) = (Patch, ''/nodes/:id/status'')"
| "route_of (Get_node_capacity _) = (Get, ''/nodes/:id/capacity'')"
| "route_of (Get_cameras _) = (Get, ''/cameras'')"
| "route_of (Post_cameras _) = (Post, ''/cameras'')"
| "route_of (Get_camera _) = (Get, ''/cameras/:id'')"
| "route_of (Patch_camera _ _) = (Patch, ''/cameras/:id'')"
| "route_of (Delete_camera _) = (Delete, ''/cameras/:id'')"
| "route_of (Post_whep _ _) = (Post, ''/cameras/:id/whep'')"
| "route_of Options_whep = (Options, ''/cameras/:id/whep'')"
| "route_of Get_policies = (Get, ''/retention-policies'')"
| "route_of (Post_policies _) = (Post, ''/retention-policies'')"
| "route_of (Get_policy _) = (Get, ''/retention-policies/:id'')"
| "route_of (Patch_policy _ _) = (Patch, ''/retention-policies/:id'')"
| "route_of (Delete_policy _) = (Delete, ''/retention-policies/:id'')"
| "route_of (Get_camera_events _ _ _) = (Get, ''/cameras/:id/events'')"
| "route_of (Get_recordings _ _ _) = (Get, ''/cameras/:id/recordings'')"
| "route_of (Get_segment _ _ _) = (Get, ''/cameras/:id/segments/:recording_id'')"
| "route_of (Get_export _ _ _ _) = (Get, ''/cameras/:id/export'')"

text \<open>The two ways of writing a path parameter: \<open>:id\<close> in the router, \<open>{id}\<close> in the document.\<close>

fun param_braces :: "bool \<Rightarrow> string \<Rightarrow> string" where
  "param_braces inside [] = (if inside then ''}'' else [])"
| "param_braces inside (c # s) =
     (if c = CHR '':'' then CHR ''{'' # param_braces True s
      else if inside \<and> c = CHR ''/'' then CHR ''}'' # c # param_braces False s
      else c # param_braces inside s)"

definition doc_key :: "http_method \<times> string \<Rightarrow> http_method \<times> string" where
  "doc_key r = (fst r, ''/api/v1'' @ param_braces False (snd r))"

definition op_key :: "api_operation \<Rightarrow> http_method \<times> string" where
  "op_key op = (op_method op, op_path op)"

definition documented :: "call \<Rightarrow> api_operation option" where
  "documented c = find (\<lambda>op. op_key op = doc_key (route_of c)) (api_paths api_doc)"

lemmas doc_defs =
  doc_login_def   doc_refresh_def   doc_logout_def   doc_list_users_def   doc_create_user_def  
 doc_get_user_def   doc_update_user_def   doc_delete_user_def   doc_self_register_def   
doc_list_nodes_def   doc_create_node_def   doc_get_node_def   doc_get_node_capacity_def   
doc_update_node_status_def   doc_delete_node_def   doc_list_cameras_def   
doc_create_camera_def   doc_get_camera_def   doc_update_camera_def   doc_delete_camera_def   
doc_list_retention_policies_def   doc_create_retention_policy_def   
doc_get_retention_policy_def   doc_update_retention_policy_def   
doc_delete_retention_policy_def

text \<open>The schemas an operation refers to.\<close>

fun content_schemas :: "api_content \<Rightarrow> string list" where
  "content_schemas (Body x) = [x]"
| "content_schemas (Vec x) = [x]"
| "content_schemas (Text _) = []"

definition op_schemas :: "api_operation \<Rightarrow> string list" where
  "op_schemas op =
     (case op_body op of None \<Rightarrow> [] | Some x \<Rightarrow> [x]) @
     concat (map (content_schemas \<circ> snd) (op_responses op))"

section \<open>The document and the routes\<close>

lemma api_paths_eq: "api_paths api_doc =
  [doc_login, doc_refresh, doc_logout,
   doc_list_users, doc_create_user, doc_get_user, doc_update_user, doc_delete_user,
   doc_list_nodes, doc_create_node, doc_get_node, doc_update_node_status, doc_delete_node,
   doc_list_cameras, doc_create_camera, doc_get_camera, doc_update_camera, doc_delete_camera,
   doc_list_retention_policies, doc_create_retention_policy, doc_get_retention_policy,
   doc_update_retention_policy, doc_delete_retention_policy]"
  by (simp add: api_doc_def add_bearer_def)

text \<open>Which operation documents which call, by evaluation of the two path tables.\<close>

lemma documented_calls [simp]:
  "documented (Post_login b1) = Some doc_login"
  "documented (Post_refresh b2) = Some doc_refresh"
  "documented Post_logout = Some doc_logout"
  "documented Get_users = Some doc_list_users"
  "documented (Post_users b3) = Some doc_create_user"
  "documented (Get_user i) = Some doc_get_user"
  "documented (Patch_user i b4) = Some doc_update_user"
  "documented (Delete_user i) = Some doc_delete_user"
  "documented (Post_nodes_register b5) = None"
  "documented Get_nodes = Some doc_list_nodes"
  "documented (Post_nodes b6) = Some doc_create_node"
  "documented (Get_node i) = Some doc_get_node"
  "documented (Delete_node i) = Some doc_delete_node"
  "documented (Patch_node_status i b7) = Some doc_update_node_status"
  "documented (Get_node_capacity i) = None"
  "documented (Get_cameras b8) = Some doc_list_cameras"
  "documented (Post_cameras b9) = Some doc_create_camera"
  "documented (Get_camera i) = Some doc_get_camera"
  "documented (Patch_camera i b10) = Some doc_update_camera"
  "documented (Delete_camera i) = Some doc_delete_camera"
  "documented (Post_whep i b11) = None"
  "documented Options_whep = None"
  "documented Get_policies = Some doc_list_retention_policies"
  "documented (Post_policies b12) = Some doc_create_retention_policy"
  "documented (Get_policy i) = Some doc_get_retention_policy"
  "documented (Patch_policy i b13) = Some doc_update_retention_policy"
  "documented (Delete_policy i) = Some doc_delete_retention_policy"
  "documented (Get_camera_events i b14 b15) = None"
  "documented (Get_recordings i b16 b17) = None"
  "documented (Get_segment i b18 b19) = None"
  "documented (Get_export i b20 b21 b22) = None"
  by (simp_all add: documented_def api_paths_eq doc_key_def op_key_def doc_defs)

text \<open>The routes the document leaves out, the two sockets among them.\<close>

definition left_out :: "(http_method \<times> string) list" where
  "left_out =
     [(Post, ''/nodes/register''), (Get, ''/nodes/:id/capacity''), (Get, ''/ws/node''),
      (Post, ''/cameras/:id/whep''), (Options, ''/cameras/:id/whep''),
      (Get, ''/cameras/:id/events''), (Get, ''/cameras/:id/recordings''),
      (Get, ''/cameras/:id/segments/:recording_id''), (Get, ''/cameras/:id/export''),
      (Get, ''/ws/dashboard'')]"

lemma route_of_routes: "route_of c \<in> set route_pairs"
  by (cases c) (simp_all add: route_pairs_def routes_def)

text \<open>
  C15. The document and the router agree: no path is registered twice and no operation
  documented twice; the documented operations are exactly the routes, ten excepted, and every
  call comes in by a route; no operation refers to a schema the document does not have; and the
  operations marked with the bearer scheme are exactly those whose handlers take the
  authenticated user, so a request to one of them without a token is answered 401 and changes
  nothing.
\<close>

theorem documented_operations:
  "distinct (map fst routes) \<and> distinct (map op_key (api_paths api_doc)) \<and>
   set (map op_key (api_paths api_doc)) = doc_key ` (set route_pairs - set left_out) \<and>
   doc_key ` set left_out \<inter> set (map op_key (api_paths api_doc)) = {} \<and>
   route_of c \<in> set route_pairs \<and>
   (documented c = None \<longleftrightarrow> route_of c \<in> set left_out) \<and>
   (\<forall>op \<in> set (api_paths api_doc). set (op_schemas op) \<subseteq> set (api_schemas api_doc)) \<and>
   (\<forall>op. documented c = Some op \<longrightarrow>
      (op_bearer op \<longleftrightarrow> \<not> public_route c) \<and>
      (op_bearer op \<longrightarrow> respond w cl le [] c s = (401, s)))"
proof (intro conjI)
  show "distinct (map fst routes)" by (simp add: routes_def)
  show "distinct (map op_key (api_paths api_doc))"
    by (simp add: api_paths_eq op_key_def doc_defs)
  have "doc_key ` (set route_pairs - set left_out) =
      set (map doc_key (filter (\<lambda>r. r \<notin> set left_out) route_pairs))" by auto
  also have "\<dots> = set (map op_key (api_paths api_doc))"
    by (rule equalityI) (simp_all add: api_paths_eq op_key_def doc_defs route_pairs_def routes_def
        left_out_def doc_key_def)
  finally show "set (map op_key (api_paths api_doc)) = doc_key ` (set route_pairs - set left_out)"
    by (rule sym)
  show "doc_key ` set left_out \<inter> set (map op_key (api_paths api_doc)) = {}"
    by (simp add: api_paths_eq op_key_def doc_defs left_out_def doc_key_def)
  show "route_of c \<in> set route_pairs" by (rule route_of_routes)
  show "documented c = None \<longleftrightarrow> route_of c \<in> set left_out"
    by (cases c) (simp_all add: left_out_def)
  show "\<forall>op \<in> set (api_paths api_doc). set (op_schemas op) \<subseteq> set (api_schemas api_doc)"
    by (simp add: api_paths_eq op_schemas_def doc_defs) (simp add: api_doc_def add_bearer_def)
  have "from_request_parts w [] s = (Inl Unauthorized, s)"
    by (simp add: from_request_parts_def bearer_token_def header_str_def prog_simps)
  from unauthenticated [OF this] show "\<forall>op. documented c = Some op \<longrightarrow>
      (op_bearer op \<longleftrightarrow> \<not> public_route c) \<and>
      (op_bearer op \<longrightarrow> respond w cl le [] c s = (401, s))"
    by (cases c) (simp_all add: doc_defs)
qed

theorem documented_operations_witness:
  "documented (Delete_user 11) = Some doc_delete_user \<and>
   respond sample_ext (\<lambda>_. 0) [] [] (Delete_user 11) sample_app = (401, sample_app)"
  using documented_operations [of "Delete_user 11" sample_ext "\<lambda>_. 0" "[]" sample_app]
  by (simp add: doc_delete_user_def)

end
