(* ===== verification/ApiAnswers.thy ===== *)
theory ApiAnswers
  imports ApiDoc
begin

text \<open>
  Which status codes the documented operations answer with, on every path through their handlers
  and with any round trip to the database failing, and who is answered 401 and 403: the access
  matrix of the API.
\<close>

section \<open>The errors a handler can end in\<close>

text \<open>
  \<open>answers S m\<close>: every error of \<open>m\<close> has a status of \<open>S\<close>. \<open>returns P m\<close>: every result satisfies
  \<open>P\<close>. Both follow the structure of the program.
\<close>

definition answers :: "nat set \<Rightarrow> 'a handler \<Rightarrow> bool" where
  "answers S m \<longleftrightarrow> (\<forall>s e t. m s = (Inl e, t) \<longrightarrow> fst (into_response e) \<in> S)"

definition returns :: "('a \<Rightarrow> bool) \<Rightarrow> 'a handler \<Rightarrow> bool" where
  "returns P m \<longleftrightarrow> (\<forall>s x t. m s = (Inr x, t) \<longrightarrow> P x)"

definition unique_free :: "'a stmt \<Rightarrow> bool" where
  "unique_free q \<longleftrightarrow> (\<forall>d. q d \<noteq> Inl Unique_violation)"

named_theorems answers_rules
named_theorems returns_rules

lemma answersD: "answers S m \<Longrightarrow> m s = (Inl e, t) \<Longrightarrow> fst (into_response e) \<in> S"
  unfolding answers_def by blast

lemma returnsD: "returns P m \<Longrightarrow> m s = (Inr x, t) \<Longrightarrow> P x"
  unfolding returns_def by blast

lemma andthen_Inl:
  "andthen m f s = (Inl e, t) \<longleftrightarrow>
     m s = (Inl e, t) \<or> (\<exists>x u. m s = (Inr x, u) \<and> f x u = (Inl e, t))"
  by (auto simp: andthen_apply split: prod.split sum.split)

lemma answers_ret [answers_rules]: "answers S (ret x)"
  by (simp add: answers_def)

lemma answers_throw [answers_rules]: "fst (into_response e) \<in> S \<Longrightarrow> answers S (throw e)"
  by (simp add: answers_def)

lemma answers_andthen [answers_rules]:
  "answers S m \<Longrightarrow> (\<And>x. answers S (f x)) \<Longrightarrow> answers S (andthen m f)"
  unfolding answers_def andthen_Inl by blast

lemma answers_ensure [answers_rules]:
  "(\<not> b \<Longrightarrow> fst (into_response e) \<in> S) \<Longrightarrow> answers S (ensure b e)"
  by (simp add: answers_def ensure_apply)

lemma answers_ok_or [answers_rules]: "fst (into_response e) \<in> S \<Longrightarrow> answers S (ok_or e x)"
  by (simp add: answers_def ok_or_apply split: option.split)

lemma answers_gets [answers_rules]: "answers S (gets f)"
  by (simp add: answers_def)

lemma answers_modify [answers_rules]: "answers S (modify f)"
  by (simp add: answers_def)

lemma answers_attempt [answers_rules]: "answers S (attempt m)"
  by (simp add: answers_def)

lemma answers_if [answers_rules]: "answers S m \<Longrightarrow> answers S n \<Longrightarrow> answers S (if b then m else n)"
  by simp

lemma answers_option [answers_rules]:
  "answers S m \<Longrightarrow> (\<And>x. answers S (f x)) \<Longrightarrow> answers S (case y of None \<Rightarrow> m | Some x \<Rightarrow> f x)"
  by (simp split: option.split)

lemma answers_split [answers_rules]:
  "(\<And>x z. answers S (f x z)) \<Longrightarrow> answers S (case y of (x, z) \<Rightarrow> f x z)"
  by (simp split: prod.split)

lemma answers_Let [answers_rules]: "(\<And>x. answers S (f x)) \<Longrightarrow> answers S (let x = y in f x)"
  by (simp add: Let_def)

lemma sqlq_error:
  "sqlq q s = (Inl e, t) \<Longrightarrow> e = Sqlx Connection_error \<or> (\<exists>x. q (db s) = Inl x \<and> e = Sqlx x)"
  by (auto simp: sqlq_def map_err_def sql_def split: if_splits sum.splits)

lemma answers_sqlq_free:
  assumes "unique_free q" and "500 \<in> S"
  shows "answers S (sqlq q)"
  unfolding answers_def
proof (intro allI impI)
  fix s e t assume "sqlq q s = (Inl e, t)"
  from sqlq_error [OF this] assms show "fst (into_response e) \<in> S"
    by (auto simp: unique_free_def)
qed

lemma answers_sqlq:
  assumes "409 \<in> S" and "500 \<in> S"
  shows "answers S (sqlq q)"
  unfolding answers_def
proof (intro allI impI)
  fix s e t assume "sqlq q s = (Inl e, t)"
  from sqlq_error [OF this] assms show "fst (into_response e) \<in> S" by auto
qed

lemma unique_free_query [answers_rules]: "unique_free (query f)"
  by (simp add: unique_free_def)

lemma unique_free_delete [answers_rules]: "unique_free (delete_pk rows put key k)"
  by (simp add: unique_free_def delete_pk_def)

lemma answers_in_tx [answers_rules]:
  assumes "answers S body" and "500 \<in> S"
  shows "answers S (in_tx body)"
proof -
  have q: "answers S (sqlq (query (\<lambda>_. ())))"
    by (rule answers_sqlq_free [OF unique_free_query assms(2)])
  have b: "answers S (andthen body (\<lambda>x. andthen (sqlq (query (\<lambda>_. ()))) (\<lambda>_. ret x)))"
    by (intro answers_rules assms(1) q)
  show ?thesis
    unfolding answers_def
    by (auto simp: in_tx_def split: prod.splits sum.splits dest: answersD [OF q] answersD [OF b])
qed

lemma returns_ret [returns_rules]: "P x \<Longrightarrow> returns P (ret x)"
  by (simp add: returns_def)

lemma returns_andthen [returns_rules]: "(\<And>x. returns P (f x)) \<Longrightarrow> returns P (andthen m f)"
  unfolding returns_def andthen_Inr by blast

lemma returns_split [returns_rules]:
  "(\<And>x z. returns P (f x z)) \<Longrightarrow> returns P (case y of (x, z) \<Rightarrow> f x z)"
  by (simp split: prod.split)

lemma returns_Let [returns_rules]: "(\<And>x. returns P (f x)) \<Longrightarrow> returns P (let x = y in f x)"
  by (simp add: Let_def)

section \<open>The errors of each handler\<close>

lemma unique_free_rows [answers_rules]:
  "unique_free (delete_user_row i)" "unique_free (delete_node_row i)"
  "unique_free (delete_policy_row i)" "unique_free (delete_sessions_of i)"
  "unique_free (clear_default_where P)"
  by (auto simp: unique_free_def delete_user_row_def delete_node_row_def delete_policy_row_def
      delete_sessions_of_def clear_default_where_def delete_pk_def)

text \<open>An update that leaves the key alone cannot clash with another row.\<close>

lemma unique_free_camera:
  assumes "\<And>c. cam_id (f c) = cam_id c"
  shows "unique_free (update_camera_row i f)"
  using assms
  by (auto simp: unique_free_def update_pk_def camera_check_def split: option.splits if_splits
      dest!: find_key_Some)

lemma answers_mono: "answers S m \<Longrightarrow> S \<subseteq> T \<Longrightarrow> answers T m"
  unfolding answers_def by blast

lemmas answers_steps = answers_rules answers_sqlq_free

lemma answers_login: "answers {401, 409, 500} (login w b)"
  unfolding login_def by (intro answers_steps answers_sqlq [of "{401, 409, 500}"]) simp_all

lemma answers_refresh: "answers {401, 409, 500} (refresh w t)"
  unfolding refresh_def refresh_lookup_def refresh_rotate_def
  by (intro answers_steps answers_sqlq [of "{401, 409, 500}"]) simp_all

text \<open>403 is possible only where the guard of the handler does not hold.\<close>

definition deny :: "bool \<Rightarrow> nat set" where
  "deny b = (if b then {} else {403})"

lemma deny_simps [simp]: "deny True = {}" "\<not> b \<Longrightarrow> 403 \<in> deny b"
  by (simp_all add: deny_def)

lemma in_deny: "k \<in> deny b \<longleftrightarrow> k = 403 \<and> \<not> b"
  by (simp add: deny_def)

lemma answers_users:
  "answers {500} (logout me)" "answers (deny (is_admin me) \<union> {500}) (list_users me)"
  "answers (deny (is_admin me) \<union> {409, 500}) (create_user w me cb)"
  "answers (deny (is_admin me \<or> me_id me = i) \<union> {404, 500}) (get_user me i)"
  "answers (deny (is_admin me \<or> me_id me = i) \<union> {404, 409, 500}) (update_user w me i ub)"
  "answers (deny (is_admin me) \<union> {404, 500}) (delete_user me i)"
  unfolding logout_def list_users_def create_user_def get_user_def update_user_def new_hash_def
    delete_user_def
  by (intro answers_steps answers_sqlq [of "deny b \<union> {409, 500}" for b]
      answers_sqlq [of "deny b \<union> {404, 409, 500}" for b]; simp)+

lemma answers_nodes:
  "answers (deny (is_operator_or_above me) \<union> {500}) (list_nodes w me)"
  "answers (deny (is_admin me) \<union> {409, 500}) (create_node w me n)"
  "answers (deny (is_operator_or_above me) \<union> {404, 500}) (get_node w me i)"
  "answers (deny (is_operator_or_above me) \<union> {404, 500}) (get_node_capacity me i)"
  "answers (deny (is_admin me) \<union> {404, 500}) (delete_node me i)"
  unfolding list_nodes_def create_node_def get_node_def get_node_capacity_def delete_node_def
  by (intro answers_steps answers_sqlq [of "deny b \<union> {409, 500}" for b]; simp)+

lemma answers_cameras:
  "answers {500} (list_cameras w fl)" "answers {404, 500} (get_camera w i)"
  "answers (deny (is_operator_or_above me) \<union> {404, 500}) (update_camera w me i ub)"
  "answers (deny (is_operator_or_above me) \<union> {404, 500}) (delete_camera me i)"
  "answers (deny (is_operator_or_above me) \<union> {404, 409, 422, 500}) (create_camera w me cb)"
  unfolding list_cameras_def get_camera_def update_camera_def delete_camera_def create_camera_def
    create_camera_check_def resolve_node_def check_capacity_def create_camera_insert_def
  by (intro answers_steps unique_free_camera answers_sqlq [of "deny b \<union> {404, 409, 422, 500}" for b];
      simp add: set_camera_def)+

lemma answers_policies:
  "answers (deny (is_admin me) \<union> {500}) (list_retention_policies cl me)"
  "answers (deny (is_admin me) \<union> {400, 409, 500}) (create_retention_policy w me pb)"
  "answers (deny (is_admin me) \<union> {404, 500}) (get_retention_policy me i)"
  "answers (deny (is_admin me) \<union> {400, 404, 409, 500}) (update_retention_policy me i ub)"
  "answers (deny (is_admin me) \<union> {404, 500}) (delete_retention_policy me i)"
  unfolding list_retention_policies_def create_retention_policy_def get_retention_policy_def
    update_retention_policy_def delete_retention_policy_def
  by (intro answers_steps answers_sqlq [of "deny b \<union> {400, 409, 500}" for b]
      answers_sqlq [of "deny b \<union> {400, 404, 409, 500}" for b]; simp)+

lemma answers_views:
  "answers {500} (list_recordings me i from_t to_t)" "answers {500} (list_camera_events me i from_t to_t)"
  unfolding list_recordings_def list_camera_events_def
  by (intro answers_steps; simp)+

text \<open>The change of a node's status in a sound database cannot clash either.\<close>

lemma sound_apart:
  assumes "sound_rows ok node_clash ns" and "n \<in> set ns" and "m \<in> set ns" and "n \<noteq> m"
  shows "\<not> node_clash n m"
  using assms
  by (induction ns) (auto simp: sound_rows_def dest: nodes.clash_sym)

lemma update_status_unique:
  assumes "db_ok d"
  shows "update_node i (\<lambda>n. n\<lparr>node_status := st, node_updated_at := t\<rparr>) d \<noteq> Inl Unique_violation"
proof
  assume u: "update_node i (\<lambda>n. n\<lparr>node_status := st, node_updated_at := t\<rparr>) d = Inl Unique_violation"
  then obtain n where n: "find (\<lambda>n. node_id n = i) (nodes d) = Some n" and
    "taken node_id (node_id n) (delete_where (\<lambda>n. node_id n = i) (nodes d)) \<or>
     taken node_api_key_hash (node_api_key_hash n) (delete_where (\<lambda>n. node_id n = i) (nodes d))"
    by (auto simp: update_pk_def node_check_def split: option.splits if_splits)
  then obtain m where "m \<in> set (nodes d)" "node_id m \<noteq> i" "node_clash n m"
    by (auto simp: node_clash_def dest!: find_key_Some)
  moreover have "n \<in> set (nodes d)" "node_id n = i" using find_key_Some [OF n] by simp_all
  moreover have "sound_rows (node_ok d) node_clash (nodes d)" using assms by (simp add: db_ok_def)
  ultimately show False using sound_apart [of "node_ok d" "nodes d" n m] by auto
qed

lemma answers_node_status:
  assumes "db_ok (db s)" and "update_node_status w me i st s = (Inl e, t)"
  shows "fst (into_response e) \<in> deny (is_admin me) \<union> {404, 500}"
proof -
  let ?q = "sqlq (update_node i (\<lambda>n. n\<lparr>node_status := st, node_updated_at := db_now w\<rparr>))"
  let ?rest = "\<lambda>row. andthen (ok_or NotFound row) (\<lambda>n.
    andthen (if node_status n = Approved
             then andthen (fetch_node_cameras i) (\<lambda>cams. modify (push_to_node i (config_sync cams)))
             else ret ()) (\<lambda>_. ret (node_response_from (inet_text w) n)))"
  have rest: "answers {404} (?rest row)" for row
    unfolding fetch_node_cameras_def by (intro answers_steps) simp_all
  have "ensure (is_admin me) Forbidden s = (Inl e, t) \<or> ?q s = (Inl e, t) \<or>
      (\<exists>row u. ?rest row u = (Inl e, t))"
    using assms(2) unfolding update_node_status_def andthen_Inl ensure_Inr by blast
  then show ?thesis
  proof (elim disjE exE)
    assume "ensure (is_admin me) Forbidden s = (Inl e, t)"
    then show ?thesis by (auto simp: ensure_apply split: if_splits)
  next
    assume "?q s = (Inl e, t)"
    from sqlq_error [OF this] update_status_unique [OF assms(1), where i = i and st = st and t = "db_now w"]
    show ?thesis by (auto split: if_split)
  next
    fix row u assume "?rest row u = (Inl e, t)"
    from answersD [OF rest this] show ?thesis by simp
  qed
qed

lemma answers_authed:
  "401 \<in> S \<Longrightarrow> (\<And>me. answers S (f me)) \<Longrightarrow> answers S (authed w hs f)"
  unfolding authed_def from_request_parts_def by (intro answers_steps) simp_all

section \<open>The status of an answer\<close>

text \<open>The statuses of an operation that the document does not list.\<close>

fun undocumented :: "call \<Rightarrow> nat set" where
  "undocumented (Post_login _) = {409, 500}"
| "undocumented (Post_refresh _) = {409, 500}"
| "undocumented Post_logout = {500}"
| "undocumented (Post_nodes _) = {401, 403, 409, 500}"
| "undocumented (Patch_user _ _) = {401, 403, 409, 500}"
| "undocumented (Post_cameras _) = {401, 403, 404, 409, 500}"
| "undocumented (Get_cameras _) = {401, 500}"
| "undocumented (Get_camera _) = {401, 500}"
| "undocumented (Post_policies _) = {400, 401, 403, 500}"
| "undocumented (Patch_policy _ _) = {400, 401, 403, 409, 500}"
| "undocumented _ = {401, 403, 500}"

section \<open>Requests that do not parse\<close>

text \<open>
  The handlers take their arguments by extractors, in the order of their parameters; the first
  that refuses the request answers it, and the handler does not run. All but the public ones take
  \<open>CurrentUser\<close> first. The others are \<open>Path\<close>, \<open>Query\<close> and \<open>Json\<close>, here by the handler of each
  call; \<open>State\<close>, the headers and a body that is passed on cannot fail.
\<close>

datatype extractor = From_path | From_query | From_json

fun extractors :: "call \<Rightarrow> extractor list" where
  "extractors (Post_login _) = [From_json]"
| "extractors (Post_refresh _) = [From_json]"
| "extractors Post_logout = []"
| "extractors Get_users = []"
| "extractors (Post_users _) = [From_json]"
| "extractors (Get_user _) = [From_path]"
| "extractors (Patch_user _ _) = [From_path, From_json]"
| "extractors (Delete_user _) = [From_path]"
| "extractors (Post_nodes_register _) = [From_json]"
| "extractors Get_nodes = []"
| "extractors (Post_nodes _) = [From_json]"
| "extractors (Get_node _) = [From_path]"
| "extractors (Delete_node _) = [From_path]"
| "extractors (Patch_node_status _ _) = [From_path, From_json]"
| "extractors (Get_node_capacity _) = [From_path]"
| "extractors (Get_cameras _) = [From_query]"
| "extractors (Post_cameras _) = [From_json]"
| "extractors (Get_camera _) = [From_path]"
| "extractors (Patch_camera _ _) = [From_path, From_json]"
| "extractors (Delete_camera _) = [From_path]"
| "extractors (Post_whep _ _) = [From_path]"
| "extractors Options_whep = []"
| "extractors Get_policies = []"
| "extractors (Post_policies _) = [From_json]"
| "extractors (Get_policy _) = [From_path]"
| "extractors (Patch_policy _ _) = [From_path, From_json]"
| "extractors (Delete_policy _) = [From_path]"
| "extractors (Get_camera_events _ _ _) = [From_path, From_query]"
| "extractors (Get_recordings _ _ _) = [From_path, From_query]"
| "extractors (Get_segment _ _ _) = [From_path, From_query]"
| "extractors (Get_export _ _ _ _) = [From_path, From_query]"

text \<open>
  What is wrong with a request, with the status codes of axum's documentation: a path or query
  that does not parse, and a body that is not JSON, is not declared as JSON, is JSON of another
  type, is over the limit, or cannot be read.
\<close>

datatype json_rejection = Json_syntax | Json_content_type | Json_data | Json_too_large | Json_unreadable

record raw_request =
  bad_path :: bool
  bad_query :: bool
  bad_json :: "json_rejection option"

fun json_status :: "json_rejection \<Rightarrow> nat" where
  "json_status Json_syntax = 400"
| "json_status Json_content_type = 415"
| "json_status Json_data = 422"
| "json_status Json_too_large = 413"
| "json_status Json_unreadable = 400"

fun rejection :: "raw_request \<Rightarrow> extractor \<Rightarrow> nat option" where
  "rejection q From_path = (if bad_path q then Some 400 else None)"
| "rejection q From_query = (if bad_query q then Some 400 else None)"
| "rejection q From_json = map_option json_status (bad_json q)"

fun first_rejection :: "raw_request \<Rightarrow> extractor list \<Rightarrow> nat option" where
  "first_rejection q [] = None"
| "first_rejection q (x # xs) =
     (case rejection q x of Some code \<Rightarrow> Some code | None \<Rightarrow> first_rejection q xs)"

text \<open>A request to the route of \<open>c\<close>; the arguments of \<open>c\<close> are those of a request that parses.\<close>

definition receive ::
  "ext \<Rightarrow> (string \<Rightarrow> int) \<Rightarrow> string \<Rightarrow> headers \<Rightarrow> raw_request \<Rightarrow> call \<Rightarrow> app \<Rightarrow> nat \<times> app" where
  "receive w cl le hs q c s =
     (case (if public_route c then (Inr (), s)
            else andthen (from_request_parts w hs) (\<lambda>_. ret ()) s) of
        (Inl e, t) \<Rightarrow> (fst (into_response e), t)
      | (Inr _, t) \<Rightarrow>
          (case first_rejection q (extractors c) of
             Some code \<Rightarrow> (code, t)
           | None \<Rightarrow> respond w cl le hs c t))"

text \<open>The statuses the extractors of a call can answer with.\<close>

fun rejection_statuses :: "extractor \<Rightarrow> nat set" where
  "rejection_statuses From_json = {400, 413, 415, 422}"
| "rejection_statuses _ = {400}"

definition rejected :: "call \<Rightarrow> nat set" where
  "rejected c = (\<Union>x \<in> set (extractors c). rejection_statuses x)"

lemma rejection_in: "rejection q x = Some code \<Longrightarrow> code \<in> rejection_statuses x"
proof (cases x)
  case From_json
  moreover have "json_status r \<in> {400, 413, 415, 422}" for r by (cases r) simp_all
  ultimately show "rejection q x = Some code \<Longrightarrow> ?thesis" by auto
qed (auto split: if_splits)

lemma first_rejection_in:
  "first_rejection q xs = Some code \<Longrightarrow> code \<in> (\<Union>x \<in> set xs. rejection_statuses x)"
  by (induction xs) (auto split: option.splits dest: rejection_in)

lemma receive_cases:
  assumes "from_request_parts w hs s = (r, s)"
  shows "receive w cl le hs q c s =
    (if \<not> public_route c \<and> (\<exists>e. r = Inl e) then (401, s)
     else case first_rejection q (extractors c) of
            Some code \<Rightarrow> (code, s)
          | None \<Rightarrow> respond w cl le hs c s)"
proof (cases "public_route c")
  case True
  then show ?thesis by (simp add: receive_def)
next
  case False
  have "fst (into_response e) = 401" if "r = Inl e" for e
    using extractor_state [OF assms] that by simp
  with False assms show ?thesis by (cases r) (simp_all add: receive_def andthen_apply)
qed

section \<open>What the document lists\<close>

definition doc_statuses :: "api_operation \<Rightarrow> nat set" where
  "doc_statuses op = fst ` set (op_responses op)"

text \<open>The extractors an operation needs for the parameters and the body it declares.\<close>

definition declared :: "api_operation \<Rightarrow> extractor list" where
  "declared op =
     (if Path \<in> snd ` set (op_params op) then [From_path] else []) @
     (if Query \<in> snd ` set (op_params op) then [From_query] else []) @
     (if op_body op \<noteq> None then [From_json] else [])"

lemma extractors_declared: "documented c = Some op \<Longrightarrow> extractors c = declared op"
  by (cases c) (auto simp: declared_def doc_defs)

lemma respond_in:
  assumes "answers S (create_router w cl le hs c)" and "returns (\<lambda>k. k \<in> S) (create_router w cl le hs c)"
  shows "fst (respond w cl le hs c s) \<in> S"
  using answersD [OF assms(1), of s] returnsD [OF assms(2), of s]
  by (auto simp: respond_def split: prod.split sum.split)

lemma returns_answer [returns_rules]: "P k \<Longrightarrow> returns P (answer k m)"
  unfolding answer_def by (intro returns_rules)

lemma returns_authed [returns_rules]: "(\<And>me. returns P (f me)) \<Longrightarrow> returns P (authed w hs f)"
  unfolding authed_def by (intro returns_rules)

lemma returns_answer_fst [returns_rules]:
  "returns (\<lambda>r. P (fst r)) m \<Longrightarrow> returns P (answer_fst m)"
  unfolding answer_fst_def returns_def andthen_Inr by fastforce

lemma answers_answer:
  "answers S m \<Longrightarrow> answers S (answer k m)" "answers S m' \<Longrightarrow> answers S (answer_fst m')"
  unfolding answer_def answer_fst_def by (intro answers_rules; simp)+

lemma returns_codes:
  "returns (\<lambda>k. k = 204) (logout me)" "returns (\<lambda>k. k = 204) (delete_user me i)"
  "returns (\<lambda>k. k = 204) (delete_node me i)" "returns (\<lambda>k. k = 204) (delete_camera me i)"
  "returns (\<lambda>k. k = 204) (delete_retention_policy me i)"
  "returns (\<lambda>r. fst r = 201) (create_user w me cu)" "returns (\<lambda>r. fst r = 201) (create_node w me n)"
  "returns (\<lambda>r. fst r = 201) (create_camera w me cc)"
  "returns (\<lambda>r. fst r = 201) (create_retention_policy w me cp)"
  unfolding logout_def delete_user_def delete_node_def delete_camera_def delete_retention_policy_def
    create_user_def create_node_def create_camera_def create_camera_insert_def
    create_retention_policy_def
  by (intro returns_rules; simp)+

lemmas answers_handlers =
  answers_login answers_refresh answers_users answers_nodes answers_cameras answers_policies

lemma router_answers:
  assumes "documented c = Some op" and "\<And>i st. c \<noteq> Patch_node_status i st"
  shows "answers (doc_statuses op \<union> undocumented c) (create_router w cl le hs c)"
  using assms
  by (cases c)
    (auto simp: doc_defs doc_statuses_def in_deny
      intro!: answers_authed answers_answer intro: answers_handlers [THEN answers_mono])

lemma returns_mono: "returns P m \<Longrightarrow> (\<And>x. P x \<Longrightarrow> Q x) \<Longrightarrow> returns Q m"
  unfolding returns_def by blast

lemma router_returns:
  assumes "documented c = Some op"
  shows "returns (\<lambda>k. k \<in> doc_statuses op) (create_router w cl le hs c)"
  using assms
  by (cases c)
    (auto simp: doc_defs doc_statuses_def
      intro!: returns_authed returns_answer returns_answer_fst
      intro: returns_codes [THEN returns_mono])

lemma respond_documented:
  assumes "db_ok (db s)" and "documented c = Some op" and "respond w cl le hs c s = (code, t)"
  shows "code \<in> doc_statuses op \<union> undocumented c \<and> (code < 300 \<longrightarrow> code \<in> doc_statuses op)"
proof (cases "create_router w cl le hs c s")
  case (Pair r u)
  show ?thesis
  proof (cases r)
    case (Inr k)
    with Pair assms(3) have "code = k" by (simp add: respond_def)
    with returnsD [OF router_returns [OF assms(2)]] Pair Inr show ?thesis by blast
  next
    case (Inl e)
    with Pair assms(3) have code: "code = fst (into_response e)" by (simp add: respond_def)
    then have "300 \<le> code" by (cases e) auto
    moreover have "code \<in> doc_statuses op \<union> undocumented c"
    proof (cases "\<exists>i st. c = Patch_node_status i st")
      case False
      with answersD [OF router_answers [OF assms(2)]] Pair Inl code show ?thesis by blast
    next
      case True
      then obtain i st where c: "c = Patch_node_status i st" by blast
      show ?thesis
      proof (cases "from_request_parts w hs s")
        case (Pair r' s')
        with extractor_state [OF Pair] answers_node_status [OF assms(1), of w _ i st e u]
          \<open>create_router w cl le hs c s = (r, u)\<close> Inl c assms(2) code
        show ?thesis
          by (cases r') (auto simp: authed_def andthen_apply answer_def doc_statuses_def doc_defs in_deny
              split: prod.splits sum.splits)
      qed
    qed
    ultimately show ?thesis by simp
  qed
qed

text \<open>
  C16. Every answer to a request to a documented operation, whatever its arguments, also when
  they do not parse, and whichever round trips to the database fail, has a status that the
  document lists, one of those of \<open>undocumented\<close>, or one of the rejections of its extractors, and
  a success has a listed status. A request that does not parse is answered by the first extractor
  that refuses it and changes nothing, but 401 comes before, on all but the public routes; and
  what can be refused are exactly the parameters and the body that the document declares. In
  particular an account update, a policy update and a camera creation are answered 409 or 404 in
  cases the document does not know of, a policy with a term that is not positive is answered 400,
  no update of a camera or of a node's status ever clashes, and a malformed body is answered 400,
  413, 415 or 422, of which the document only ever lists the 422 of the creation of a camera.
  (Which operation a request goes to is decided before, and not part of this: 404 and 405 for a
  path or method without a route.)
\<close>

theorem answers_documented:
  assumes "db_ok (db s)" and "documented c = Some op" and "receive w cl le hs q c s = (code, t)"
  shows "code \<in> doc_statuses op \<union> undocumented c \<union> rejected c \<and>
    (code < 300 \<longrightarrow> code \<in> doc_statuses op) \<and>
    extractors c = declared op \<and>
    (if \<not> public_route c \<and> (\<exists>e. fst (from_request_parts w hs s) = Inl e) then code = 401 \<and> t = s
     else case first_rejection q (extractors c) of
            Some k \<Rightarrow> code = k \<and> t = s \<and> k \<in> rejected c \<and> (k \<in> doc_statuses op \<longrightarrow> k = 422)
          | None \<Rightarrow> respond w cl le hs c s = (code, t))"
proof -
  obtain r where r: "from_request_parts w hs s = (r, s)"
    using extractor_state [of w hs s] by (metis prod.collapse)
  note rc = receive_cases [OF r, of cl le q c, unfolded assms(3)]
  show ?thesis
  proof (cases "\<not> public_route c \<and> (\<exists>e. r = Inl e)")
    case True
    then have 1: "code = 401" "t = s" using rc by auto
    obtain code' t' where "respond w cl le hs c s = (code', t')" by fastforce
    moreover from True obtain e where "r = Inl e" by blast
    ultimately have "respond w cl le hs c s = (401, s)"
      using unauthenticated [OF r [unfolded \<open>r = Inl e\<close>]] True by simp
    from respond_documented [OF assms(1,2) this] 1 True r extractors_declared [OF assms(2)] show ?thesis
      by simp
  next
    case False
    then have no: "\<not> (\<not> public_route c \<and> (\<exists>e. fst (from_request_parts w hs s) = Inl e))" by (simp add: r)
    show ?thesis
    proof (cases "first_rejection q (extractors c)")
      case None
      with False rc have "respond w cl le hs c s = (code, t)" by auto
      with respond_documented [OF assms(1,2) this] None extractors_declared [OF assms(2)] show ?thesis
        unfolding if_not_P [OF no] by simp
    next
      case (Some k)
      with False rc have 1: "code = k" "t = s" by (auto split: if_splits)
      have k: "k \<in> rejected c" using first_rejection_in [OF Some] by (simp add: rejected_def)
      moreover have "rejection_statuses x \<subseteq> {400, 413, 415, 422}" for x by (cases x) auto
      ultimately have "k \<in> {400, 413, 415, 422}" unfolding rejected_def by blast
      moreover have "k \<notin> {400, 413, 415}" if "k \<in> doc_statuses op"
        using that assms(2) by (cases c) (auto simp: doc_statuses_def doc_defs)
      ultimately show ?thesis using 1 k Some no extractors_declared [OF assms(2)] by auto
    qed
  qed
qed

definition admin_headers :: headers where
  "admin_headers = [(''authorization'', ''Bearer jwt'')]"

lemma admin_request:
  "from_request_parts sample_ext admin_headers sample_app =
     (Inr \<lparr>me_id = 10, me_email = ''admin'', me_role = ''admin''\<rparr>, sample_app)"
proof -
  have "strip_prefix ''Bearer '' ''Bearer jwt'' = Some ''jwt''" by (simp add: strip_prefix_Some_iff)
  then show ?thesis
    by (simp add: from_request_parts_def bearer_token_def header_str_def header_to_str_def
        admin_headers_def jwt_decode_def sample_ext_def sample_claims_def prog_simps seconds_def)
qed

text \<open>
  An administrator gives the viewer the address of another account: 409, not in the document. The
  same without a body of the right type: 422, not in the document either.
\<close>

definition well_formed :: raw_request where
  "well_formed = \<lparr>bad_path = False, bad_query = False, bad_json = None\<rparr>"

theorem answers_documented_witness:
  "\<exists>t. receive sample_ext (\<lambda>_. 0) [] admin_headers well_formed
       (Patch_user 11 \<lparr>uu_email = Some ''admin'', uu_password = None, uu_role_id = None\<rparr>) sample_app =
     (409, t) \<and>
     409 \<in> doc_statuses doc_update_user \<union>
       undocumented (Patch_user 11 \<lparr>uu_email = Some ''admin'', uu_password = None, uu_role_id = None\<rparr>) \<and>
     409 \<notin> doc_statuses doc_update_user \<and>
     receive sample_ext (\<lambda>_. 0) [] admin_headers (well_formed\<lparr>bad_json := Some Json_data\<rparr>)
       (Patch_user 11 \<lparr>uu_email = Some ''admin'', uu_password = None, uu_role_id = None\<rparr>) sample_app =
     (422, sample_app) \<and>
     422 \<notin> doc_statuses doc_update_user"
proof -
  let ?b = "\<lparr>uu_email = Some ''admin'', uu_password = None, uu_role_id = None\<rparr>"
  have "fst (respond sample_ext (\<lambda>_. 0) [] admin_headers (Patch_user 11 ?b) sample_app) = 409"
    by (simp add: respond_def authed_Inr [OF admin_request] answer_def andthen_apply update_user_def
        is_admin_def new_hash_def ensure_apply sqlq_no_fault update_pk_def user_check_def
        delete_where_def sample_user_def sample_viewer_def)
  then have "fst (receive sample_ext (\<lambda>_. 0) [] admin_headers well_formed (Patch_user 11 ?b) sample_app) = 409"
    by (simp add: receive_cases [OF admin_request] well_formed_def)
  then obtain t where
    t: "receive sample_ext (\<lambda>_. 0) [] admin_headers well_formed (Patch_user 11 ?b) sample_app = (409, t)"
    by (metis prod.collapse)
  from answers_documented [OF _ _ t]
  have 1: "409 \<in> doc_statuses doc_update_user \<union> undocumented (Patch_user 11 ?b)"
    by (simp add: rejected_def)
  obtain k u where
    k: "receive sample_ext (\<lambda>_. 0) [] admin_headers (well_formed\<lparr>bad_json := Some Json_data\<rparr>)
      (Patch_user 11 ?b) sample_app = (k, u)" by fastforce
  from answers_documented [OF _ _ k] have 2: "k = 422 \<and> u = sample_app"
    by (simp add: admin_request well_formed_def)
  have "409 \<notin> doc_statuses doc_update_user" "422 \<notin> doc_statuses doc_update_user"
    by (simp_all add: doc_statuses_def doc_defs)
  with t 1 k 2 show ?thesis by blast
qed

section \<open>Who may do what\<close>

text \<open>The access matrix: the role, or the ownership, each authenticated call asks for.\<close>

fun permitted :: "call \<Rightarrow> current_user \<Rightarrow> bool" where
  "permitted Get_users me = is_admin me"
| "permitted (Post_users _) me = is_admin me"
| "permitted (Get_user i) me = (is_admin me \<or> me_id me = i)"
| "permitted (Patch_user i _) me = (is_admin me \<or> me_id me = i)"
| "permitted (Delete_user _) me = is_admin me"
| "permitted Get_nodes me = is_operator_or_above me"
| "permitted (Post_nodes _) me = is_admin me"
| "permitted (Get_node _) me = is_operator_or_above me"
| "permitted (Delete_node _) me = is_admin me"
| "permitted (Patch_node_status _ _) me = is_admin me"
| "permitted (Get_node_capacity _) me = is_operator_or_above me"
| "permitted (Post_cameras _) me = is_operator_or_above me"
| "permitted (Patch_camera _ _) me = is_operator_or_above me"
| "permitted (Delete_camera _) me = is_operator_or_above me"
| "permitted Get_policies me = is_admin me"
| "permitted (Post_policies _) me = is_admin me"
| "permitted (Get_policy _) me = is_admin me"
| "permitted (Patch_policy _ _) me = is_admin me"
| "permitted (Delete_policy _) me = is_admin me"
| "permitted _ me = True"

text \<open>The answer of MediaMTX is passed on, whatever its status.\<close>

fun proxied :: "call \<Rightarrow> bool" where
  "proxied (Post_whep _ _) = True"
| "proxied _ = False"

lemma guarded:
  "\<not> is_admin me \<Longrightarrow> list_users me s = (Inl Forbidden, s)"
  "\<not> is_admin me \<Longrightarrow> create_user w me cu s = (Inl Forbidden, s)"
  "\<not> (is_admin me \<or> me_id me = i) \<Longrightarrow> get_user me i s = (Inl Forbidden, s)"
  "\<not> (is_admin me \<or> me_id me = i) \<Longrightarrow> update_user w me i uu s = (Inl Forbidden, s)"
  "\<not> is_admin me \<Longrightarrow> delete_user me i s = (Inl Forbidden, s)"
  "\<not> is_operator_or_above me \<Longrightarrow> list_nodes w me s = (Inl Forbidden, s)"
  "\<not> is_admin me \<Longrightarrow> create_node w me nm s = (Inl Forbidden, s)"
  "\<not> is_operator_or_above me \<Longrightarrow> get_node w me i s = (Inl Forbidden, s)"
  "\<not> is_admin me \<Longrightarrow> delete_node me i s = (Inl Forbidden, s)"
  "\<not> is_admin me \<Longrightarrow> update_node_status w me i st s = (Inl Forbidden, s)"
  "\<not> is_operator_or_above me \<Longrightarrow> get_node_capacity me i s = (Inl Forbidden, s)"
  "\<not> is_operator_or_above me \<Longrightarrow> create_camera w me cc s = (Inl Forbidden, s)"
  "\<not> is_operator_or_above me \<Longrightarrow> update_camera w me i uc s = (Inl Forbidden, s)"
  "\<not> is_operator_or_above me \<Longrightarrow> delete_camera me i s = (Inl Forbidden, s)"
  "\<not> is_admin me \<Longrightarrow> list_retention_policies cl me s = (Inl Forbidden, s)"
  "\<not> is_admin me \<Longrightarrow> create_retention_policy w me cp s = (Inl Forbidden, s)"
  "\<not> is_admin me \<Longrightarrow> get_retention_policy me i s = (Inl Forbidden, s)"
  "\<not> is_admin me \<Longrightarrow> update_retention_policy me i up s = (Inl Forbidden, s)"
  "\<not> is_admin me \<Longrightarrow> delete_retention_policy me i s = (Inl Forbidden, s)"
  by (simp_all add: list_users_def create_user_def get_user_def update_user_def delete_user_def
      list_nodes_def create_node_def get_node_def delete_node_def update_node_status_def
      get_node_capacity_def create_camera_def create_camera_check_def update_camera_def
      delete_camera_def list_retention_policies_def create_retention_policy_def
      get_retention_policy_def update_retention_policy_def delete_retention_policy_def prog_simps)

lemma answer_Inl:
  "m s = (Inl e, t) \<Longrightarrow> answer k m s = (Inl e, t)" "m' s = (Inl e, t) \<Longrightarrow> answer_fst m' s = (Inl e, t)"
  by (simp_all add: answer_def answer_fst_def andthen_apply)

lemma router_guard:
  assumes "\<not> public_route c" and "\<not> permitted c me" and "from_request_parts w hs s = (Inr me, s)"
  shows "create_router w cl le hs c s = (Inl Forbidden, s)"
  using assms(1,2) by (cases c) (auto simp: authed_Inr [OF assms(3)] answer_Inl guarded)

text \<open>The errors of a call that is permitted.\<close>

definition ordinary :: "nat set" where
  "ordinary = {400, 404, 409, 422, 500}"

lemma router_permitted:
  assumes "\<not> public_route c" and "\<not> proxied c" and "permitted c me"
    and "from_request_parts w hs s = (Inr me, s)" and "db_ok (db s)"
    and "create_router w cl le hs c s = (Inl e, t)"
  shows "fst (into_response e) \<in> ordinary"
proof -
  have sub: "deny b \<union> A \<subseteq> ordinary \<longleftrightarrow> b \<and> A \<subseteq> ordinary" for b A
    by (auto simp: ordinary_def deny_def)
  have ord: "400 \<in> ordinary" "404 \<in> ordinary" "409 \<in> ordinary" "422 \<in> ordinary" "500 \<in> ordinary"
    by (simp_all add: ordinary_def)
  note hs = answers_users answers_nodes answers_cameras answers_policies answers_views
  show ?thesis
  proof (cases c)
    case (Patch_node_status i st)
    with assms have "update_node_status w me i st s = (Inl e, t)"
      by (auto simp: authed_Inr [OF assms(4)] answer_def andthen_apply split: prod.splits sum.splits)
    from answers_node_status [OF assms(5) this] show ?thesis
      using assms(3) Patch_node_status by (auto simp: ordinary_def in_deny)
  qed (use assms(1,2,3,6) in \<open>auto simp: authed_Inr [OF assms(4)] sub ord
      elim!: answersD [rotated] intro!: answers_answer hs [THEN answers_mono]\<close>)
qed

text \<open>Its successes.\<close>

lemma router_success:
  assumes "\<not> public_route c" and "\<not> proxied c"
  shows "returns (\<lambda>k. k \<in> {200, 201, 204}) (create_router w cl le hs c)"
  using assms
  by (cases c)
    (auto intro!: returns_authed returns_answer returns_answer_fst intro: returns_codes [THEN returns_mono])

text \<open>
  C3. The access matrix is exact: an authenticated route without a valid access token answers
  401; with one, 403 exactly when \<open>permitted\<close> does not allow the caller the call; both change
  nothing at all. A permitted call is never answered 401 or 403, whatever the database holds and
  however its round trips fail. (The WHEP proxy passes on the status of MediaMTX.)
\<close>

theorem access_matrix:
  assumes "db_ok (db s)" and "\<not> public_route c" and "respond w cl le hs c s = (code, t)"
  shows "case fst (from_request_parts w hs s) of
      Inl _ \<Rightarrow> code = 401 \<and> t = s
    | Inr me \<Rightarrow>
        (\<not> permitted c me \<longrightarrow> code = 403 \<and> t = s) \<and>
        (permitted c me \<and> \<not> proxied c \<longrightarrow> code \<noteq> 401 \<and> code \<noteq> 403)"
proof -
  obtain r where r: "from_request_parts w hs s = (r, s)"
    using extractor_state [of w hs s] by (metis prod.collapse)
  show ?thesis
  proof (cases r)
    case (Inl e)
    with unauthenticated [of w hs s e s c cl le] r assms(2,3) show ?thesis by simp
  next
    case (Inr me)
    note me = r [unfolded Inr]
    have "code = 403 \<and> t = s" if "\<not> permitted c me"
      using router_guard [OF assms(2) that me] assms(3) by (simp add: respond_def)
    moreover have "code \<noteq> 401 \<and> code \<noteq> 403" if p: "permitted c me" "\<not> proxied c"
    proof (cases "create_router w cl le hs c s")
      case (Pair q u)
      show ?thesis
      proof (cases q)
        case (Inl e)
        with router_permitted [OF assms(2) p(2,1) me assms(1)] Pair
        have "fst (into_response e) \<in> ordinary" by blast
        with Inl Pair assms(3) show ?thesis by (auto simp: respond_def ordinary_def)
      next
        case (Inr k)
        with returnsD [OF router_success [OF assms(2) p(2)]] Pair have "k \<in> {200, 201, 204}" by blast
        with Inr Pair assms(3) show ?thesis by (auto simp: respond_def)
      qed
    qed
    ultimately show ?thesis using me by simp
  qed
qed

theorem access_matrix_witness:
  "\<exists>t. respond sample_viewer_ext (\<lambda>_. 0) [] sample_viewer_headers Get_policies sample_app = (403, t) \<and>
     t = sample_app \<and>
     (\<exists>code u. respond sample_viewer_ext (\<lambda>_. 0) [] sample_viewer_headers (Get_user 11) sample_app = (code, u) \<and>
       code \<noteq> 401 \<and> code \<noteq> 403)"
proof -
  let ?r = "\<lambda>c. respond sample_viewer_ext (\<lambda>_. 0) [] sample_viewer_headers c sample_app"
  obtain a t where a: "?r Get_policies = (a, t)" by fastforce
  obtain b u where b: "?r (Get_user 11) = (b, u)" by fastforce
  from access_matrix [OF _ _ a] have "a = 403 \<and> t = sample_app"
    by (simp add: sample_viewer_request is_admin_def)
  moreover from access_matrix [OF _ _ b] have "b \<noteq> 401 \<and> b \<noteq> 403"
    by (simp add: sample_viewer_request)
  ultimately show ?thesis using a b by auto
qed

end
