(* ===== verification/Startup.thy ===== *)
theory Startup
  imports Router
begin

text \<open>
  The two programs of the coordinator from their start: \<open>migrate\<close>
  (\<open>coordinator/src/bin/migrate.rs\<close>) and the server (\<open>coordinator/src/main.rs\<close>), and the life of
  an installation in which they are started, stopped and started again over one database.
\<close>

section \<open>Configuration\<close>

record server_config =
  sc_db_url :: string
  sc_jwt_secret :: string
  sc_bind :: string
  sc_frontend_dir :: string

text \<open>A missing variable panics (\<open>expect\<close>); every other failure is an error returned by \<open>main\<close>.\<close>

datatype start_error =
    Missing_variable string
  | Connect_failed
  | Migrate_failed
  | Bind_failed
  | Seed_failed app_error

definition expect_env :: "ext \<Rightarrow> string \<Rightarrow> start_error + string" where
  "expect_env w name = (case env_var w name of None \<Rightarrow> Inl (Missing_variable name) | Some v \<Rightarrow> Inr v)"

definition env_or :: "ext \<Rightarrow> string \<Rightarrow> string \<Rightarrow> string" where
  "env_or w name dflt = (case env_var w name of None \<Rightarrow> dflt | Some v \<Rightarrow> v)"

definition server_config_from_env :: "ext \<Rightarrow> start_error + server_config" where
  "server_config_from_env w =
     (case expect_env w ''DATABASE_URL'' of
        Inl e \<Rightarrow> Inl e
      | Inr url \<Rightarrow>
         (case expect_env w ''JWT_SECRET'' of
            Inl e \<Rightarrow> Inl e
          | Inr secret \<Rightarrow> Inr
              \<lparr>sc_db_url = url, sc_jwt_secret = secret,
               sc_bind = env_or w ''BIND_ADDR'' ''0.0.0.0:8080'',
               sc_frontend_dir = env_or w ''FRONTEND_DIR'' ''./frontend/dist''\<rparr>))"

section \<open>Start\<close>

text \<open>
  Of the host: whether a database answers at a URL, whether the migrations can be applied, and
  whether an address can be bound.
\<close>

record host_ext =
  pg_connects :: "string \<Rightarrow> bool"
  pg_migrates :: bool
  can_bind :: "string \<Rightarrow> bool"

text \<open>
  \<open>sqlx::migrate!\<close> applies the files that have not been applied: all of them to an empty
  database, none to a migrated one.
\<close>

definition run_migrations :: "(nat \<Rightarrow> uuid) \<Rightarrow> time \<Rightarrow> database option \<Rightarrow> database" where
  "run_migrations ids t d = (case d of None \<Rightarrow> bootstrap_db ids t | Some e \<Rightarrow> e)"

text \<open>Connect and migrate, the beginning of both programs; the second component is the database.\<close>

definition open_database ::
  "host_ext \<Rightarrow> (nat \<Rightarrow> uuid) \<Rightarrow> time \<Rightarrow> string \<Rightarrow> database option \<Rightarrow> (start_error + database) \<times> database option" where
  "open_database x ids t url d =
     (if \<not> pg_connects x url then (Inl Connect_failed, d)
      else if \<not> pg_migrates x then (Inl Migrate_failed, d)
      else (Inr (run_migrations ids t d), Some (run_migrations ids t d)))"

definition server_main ::
  "ext \<Rightarrow> host_ext \<Rightarrow> (nat \<Rightarrow> uuid) \<Rightarrow> database option \<Rightarrow> (start_error + server) \<times> database option" where
  "server_main w x ids d =
     (case server_config_from_env w of
        Inl e \<Rightarrow> (Inl e, d)
      | Inr c \<Rightarrow>
         (case open_database x ids (db_now w) (sc_db_url c) d of
            (Inl e, d') \<Rightarrow> (Inl e, d')
          | (Inr pool, d') \<Rightarrow>
             if can_bind x (sc_bind c)
             then (Inr \<lparr>srv = new_app pool (sc_jwt_secret c), socks = (\<lambda>_. None), creating = []\<rparr>, d')
             else (Inl Bind_failed, d')))"

text \<open>\<open>lost\<close> are the round trips of the seeding that fail.\<close>

definition migrate_main ::
  "ext \<Rightarrow> host_ext \<Rightarrow> (nat \<Rightarrow> uuid) \<Rightarrow> bool list \<Rightarrow> database option \<Rightarrow> (start_error + unit) \<times> database option" where
  "migrate_main w x ids lost d =
     (case expect_env w ''DATABASE_URL'' of
        Inl e \<Rightarrow> (Inl e, d)
      | Inr url \<Rightarrow>
         (case open_database x ids (db_now w) url d of
            (Inl e, d') \<Rightarrow> (Inl e, d')
          | (Inr pool, d') \<Rightarrow>
             (case seed_admin w ((new_app pool [])\<lparr>faults := lost\<rparr>) of
                (Inl e, s) \<Rightarrow> (Inl (Seed_failed e), Some (db s))
              | (Inr u, s) \<Rightarrow> (Inr u, Some (db s)))))"

section \<open>The life of an installation\<close>

text \<open>
  The server that runs, if one does, and the database. The programs are started one at a time;
  the server takes the steps of \<open>serve\<close>, single statements and channel operations of concurrent
  handlers, and stops at any moment, also within a handler; what it had committed stays.
\<close>

inductive life :: "server option \<Rightarrow> database option \<Rightarrow> bool" where
  fresh: "life None None"
| migrate: "life None d \<Longrightarrow> inj_on ids {..6} \<Longrightarrow> migrate_main w x ids lost d = (r, d') \<Longrightarrow> life None d'"
| started: "life None d \<Longrightarrow> inj_on ids {..6} \<Longrightarrow> server_main w x ids d = (Inr S, d') \<Longrightarrow> life (Some S) d'"
| not_started: "life None d \<Longrightarrow> inj_on ids {..6} \<Longrightarrow> server_main w x ids d = (Inl e, d') \<Longrightarrow> life None d'"
| serves: "life (Some S) d \<Longrightarrow> serve S T \<Longrightarrow> life (Some T) (Some (db (srv T)))"
| stopped: "life (Some S) d \<Longrightarrow> life None d"

section \<open>The roles stay\<close>

definition same_roles :: "role list \<Rightarrow> database \<Rightarrow> bool" where
  "same_roles R d \<longleftrightarrow> roles d = R"

interpretation same_roles: camera_writer "\<lambda>s. same_roles R (db s)" for R
  by unfold_locales
    (auto simp: same_roles_def app_keeps_def insert_into_def update_pk_def delete_pk_def put_defs
      delete_user_row_def delete_node_row_def delete_sessions_of_def delete_policy_row_def
      clear_default_where_def split: option.splits if_splits)

lemma keeps_roles: "(\<And>R. keeps (\<lambda>s. same_roles R (db s)) m) \<Longrightarrow> roles (db (snd (m s))) = roles (db s)"
  by (simp add: keeps_def same_roles_def)

lemma stmt_step_roles: "stmt_step d e \<Longrightarrow> roles e = roles d"
  using same_roles.keeps_stmt_step [of "new_app d []" e "roles d"] by (simp add: same_roles_def new_app_def)

lemma seed_admin_roles: "roles (db (snd (seed_admin w s))) = roles (db s)"
  by (intro keeps_roles same_roles.keeps_seed_admin)

lemma serve_roles:
  assumes "serve S T"
  shows "roles (db (srv T)) = roles (db (srv S))"
  using assms
proof (cases rule: serve.cases)
  case (statement d)
  with stmt_step_roles show ?thesis by simp
next
  case (check w n t)
  with check_capacity_Inr [OF check(2)] show ?thesis by simp
next
  case (create n cam r t)
  have "roles e = roles d" if "insert_camera cam d = Inr (x, e)" for d e x
    using that by (auto simp: cameras.insert_Inr put_defs)
  with create sqlq_state(2) [OF create(4)] show ?thesis by auto
qed (simp_all add: attach_socket_def detach_socket_def Let_def broadcast_dashboard_def)

section \<open>Every life\<close>

definition database_ok :: "database \<Rightarrow> bool" where
  "database_ok d \<longleftrightarrow> db_ok d \<and> map role_name (roles d) = [''admin'', ''operator'', ''viewer'']"

lemma migrations_ok:
  assumes "inj_on ids {..6}" and "\<forall>e. d = Some e \<longrightarrow> database_ok e"
  shows "database_ok (run_migrations ids t d)"
  using assms bootstrap_ok [OF assms(1), of t]
  by (cases d) (simp_all add: run_migrations_def database_ok_def, simp add: bootstrap_db_def)

lemma open_database_ok:
  assumes "open_database x ids t url d = (r, d')" and "inj_on ids {..6}"
    and "\<forall>e. d = Some e \<longrightarrow> database_ok e"
  shows "(\<forall>e. d' = Some e \<longrightarrow> database_ok e) \<and> (\<forall>pool. r = Inr pool \<longrightarrow> d' = Some pool) \<and>
    (d \<noteq> None \<longrightarrow> d' = d)"
  using assms(1,3) migrations_ok [OF assms(2,3), of t]
  by (auto simp: open_database_def run_migrations_def split: if_splits)

lemma seed_admin_ok:
  assumes "database_ok pool"
  shows "database_ok (db (snd (seed_admin w ((new_app pool [])\<lparr>faults := lost\<rparr>))))"
proof -
  let ?s = "(new_app pool [])\<lparr>faults := lost\<rparr>"
  have "db_ok (db (snd (seed_admin w ?s)))"
    using keepsD [OF sound.keeps_seed_admin, of ?s w] assms by (simp add: database_ok_def new_app_def)
  with assms show ?thesis by (simp add: database_ok_def seed_admin_roles new_app_def)
qed

lemma migrate_main_ok:
  assumes "migrate_main w x ids lost d = (r, d')" and "inj_on ids {..6}"
    and "\<forall>e. d = Some e \<longrightarrow> database_ok e"
  shows "\<forall>e. d' = Some e \<longrightarrow> database_ok e"
  using assms(1,3) open_database_ok [OF _ assms(2,3)] seed_admin_ok [of _ w lost]
  by (auto simp: migrate_main_def split: sum.splits prod.splits) (metis snd_conv option.inject)+

lemma server_main_ok:
  assumes "server_main w x ids d = (r, d')" and "inj_on ids {..6}"
    and "\<forall>e. d = Some e \<longrightarrow> database_ok e"
  shows "(\<forall>e. d' = Some e \<longrightarrow> database_ok e) \<and> (d \<noteq> None \<longrightarrow> d' = d) \<and>
    (\<forall>S. r = Inr S \<longrightarrow> d' = Some (db (srv S)) \<and> socks S = (\<lambda>_. None) \<and>
       (\<exists>secret. srv S = new_app (db (srv S)) secret))"
  using assms(1,3) open_database_ok [OF _ assms(2,3)]
  by (auto simp: server_main_def new_app_def split: sum.splits prod.splits if_splits)

lemma new_server_ok:
  "database_ok d \<Longrightarrow> server_ok \<lparr>srv = new_app d secret, socks = (\<lambda>_. None), creating = []\<rparr>"
  by (simp add: database_ok_def server_ok_def socks_ok_def new_app_def)

lemma life_ok:
  assumes "life S d"
  shows "(\<forall>e. d = Some e \<longrightarrow> database_ok e) \<and>
    (\<forall>T. S = Some T \<longrightarrow> server_ok T \<and> d = Some (db (srv T)))"
  using assms
proof (induction rule: life.induct)
  case (started d ids w x S d')
  then have d: "\<forall>e. d = Some e \<longrightarrow> database_ok e" by simp
  from server_main_ok [OF started(3,2) d] obtain secret where
    s: "d' = Some (db (srv S))" "socks S = (\<lambda>_. None)" "srv S = new_app (db (srv S)) secret"
    "\<forall>e. d' = Some e \<longrightarrow> database_ok e" by auto
  from new_server_ok [of "db (srv S)" secret] s(1,2,4) s(3) [symmetric] have "server_ok S"
    by (simp add: server_ok_def socks_ok_def)
  with s show ?case by simp
next
  case (serves S d T)
  then have "server_ok T" using serve_ok by blast
  with serves serve_roles [OF serves(2)] show ?case
    by (simp add: database_ok_def server_ok_def)
qed (use migrate_main_ok server_main_ok in \<open>blast+\<close>)

text \<open>Seeding looks at the accounts only: none at all brings the default one back.\<close>

lemma seed_admin_later: "users (db s) \<noteq> [] \<Longrightarrow> db (snd (seed_admin w s)) = db s"
  by (cases "faults s \<noteq> [] \<and> hd (faults s)")
    (simp_all add: seed_admin_def andthen_apply sqlq_def map_err_def sql_def)

lemma seed_admin_first:
  assumes "users (db s) = []" and "database_ok (db s)" and "faults s = []" and "hash_password w ''admin'' = Some h"
  shows "\<exists>r \<in> set (roles (db s)). role_name r = ''admin'' \<and>
    seed_admin w s = (Inr (), s\<lparr>db := (db s)\<lparr>users :=
      [\<lparr>user_id = fresh_uuid w, user_email = ''admin'', user_password_hash = h, user_role_id = role_id r,
        user_created_at = db_now w, user_updated_at = db_now w\<rparr>]\<rparr>\<rparr>)"
proof -
  have "set (map role_name (roles (db s))) = {''admin'', ''operator'', ''viewer''}"
    using assms(2) by (simp add: database_ok_def)
  then have "find (\<lambda>r. role_name r = ''admin'') (roles (db s)) \<noteq> None"
    unfolding find_None_key by simp
  then obtain r where r: "find (\<lambda>r. role_name r = ''admin'') (roles (db s)) = Some r" by blast
  have in_roles: "r \<in> set (roles (db s))" "role_name r = ''admin''"
    using find_key_Some [OF r] by auto
  then have known: "role_id r \<in> set (map role_id (roles (db s)))" by simp
  have "seed_admin w s = (Inr (), s\<lparr>db := (db s)\<lparr>users :=
      [\<lparr>user_id = fresh_uuid w, user_email = ''admin'', user_password_hash = h, user_role_id = role_id r,
        user_created_at = db_now w, user_updated_at = db_now w\<rparr>]\<rparr>\<rparr>)"
    using assms(1,3,4) r known
    by (simp add: seed_admin_def prog_simps insert_into_def user_check_def put_defs)
  with in_roles show ?thesis by blast
qed

lemma migrate_main_later:
  "users e \<noteq> [] \<Longrightarrow> migrate_main w x ids lost (Some e) = (r, d') \<Longrightarrow> d' = Some e"
  using seed_admin_later [of "(new_app e [])\<lparr>faults := lost\<rparr>" w]
  by (auto simp: migrate_main_def open_database_def run_migrations_def new_app_def
      split: sum.splits prod.splits if_splits)

lemma migrate_main_first:
  assumes "users (run_migrations ids (db_now w) d) = []" and "database_ok (run_migrations ids (db_now w) d)"
    and "env_var w ''DATABASE_URL'' = Some url" and "pg_connects x url" and "pg_migrates x"
    and "hash_password w ''admin'' = Some h"
  shows "\<exists>e u r. migrate_main w x ids [] d = (Inr (), Some e) \<and> users e = [u] \<and>
    user_email u = ''admin'' \<and> user_password_hash u = h \<and> r \<in> set (roles e) \<and>
    user_role_id u = role_id r \<and> role_name r = ''admin''"
proof -
  let ?s = "(new_app (run_migrations ids (db_now w) d) [])\<lparr>faults := []\<rparr>"
  from seed_admin_first [of ?s w h] assms(1,2,6) obtain r where
    "r \<in> set (roles (run_migrations ids (db_now w) d))" "role_name r = ''admin''"
    "seed_admin w ?s = (Inr (), ?s\<lparr>db := (db ?s)\<lparr>users :=
      [\<lparr>user_id = fresh_uuid w, user_email = ''admin'', user_password_hash = h, user_role_id = role_id r,
        user_created_at = db_now w, user_updated_at = db_now w\<rparr>]\<rparr>\<rparr>)"
    by (auto simp: new_app_def)
  with assms(3-5) show ?thesis
    by (simp add: migrate_main_def expect_env_def open_database_def new_app_def) blast
qed

text \<open>
  C11. The life of an installation: however often \<open>migrate\<close> and the server are started, fail to
  start, or are stopped, and whatever the server did in between, in whatever order the statements
  of its concurrent handlers came, the database keeps its integrity and its three roles, and a
  running server has the invariants of its channels. A restart of the server keeps every row and
  forgets every connection. \<open>migrate\<close> changes nothing once there is an account; and whenever
  there is none, be it on the first day or after the last one was deleted, it creates the
  administrator \<open>admin\<close> with the password \<open>admin\<close> (not \<open>admin@localhost\<close>, and not in a migration,
  as \<open>docs/deployment.md\<close> says).
\<close>

theorem installation_life:
  assumes "life S d" and "d = Some e"
  shows "db_ok e \<and> map role_name (roles e) = [''admin'', ''operator'', ''viewer''] \<and>
    (\<forall>T. S = Some T \<longrightarrow> db (srv T) = e \<and> channels_apart (srv T) \<and>
       (\<forall>n c. map_of (node_txs (srv T)) n = Some c \<longrightarrow> online n (srv T))) \<and>
    (\<forall>w x ids r d'. inj_on ids {..6} \<and> server_main w x ids d = (r, d') \<longrightarrow>
       d' = d \<and> (\<forall>T. r = Inr T \<longrightarrow> db (srv T) = e \<and> (\<forall>n. \<not> online n (srv T)))) \<and>
    (users e \<noteq> [] \<longrightarrow> (\<forall>w x ids lost. snd (migrate_main w x ids lost d) = d)) \<and>
    (users e = [] \<longrightarrow> (\<forall>w x ids url h. env_var w ''DATABASE_URL'' = Some url \<and> pg_connects x url \<and>
       pg_migrates x \<and> hash_password w ''admin'' = Some h \<longrightarrow>
       (\<exists>f u r. migrate_main w x ids [] d = (Inr (), Some f) \<and> users f = [u] \<and>
          user_email u = ''admin'' \<and> user_password_hash u = h \<and> r \<in> set (roles f) \<and>
          user_role_id u = role_id r \<and> role_name r = ''admin'')))"
proof -
  from life_ok [OF assms(1)] assms(2) have ok: "database_ok e"
    and run: "\<And>T. S = Some T \<Longrightarrow> server_ok T \<and> db (srv T) = e" by auto
  have chans: "channels_apart (srv T) \<and> (\<forall>n c. map_of (node_txs (srv T)) n = Some c \<longrightarrow> online n (srv T))"
    if "S = Some T" for T
    using run [OF that] socks_apart [of T] by (auto simp: server_ok_def)
  have restart: "d' = d \<and> (\<forall>T. r = Inr T \<longrightarrow> db (srv T) = e \<and> (\<forall>n. \<not> online n (srv T)))"
    if "inj_on ids {..6}" "server_main w x ids d = (r, d')" for w x ids r d'
  proof -
    have "\<not> online n (new_app b secret)" for n b secret by (simp add: online_def new_app_def)
    then show ?thesis
      using server_main_ok [OF that(2,1)] ok assms(2) by (auto, metis)
  qed
  have later: "users e \<noteq> [] \<Longrightarrow> snd (migrate_main w x ids lost d) = d" for w x ids lost
    using migrate_main_later [of e w x ids lost] assms(2) by (metis prod.collapse)
  have first: "\<exists>f u r. migrate_main w x ids [] d = (Inr (), Some f) \<and> users f = [u] \<and>
      user_email u = ''admin'' \<and> user_password_hash u = h \<and> r \<in> set (roles f) \<and>
      user_role_id u = role_id r \<and> role_name r = ''admin''"
    if "users e = []" "env_var w ''DATABASE_URL'' = Some url" "pg_connects x url" "pg_migrates x"
      "hash_password w ''admin'' = Some h" for w x ids url h
    using migrate_main_first [of ids w d url x h] that ok assms(2) by (simp add: run_migrations_def)
  from ok have "db_ok e" "map role_name (roles e) = [''admin'', ''operator'', ''viewer'']"
    by (simp_all add: database_ok_def)
  moreover have "\<forall>T. S = Some T \<longrightarrow> db (srv T) = e \<and> channels_apart (srv T) \<and>
      (\<forall>n c. map_of (node_txs (srv T)) n = Some c \<longrightarrow> online n (srv T))"
    using run chans by blast
  moreover have "\<forall>w x ids r d'. inj_on ids {..6} \<and> server_main w x ids d = (r, d') \<longrightarrow>
      d' = d \<and> (\<forall>T. r = Inr T \<longrightarrow> db (srv T) = e \<and> (\<forall>n. \<not> online n (srv T)))"
    using restart by blast
  moreover have "users e \<noteq> [] \<longrightarrow> (\<forall>w x ids lost. snd (migrate_main w x ids lost d) = d)"
    using later by blast
  moreover have "users e = [] \<longrightarrow> (\<forall>w x ids url h. env_var w ''DATABASE_URL'' = Some url \<and> pg_connects x url \<and>
      pg_migrates x \<and> hash_password w ''admin'' = Some h \<longrightarrow>
      (\<exists>f u r. migrate_main w x ids [] d = (Inr (), Some f) \<and> users f = [u] \<and>
         user_email u = ''admin'' \<and> user_password_hash u = h \<and> r \<in> set (roles f) \<and>
         user_role_id u = role_id r \<and> role_name r = ''admin''))"
    using first by simp
  ultimately show ?thesis by (intro conjI)
qed

text \<open>A first installation: migrated and seeded, started, stopped, migrated and started again.\<close>

definition install_ext :: ext where
  "install_ext = sample_ext\<lparr>env_var := map_of [(''DATABASE_URL'', ''postgres://db''), (''JWT_SECRET'', ''secret'')]\<rparr>"

definition any_host :: host_ext where
  "any_host = \<lparr>pg_connects = (\<lambda>_. True), pg_migrates = True, can_bind = (\<lambda>_. True)\<rparr>"

lemma install_env:
  "env_var install_ext ''DATABASE_URL'' = Some ''postgres://db''" "env_var install_ext ''JWT_SECRET'' = Some ''secret''"
  "hash_password install_ext ''admin'' = Some ''$admin''"
  by (simp_all add: install_ext_def hash_password_def sample_ext_def)

theorem installation_life_witness:
  "\<exists>e S. life None (Some e) \<and> life (Some S) (Some e) \<and> map user_email (users e) = [''admin''] \<and>
     snd (migrate_main install_ext any_host word_of_nat [True] (Some e)) = Some e"
proof -
  let ?ids = "word_of_nat :: nat \<Rightarrow> uuid"
  have ids: "inj_on ?ids {..6}"
  proof -
    have "take_bit 128 i = i" if "i \<le> 6" for i :: nat
      using that by (simp add: take_bit_nat_eq_self_iff)
    then show ?thesis by (auto simp: inj_on_def word_of_nat_eq_iff)
  qed
  have d: "users (run_migrations ?ids (db_now install_ext) None) = []"
    by (simp add: run_migrations_def bootstrap_db_def)
  have host: "pg_connects any_host ''postgres://db''" "pg_migrates any_host" by (simp_all add: any_host_def)
  from migrate_main_first [OF d migrations_ok [OF ids] install_env(1) host install_env(3)]
  obtain e u where e: "migrate_main install_ext any_host ?ids [] None = (Inr (), Some e)"
    "users e = [u]" "user_email u = ''admin''" by auto
  have l: "life None (Some e)" using life.migrate [OF life.fresh ids e(1)] .
  obtain S where S: "server_main install_ext any_host ?ids (Some e) = (Inr S, Some e)"
    using install_env by (simp add: server_main_def server_config_from_env_def expect_env_def
        open_database_def run_migrations_def any_host_def)
  have "life (Some S) (Some e)" using life.started [OF l ids S] .
  moreover have "snd (migrate_main install_ext any_host ?ids [True] (Some e)) = Some e"
    using installation_life [OF l refl] e(2) by simp
  ultimately show ?thesis using l e by auto
qed

end
