(* ===== verification/NodeState.thy ===== *)
theory NodeState
  imports Sample
begin

text \<open>
  The state of a recording node (\<open>node/src/main.rs\<close>): the shared camera list, the channels
  between its tasks, the socket to the coordinator and the file system, with the part of
  \<open>std::path\<close> and \<open>tokio::fs\<close> the node's code calls.
\<close>

section \<open>Paths\<close>

text \<open>
  A path is the list of its components, as \<open>Path::components\<close> yields them below the root;
  \<open>resolve\<close> is what the operating system makes of a relative path: empty and \<open>.\<close> components
  are skipped, \<open>..\<close> goes up (links are not modelled). \<open>Path::join\<close> with an absolute path
  discards the base.
\<close>

type_synonym path = "string list"

fun split_slash :: "string \<Rightarrow> string list" where
  "split_slash [] = [[]]"
| "split_slash (c # cs) =
     (if c = CHR ''/'' then [] # split_slash cs
      else (c # hd (split_slash cs)) # tl (split_slash cs))"

fun resolve :: "path \<Rightarrow> string list \<Rightarrow> path" where
  "resolve base [] = base"
| "resolve base (c # cs) =
     (if c = [] \<or> c = ''.'' then resolve base cs
      else if c = ''..'' then resolve (butlast base) cs
      else resolve (base @ [c]) cs)"

definition path_join :: "path \<Rightarrow> string \<Rightarrow> path" where
  "path_join base rel =
     resolve (if starts_with ''/'' rel then [] else base) (split_slash rel)"

definition show_path :: "path \<Rightarrow> string" where
  "show_path p = concat (map (\<lambda>c. CHR ''/'' # c) p)"

text \<open>A relative path as text, its components separated by slashes.\<close>

fun show_rel :: "path \<Rightarrow> string" where
  "show_rel [] = []"
| "show_rel [c] = c"
| "show_rel (c # d # cs) = c @ ''/'' @ show_rel (d # cs)"

text \<open>\<open>Path::strip_prefix\<close>, \<open>parent\<close>, \<open>file_name\<close>, \<open>file_stem\<close>, \<open>extension\<close>.\<close>

definition strip_dir :: "path \<Rightarrow> path \<Rightarrow> path option" where
  "strip_dir dir p = (if take (length dir) p = dir then Some (drop (length dir) p) else None)"

definition parent :: "path \<Rightarrow> path option" where
  "parent p = (if p = [] then None else Some (butlast p))"

definition file_name :: "path \<Rightarrow> string option" where
  "file_name p = (if p = [] then None else Some (last p))"

text \<open>The part of a name before its last dot and the part behind it; a leading dot is no separator.\<close>

definition split_ext :: "string \<Rightarrow> string \<times> string option" where
  "split_ext name =
     (let r = rev name; e = takeWhile (\<lambda>c. c \<noteq> CHR ''.'') r; s = dropWhile (\<lambda>c. c \<noteq> CHR ''.'') r
      in if length s \<le> 1 then (name, None) else (rev (tl s), Some (rev e)))"

definition file_stem :: "path \<Rightarrow> string option" where
  "file_stem p = map_option (fst \<circ> split_ext) (file_name p)"

definition extension :: "path \<Rightarrow> string option" where
  "extension p = Option.bind (file_name p) (snd \<circ> split_ext)"

lemma split_slash_ne [simp]: "split_slash s \<noteq> []"
  by (cases s) auto

lemma split_slash_plain: "CHR ''/'' \<notin> set s \<Longrightarrow> split_slash s = [s]"
  by (induction s) auto

lemma split_slash_append:
  "CHR ''/'' \<notin> set s \<Longrightarrow> split_slash (s @ CHR ''/'' # t) = s # split_slash t"
  by (induction s) auto

lemma strip_dir_append [simp]: "strip_dir dir (dir @ p) = Some p"
  by (simp add: strip_dir_def)

lemma strip_dir_Some: "strip_dir dir p = Some q \<longleftrightarrow> p = dir @ q"
  by (auto simp: strip_dir_def) (metis append_take_drop_id)

lemma split_ext_mp4:
  assumes "stem \<noteq> []"
  shows "split_ext (stem @ ''.mp4'') = (stem, Some ''mp4'')"
proof -
  have "dropWhile (\<lambda>c. c \<noteq> CHR ''.'') (rev (stem @ ''.mp4'')) = CHR ''.'' # rev stem"
    "takeWhile (\<lambda>c. c \<noteq> CHR ''.'') (rev (stem @ ''.mp4'')) = ''4pm''" by simp_all
  then show ?thesis using assms by (simp add: split_ext_def Let_def)
qed

section \<open>File system\<close>

text \<open>
  The regular files in the order a directory walk meets them, and the directories.
  \<open>remove_dir\<close> takes away an empty directory only.
\<close>

record file_entry =
  content :: string
  mtime :: int

record fs =
  fs_files :: "(path \<times> file_entry) list"
  fs_dirs :: "path list"

definition read_file :: "path \<Rightarrow> fs \<Rightarrow> string option" where
  "read_file p f = map_option content (map_of (fs_files f) p)"

definition put_file :: "path \<Rightarrow> file_entry \<Rightarrow> fs \<Rightarrow> fs" where
  "put_file p x f = f\<lparr>fs_files :=
     (if p \<in> fst ` set (fs_files f)
      then map (\<lambda>(q, y). if q = p then (q, x) else (q, y)) (fs_files f)
      else fs_files f @ [(p, x)])\<rparr>"

definition unlink :: "path \<Rightarrow> fs \<Rightarrow> fs" where
  "unlink p f = f\<lparr>fs_files := filter (\<lambda>(q, _). q \<noteq> p) (fs_files f)\<rparr>"

definition dir_empty :: "path \<Rightarrow> fs \<Rightarrow> bool" where
  "dir_empty d f \<longleftrightarrow>
     list_all (\<lambda>(q, _). parent q \<noteq> Some d) (fs_files f) \<and>
     list_all (\<lambda>q. parent q \<noteq> Some d) (fs_dirs f)"

definition rmdir :: "path \<Rightarrow> fs \<Rightarrow> fs" where
  "rmdir d f = (if dir_empty d f then f\<lparr>fs_dirs := removeAll d (fs_dirs f)\<rparr> else f)"

lemma map_of_filter_key: "map_of (filter (\<lambda>(q, _). q \<noteq> p) xs) = (map_of xs)(p := None)"
  by (induction xs) (auto simp: fun_eq_iff)

lemma read_unlink [simp]: "read_file q (unlink p f) = (if q = p then None else read_file q f)"
  by (simp add: read_file_def unlink_def map_of_filter_key)

lemma map_of_replace:
  "map_of (map (\<lambda>(q, y). if q = p then (q, x) else (q, y)) xs) =
     (if p \<in> fst ` set xs then (map_of xs)(p \<mapsto> x) else map_of xs)"
  by (induction xs) (auto simp: fun_eq_iff)

lemma read_put [simp]:
  "read_file q (put_file p x f) = (if q = p then Some (content x) else read_file q f)"
  by (auto simp: read_file_def put_file_def map_of_replace map_add_def split: option.split
      dest!: map_of_SomeD intro: rev_image_eqI)

lemma read_rmdir [simp]: "read_file q (rmdir d f) = read_file q f"
  by (simp add: read_file_def rmdir_def)

lemma files_rmdir [simp]: "fs_files (rmdir d f) = fs_files f"
  by (simp add: rmdir_def)

section \<open>The node\<close>

text \<open>
  What the node's code calls but does not define: \<open>env\<close> are the parameters shared with the
  coordinator; \<open>seg_json\<close> and \<open>seg_parse\<close> are \<open>serde_json\<close> on a \<open>SegmentPayload\<close>, \<open>uuid5\<close> is
  \<open>Uuid::new_v5\<close> in the URL namespace, \<open>parse_stamp\<close> is chrono's parser for
  \<open>%Y%m%d_%H%M%S\<close>, taken as UTC, \<open>mtx_paths\<close> reads the body of MediaMTX's path list as name,
  readiness and number of readers, and \<open>disks\<close> lists mount point, total and available bytes of
  the disks for given files.
\<close>

record node_ext =
  env :: ext
  seg_json :: "segment_payload \<Rightarrow> string"
  seg_parse :: "string \<Rightarrow> segment_payload option"
  uuid5 :: "string \<Rightarrow> uuid"
  parse_stamp :: "string \<Rightarrow> time option"
  mtx_paths :: "string \<Rightarrow> (string \<times> bool \<times> nat) list option"
  disks :: "fs \<Rightarrow> (path \<times> nat \<times> nat) list"

text \<open>
  \<open>n_cameras\<close> is the shared list; \<open>n_mtx\<close>, \<open>n_flush\<close>, \<open>n_events\<close> and \<open>n_migrate\<close> are the
  channels to the MediaMTX supervisor and to the socket task; \<open>n_sent\<close> is what has been sent
  on the socket; \<open>n_io\<close> says which of the coming I/O operations fail (none, when the list is
  used up).
\<close>

record node_app =
  n_cameras :: "node_camera_cfg list"
  n_mtx :: "node_camera_cfg list list"
  n_flush :: nat
  n_events :: "event_payload list"
  n_migrate :: "segment_migrated_payload list"
  n_seq :: u64
  n_sent :: "ws_message list"
  n_fs :: fs
  n_io :: "bool list"

datatype node_error =
    Io_error
  | Bad_path
  | Bad_name
  | Bad_timestamp
  | Http_failed
  | Put_failed nat

type_synonym 'a node_prog = "(node_app, node_error, 'a) prog"

text \<open>One I/O operation with its effect on success.\<close>

definition io :: "(node_app \<Rightarrow> node_app) \<Rightarrow> unit node_prog" where
  "io f s =
     (if n_io s \<noteq> [] \<and> hd (n_io s) then (Inl Io_error, s\<lparr>n_io := tl (n_io s)\<rparr>)
      else (Inr (), f (s\<lparr>n_io := tl (n_io s)\<rparr>)))"

definition on_fs :: "(fs \<Rightarrow> fs) \<Rightarrow> node_app \<Rightarrow> node_app" where
  "on_fs f s = s\<lparr>n_fs := f (n_fs s)\<rparr>"

text \<open>\<open>tokio::fs::remove_file\<close> fails where there is no file.\<close>

definition remove_file :: "path \<Rightarrow> unit node_prog" where
  "remove_file p s =
     (if read_file p (n_fs s) = None then (Inl Io_error, s) else io (on_fs (unlink p)) s)"

definition remove_dir :: "path \<Rightarrow> unit node_prog" where
  "remove_dir d = io (on_fs (rmdir d))"

text \<open>\<open>sink.send\<close> of a message.\<close>

definition sink_send :: "ws_message \<Rightarrow> unit node_prog" where
  "sink_send m = io (\<lambda>s. s\<lparr>n_sent := n_sent s @ [m]\<rparr>)"

lemma io_ok [prog_simps]: "n_io s = [] \<Longrightarrow> io f s = (Inr (), f s)"
  by (cases s) (simp add: io_def)

lemma on_fs_simps [simp]:
  "n_fs (on_fs f s) = f (n_fs s)" "n_io (on_fs f s) = n_io s" "n_sent (on_fs f s) = n_sent s"
  "n_cameras (on_fs f s) = n_cameras s" "n_seq (on_fs f s) = n_seq s"
  "n_flush (on_fs f s) = n_flush s" "n_events (on_fs f s) = n_events s"
  "n_migrate (on_fs f s) = n_migrate s" "n_mtx (on_fs f s) = n_mtx s"
  by (simp_all add: on_fs_def)

lemma remove_file_ok [prog_simps]:
  "n_io s = [] \<Longrightarrow> read_file p (n_fs s) = Some x \<Longrightarrow> remove_file p s = (Inr (), on_fs (unlink p) s)"
  by (simp add: remove_file_def io_ok)

text \<open>An invariant of the node survives an operation that keeps it, failed or not.\<close>

lemma keeps_io: "(\<And>s. I s \<Longrightarrow> I (s\<lparr>n_io := tl (n_io s)\<rparr>)) \<Longrightarrow> (\<And>s. I s \<Longrightarrow> I (f s)) \<Longrightarrow> keeps I (io f)"
  by (auto simp: keeps_def io_def)

text \<open>The node at start.\<close>

definition new_node_app :: "fs \<Rightarrow> node_app" where
  "new_node_app f =
     \<lparr>n_cameras = [], n_mtx = [], n_flush = 0, n_events = [], n_migrate = [], n_seq = 0,
      n_sent = [], n_fs = f, n_io = []\<rparr>"

section \<open>Configuration\<close>

text \<open>
  \<open>NodeConfig\<close>, its derived paths, and \<open>env_u16\<close>. The source keeps a relative \<open>DATA_DIR\<close> as it is.
  A file operation resolves it against the working directory, so \<open>data_dir\<close> is the resolved path;
  \<open>data_dir_rooted\<close> keeps what comparisons of the path itself can see, whether it started at the
  root.
\<close>

record node_config_env =
  coordinator_url :: string
  data_dir :: path
  data_dir_rooted :: bool
  mediamtx_binary :: string
  mediamtx_api_port :: u16
  mediamtx_rtsp_port :: u16
  heartbeat_secs :: u64
  http_port :: u16

definition env_u16 :: "ext \<Rightarrow> string \<Rightarrow> u16 \<Rightarrow> u16" where
  "env_u16 w key dflt =
     (case Option.bind (env_var w key) (parse_unsigned 65535) of
        None \<Rightarrow> dflt
      | Some v \<Rightarrow> of_nat v)"

text \<open>\<open>project_dir\<close> is the data directory of the \<open>directories\<close> crate, if there is one.\<close>

definition node_config_from_env :: "ext \<Rightarrow> path option \<Rightarrow> path \<Rightarrow> node_config_env" where
  "node_config_from_env w project_dir cwd =
     \<lparr>coordinator_url = (case env_var w ''COORDINATOR_URL'' of
         None \<Rightarrow> ''http://localhost:8080'' | Some u \<Rightarrow> u),
      data_dir = (case env_var w ''DATA_DIR'' of
         Some d \<Rightarrow> path_join cwd d
       | None \<Rightarrow> (case project_dir of Some d \<Rightarrow> d | None \<Rightarrow> cwd)),
      data_dir_rooted = (case env_var w ''DATA_DIR'' of
         Some d \<Rightarrow> starts_with ''/'' d
       | None \<Rightarrow> project_dir \<noteq> None),
      mediamtx_binary = (case env_var w ''MEDIAMTX_BIN'' of None \<Rightarrow> ''mediamtx'' | Some b \<Rightarrow> b),
      mediamtx_api_port = env_u16 w ''MEDIAMTX_API_PORT'' 9997,
      mediamtx_rtsp_port = env_u16 w ''MEDIAMTX_RTSP_PORT'' 8554,
      heartbeat_secs = 30,
      http_port = env_u16 w ''NODE_HTTP_PORT'' 8890\<rparr>"

definition mediamtx_config_path :: "node_config_env \<Rightarrow> path" where
  "mediamtx_config_path c = data_dir c @ [''mediamtx.yml'']"

definition recordings_dir :: "node_config_env \<Rightarrow> path" where
  "recordings_dir c = data_dir c @ [''recordings'']"

definition segment_queue_path :: "node_config_env \<Rightarrow> path" where
  "segment_queue_path c = data_dir c @ [''segment_queue.jsonl'']"

section \<open>A sample node\<close>

text \<open>
  Two segments and a note on a disk that counts files; the functions of the outside world are
  simple ones with the documented behaviour.
\<close>

definition sample_config :: node_config_env where
  "sample_config =
     \<lparr>coordinator_url = ''http://c:8080'', data_dir = [''data''], data_dir_rooted = True,
      mediamtx_binary = ''mediamtx'',
      mediamtx_api_port = 9997, mediamtx_rtsp_port = 8554, heartbeat_secs = 30, http_port = 8890\<rparr>"

definition sample_new_path :: path where
  "sample_new_path = [''data'', ''recordings'', ''door'', ''19700101_000200.mp4'']"

definition sample_old_path :: path where
  "sample_old_path = [''data'', ''recordings'', ''door'', ''19700101_000100.mp4'']"

definition sample_fs :: fs where
  "sample_fs =
     \<lparr>fs_files = [(sample_new_path, \<lparr>content = ''new'', mtime = 120\<rparr>),
        ([''data'', ''note.txt''], \<lparr>content = ''x'', mtime = 5\<rparr>),
        (sample_old_path, \<lparr>content = ''old'', mtime = 60\<rparr>)],
      fs_dirs = [[''data''], [''data'', ''recordings''], [''data'', ''recordings'', ''door'']]\<rparr>"

definition sample_cam_cfg :: node_camera_cfg where
  "sample_cam_cfg =
     \<lparr>ncc_id = 30, ncc_name = ''door'', ncc_rtsp_url = ''rtsp://c'', ncc_stream_path = ''door'',
      ncc_enabled = True, ncc_onvif_url = None, ncc_onvif_username = None,
      ncc_onvif_password = None, ncc_motion_detection = True\<rparr>"

definition sample_queued :: segment_payload where
  "sample_queued =
     \<lparr>seg_id = 60, seg_camera_id = 30, seg_stream_path = ''door'',
      seg_storage_uri = ''local://door/19700101_000100.mp4'', seg_started_at = seconds 60,
      seg_ended_at = seconds 120, seg_duration_secs = 60, seg_size_bytes = 3\<rparr>"

definition sample_node_ext :: node_ext where
  "sample_node_ext =
     \<lparr>env = sample_ext, seg_json = (\<lambda>e. seg_storage_uri e),
      seg_parse = (\<lambda>l. if l = seg_storage_uri sample_queued then Some sample_queued else None),
      uuid5 = (\<lambda>u. 60),
      parse_stamp = map_of [(''19700101_000100'', seconds 60), (''19700101_000200'', seconds 120)],
      mtx_paths = (\<lambda>b. None),
      disks = (\<lambda>f. [([], 10, 10 - 3 * length (fs_files f))])\<rparr>"

definition sample_node_app :: node_app where
  "sample_node_app = (new_node_app sample_fs)\<lparr>n_cameras := [sample_cam_cfg]\<rparr>"

lemmas sample_node_defs =
  sample_config_def sample_new_path_def sample_old_path_def sample_fs_def sample_cam_cfg_def
  sample_queued_def sample_node_ext_def sample_node_app_def new_node_app_def
  recordings_dir_def segment_queue_path_def

end
