(* ===== verification/NodeSetup.thy ===== *)
theory NodeSetup
  imports NodeState
begin

text \<open>
  How a node comes by its identity: from the environment, from \<open>state.json\<close>, or by registering
  with the coordinator (\<open>node/src/identity.rs\<close>, \<open>node/src/registration.rs\<close>,
  \<open>node/src/hardware.rs\<close> and the start of \<open>node/src/main.rs\<close>).
\<close>

record node_identity =
  ni_node_id :: uuid
  ni_api_key :: string

text \<open>
  \<open>Uuid::parse_str\<close>, the host name, and the JSON the node writes and reads:
  \<open>state.json\<close>, the body of a registration and its answer.
\<close>

record setup_ext =
  parse_uuid :: "string \<Rightarrow> uuid option"
  hostname :: "string option"
  ident_json :: "node_identity \<Rightarrow> string"
  ident_parse :: "string \<Rightarrow> node_identity option"
  register_json :: "string \<Rightarrow> hardware_profile \<Rightarrow> string"
  register_parse :: "string \<Rightarrow> (uuid \<times> string) option"

definition state_file :: "path \<Rightarrow> path" where
  "state_file dir = dir @ [''state.json'']"

definition identity_from_env :: "ext \<Rightarrow> setup_ext \<Rightarrow> node_identity option" where
  "identity_from_env w x =
     Option.bind (env_var w ''NODE_ID'') (\<lambda>raw_id.
     Option.bind (env_var w ''NODE_API_KEY'') (\<lambda>api_key.
     Option.bind (parse_uuid x raw_id) (\<lambda>i.
     Some \<lparr>ni_node_id = i, ni_api_key = api_key\<rparr>)))"

definition identity_load :: "ext \<Rightarrow> setup_ext \<Rightarrow> path \<Rightarrow> fs \<Rightarrow> node_identity option" where
  "identity_load w x dir f =
     (case identity_from_env w x of
        Some i \<Rightarrow> Some i
      | None \<Rightarrow> Option.bind (read_file (state_file dir) f) (ident_parse x))"

definition make_dir :: "path \<Rightarrow> fs \<Rightarrow> fs" where
  "make_dir d f = (if d \<in> set (fs_dirs f) then f else f\<lparr>fs_dirs := fs_dirs f @ [d]\<rparr>)"

definition identity_save :: "ext \<Rightarrow> setup_ext \<Rightarrow> path \<Rightarrow> node_identity \<Rightarrow> unit node_prog" where
  "identity_save w x dir i =
     andthen (io (on_fs (make_dir dir))) (\<lambda>_.
     io (on_fs (put_file (state_file dir) \<lparr>content = ident_json x i, mtime = utc_now w\<rparr>)))"

text \<open>\<open>register\<close>: one request; any failure or a status that is an error ends it.\<close>

definition register_name :: "ext \<Rightarrow> setup_ext \<Rightarrow> string" where
  "register_name w x =
     (case env_var w ''NODE_NAME'' of
        Some n \<Rightarrow> n
      | None \<Rightarrow> (case hostname x of Some h \<Rightarrow> h | None \<Rightarrow> ''unnamed-node''))"

definition register :: "ext \<Rightarrow> setup_ext \<Rightarrow> node_config_env \<Rightarrow> hardware_profile \<Rightarrow> node_identity node_prog" where
  "register w x cfg hw =
     andthen (ok_or Http_failed (http w
       \<lparr>rq_method = ''POST'', rq_url = coordinator_url cfg @ ''/api/v1/nodes/register'',
        rq_headers = [(''content-type'', ''application/json'')],
        rq_body = register_json x (register_name w x) hw\<rparr>)) (\<lambda>r.
     andthen (ensure (\<not> (400 \<le> rs_status r \<and> rs_status r < 600)) Http_failed) (\<lambda>_.
     andthen (ok_or Http_failed (register_parse x (rs_body r))) (\<lambda>(i, key).
     ret \<lparr>ni_node_id = i, ni_api_key = key\<rparr>)))"

text \<open>
  \<open>hardware::detect\<close> on Linux: \<open>brands\<close> are the processors, the memory is in bytes, and
  \<open>exists\<close> says which device files there are.
\<close>

definition detect :: "string list \<Rightarrow> u64 \<Rightarrow> u64 \<Rightarrow> (string \<Rightarrow> bool) \<Rightarrow> hardware_profile" where
  "detect brands memory available exists =
     \<lparr>cpu_cores = of_nat (length brands),
      cpu_model = (case brands of [] \<Rightarrow> [] | b # _ \<Rightarrow> b),
      ram_total_mb = memory div 1024 div 1024, ram_available_mb = available div 1024 div 1024,
      hw_accel =
        (if exists ''/dev/nvidia0'' then [''nvidia-cuda''] else []) @
        (if exists ''/dev/dri/renderD128'' then [''vaapi''] else []) @
        (if exists ''/dev/video0'' then [''v4l2''] else [])\<rparr>"

text \<open>The start of \<open>main\<close>: the stored identity, or a fresh one that is stored before it is used.\<close>

definition start_identity :: "ext \<Rightarrow> setup_ext \<Rightarrow> node_config_env \<Rightarrow> hardware_profile \<Rightarrow> node_identity node_prog" where
  "start_identity w x cfg hw =
     andthen (io (on_fs (make_dir (data_dir cfg)))) (\<lambda>_.
     andthen (gets (\<lambda>s. identity_load w x (data_dir cfg) (n_fs s))) (\<lambda>r.
     case r of
       Some i \<Rightarrow> ret i
     | None \<Rightarrow>
         andthen (register w x cfg hw) (\<lambda>i.
         andthen (identity_save w x (data_dir cfg) i) (\<lambda>_.
         ret i))))"

section \<open>A node registers once\<close>

lemma read_make_dir [simp]: "read_file p (make_dir d f) = read_file p f"
  by (simp add: read_file_def make_dir_def)

lemma io_Inr: "io f s = (Inr u, t) \<Longrightarrow> t = f (s\<lparr>n_io := tl (n_io s)\<rparr>)"
  by (auto simp: io_def split: if_splits)

lemma start_identity_stored:
  assumes "start_identity w x cfg hw s = (Inr i, t)" and "ident_parse x (ident_json x i) = Some i"
  shows "identity_load w x (data_dir cfg) (n_fs t) = Some i"
proof -
  let ?d = "data_dir cfg"
  from assms(1) obtain s1 where
    s1: "s1 = on_fs (make_dir ?d) (s\<lparr>n_io := tl (n_io s)\<rparr>)" and
    go: "(case identity_load w x ?d (n_fs s1) of
       Some i \<Rightarrow> ret i
     | None \<Rightarrow> andthen (register w x cfg hw) (\<lambda>i.
         andthen (identity_save w x ?d i) (\<lambda>_. ret i))) s1 = (Inr i, t)"
    by (auto simp: start_identity_def andthen_Inr dest!: io_Inr)
  show ?thesis
  proof (cases "identity_load w x ?d (n_fs s1)")
    case (Some j)
    with go show ?thesis by simp
  next
    case None
    then have env: "identity_from_env w x = None"
      by (auto simp: identity_load_def split: option.splits)
    from None go have "read_file (state_file ?d) (n_fs t) = Some (ident_json x i)"
      by (auto simp: andthen_Inr identity_save_def dest!: io_Inr)
    with env assms(2) show ?thesis by (simp add: identity_load_def)
  qed
qed

end
