(* ===== verification/SegmentQueue.thy ===== *)
theory SegmentQueue
  imports NodeState
begin

text \<open>
  The durable queue of finished segments (\<open>node/src/recorder/queue.rs\<close>): a file with one line
  of JSON per segment, appended to by the recorder and read and removed by the socket task.
\<close>

section \<open>Lines of a text\<close>

text \<open>\<open>str::lines\<close>: split after every line feed; a carriage return before it is dropped too.\<close>

definition strip_cr :: "string \<Rightarrow> string" where
  "strip_cr l = (if l \<noteq> [] \<and> last l = CHR 0x0D then butlast l else l)"

function text_lines :: "string \<Rightarrow> string list" where
  "text_lines s =
     (if s = [] then []
      else case dropWhile (\<lambda>c. c \<noteq> CHR 0x0A) s of
             [] \<Rightarrow> [s]
           | _ # rest \<Rightarrow> strip_cr (takeWhile (\<lambda>c. c \<noteq> CHR 0x0A) s) # text_lines rest)"
  by pat_completeness auto
termination
proof (relation "measure length")
  fix s c and rest :: string
  assume "dropWhile (\<lambda>c. c \<noteq> CHR 0x0A) s = c # rest"
  then have "length (c # rest) \<le> length s" by (metis length_dropWhile_le)
  then show "(rest, s) \<in> measure length" by simp
qed simp

declare text_lines.simps [simp del]

lemma text_lines_Nil [simp]: "text_lines [] = []"
  by (subst text_lines.simps) simp

lemma cut_at_lf:
  assumes "CHR 0x0A \<notin> set l"
  shows "dropWhile (\<lambda>c. c \<noteq> CHR 0x0A) (l @ CHR 0x0A # s) = CHR 0x0A # s"
    and "takeWhile (\<lambda>c. c \<noteq> CHR 0x0A) (l @ CHR 0x0A # s) = l"
    and "dropWhile (\<lambda>c. c \<noteq> CHR 0x0A) l = []"
  using assms by (induction l) auto

lemma text_lines_line:
  assumes "CHR 0x0A \<notin> set l"
  shows "text_lines (l @ CHR 0x0A # s) = strip_cr l # text_lines s"
  using cut_at_lf [OF assms] by (subst text_lines.simps) (simp del: dropWhile_eq_Cons_conv)

lemma text_lines_partial:
  assumes "CHR 0x0A \<notin> set l" and "l \<noteq> []"
  shows "text_lines l = [l]"
  using assms(2) by (subst text_lines.simps) (simp only: cut_at_lf(3) [OF assms(1)] list.case if_False)

text \<open>A text of whole lines: empty, or ending in a line feed.\<close>

definition whole_lines :: "string \<Rightarrow> bool" where
  "whole_lines s \<longleftrightarrow> s = [] \<or> last s = CHR 0x0A"

lemma text_lines_append:
  assumes "whole_lines s"
  shows "text_lines (s @ t) = text_lines s @ text_lines t"
  using assms
proof (induction s rule: text_lines.induct)
  case (1 s)
  show ?case
  proof (cases "s = []")
    case False
    with 1 have nl: "CHR 0x0A \<in> set s" by (auto simp: whole_lines_def dest: last_in_set)
    then obtain l r where s: "s = l @ CHR 0x0A # r" and l: "CHR 0x0A \<notin> set l"
      by (meson split_list_first)
    have d: "dropWhile (\<lambda>c. c \<noteq> CHR 0x0A) s = CHR 0x0A # r"
      using cut_at_lf(1) [OF l] by (simp only: s)
    have "whole_lines r" using "1.prems" by (auto simp: whole_lines_def s split: if_splits)
    from "1.IH" [OF False d this] show ?thesis
      by (simp add: s text_lines_line [OF l])
  qed simp
qed

section \<open>The queue\<close>

definition append_file :: "path \<Rightarrow> string \<Rightarrow> time \<Rightarrow> fs \<Rightarrow> fs" where
  "append_file p x now f =
     put_file p \<lparr>content = (case read_file p f of None \<Rightarrow> [] | Some c \<Rightarrow> c) @ x, mtime = now\<rparr> f"

text \<open>
  The line counts as written when \<open>push\<close> returns. (The source does not flush its \<open>tokio\<close> file, so
  the bytes can reach the file a moment later.)
\<close>

definition queue_push :: "node_ext \<Rightarrow> path \<Rightarrow> segment_payload \<Rightarrow> unit node_prog" where
  "queue_push w p entry =
     io (on_fs (append_file p (seg_json w entry @ nl) (utc_now (env w))))"

text \<open>Lines that do not parse are passed over; a file that cannot be read is empty.\<close>

definition queue_entries :: "node_ext \<Rightarrow> path \<Rightarrow> fs \<Rightarrow> segment_payload list" where
  "queue_entries w p f =
     List.map_filter (seg_parse w)
       (text_lines (case read_file p f of None \<Rightarrow> [] | Some c \<Rightarrow> c))"

definition queue_read_all :: "node_ext \<Rightarrow> path \<Rightarrow> segment_payload list node_prog" where
  "queue_read_all w p =
     andthen (attempt (io (\<lambda>s. s))) (\<lambda>r.
     case r of Inl _ \<Rightarrow> ret [] | Inr _ \<Rightarrow> gets (\<lambda>s. queue_entries w p (n_fs s)))"

definition queue_clear :: "path \<Rightarrow> unit node_prog" where
  "queue_clear p = andthen (attempt (remove_file p)) (\<lambda>_. ret ())"

section \<open>The queue as a log\<close>

text \<open>
  What the recorder and the socket task expect of the queue: appended entries are read back in
  order, clearing leaves nothing. \<open>ok\<close> are the entries it can store and \<open>good\<close> the states in
  which it works.
\<close>

locale segment_log =
  fixes append :: "'e \<Rightarrow> 's \<Rightarrow> 's"
    and entries :: "'s \<Rightarrow> 'e list"
    and clear :: "'s \<Rightarrow> 's"
    and ok :: "'e \<Rightarrow> bool"
    and good :: "'s \<Rightarrow> bool"
  assumes entries_append: "good s \<Longrightarrow> ok e \<Longrightarrow> entries (append e s) = entries s @ [e]"
    and good_append: "good s \<Longrightarrow> ok e \<Longrightarrow> good (append e s)"
    and entries_clear: "entries (clear s) = []"
    and good_clear: "good (clear s)"
begin

lemma entries_fold:
  "good s \<Longrightarrow> \<forall>e \<in> set es. ok e \<Longrightarrow>
     entries (fold append es s) = entries s @ es \<and> good (fold append es s)"
  by (induction es arbitrary: s) (auto simp: entries_append good_append)

lemma refill: "\<forall>e \<in> set es. ok e \<Longrightarrow> entries (fold append es (clear s)) = es"
  using entries_fold [OF good_clear] entries_clear by simp

end

text \<open>
  The documented behaviour of \<open>serde_json\<close> on an entry: its compact text parses back to the
  entry and has no line break in it.
\<close>

definition storable :: "node_ext \<Rightarrow> segment_payload \<Rightarrow> bool" where
  "storable w e \<longleftrightarrow>
     seg_parse w (seg_json w e) = Some e \<and>
     CHR 0x0A \<notin> set (seg_json w e) \<and> CHR 0x0D \<notin> set (seg_json w e)"

definition queue_ok :: "path \<Rightarrow> fs \<Rightarrow> bool" where
  "queue_ok p f \<longleftrightarrow> whole_lines (case read_file p f of None \<Rightarrow> [] | Some c \<Rightarrow> c)"

lemma strip_cr_id: "CHR 0x0D \<notin> set l \<Longrightarrow> strip_cr l = l"
  by (auto simp: strip_cr_def dest: last_in_set)

lemma queue_entries_append:
  assumes "queue_ok p f" and "storable w e"
  shows "queue_entries w p (append_file p (seg_json w e @ nl) now f) = queue_entries w p f @ [e]"
proof -
  let ?c = "case read_file p f of None \<Rightarrow> [] | Some c \<Rightarrow> c"
  have "text_lines (?c @ seg_json w e @ nl) = text_lines ?c @ [seg_json w e]"
    using assms text_lines_append [of ?c "seg_json w e @ nl"]
    by (simp add: queue_ok_def storable_def nl_def text_lines_line strip_cr_id)
  then show ?thesis
    using assms(2) by (simp add: queue_entries_def append_file_def storable_def map_filter_def)
qed

lemma queue_ok_append: "queue_ok p (append_file p (x @ nl) now f)"
  by (simp add: queue_ok_def append_file_def whole_lines_def nl_def)

lemma queue_after_unlink [simp]: "queue_entries w p (unlink p f) = []" "queue_ok p (unlink p f)"
  by (simp_all add: queue_entries_def queue_ok_def whole_lines_def map_filter_def)

interpretation queue: segment_log "\<lambda>e. append_file p (seg_json w e @ nl) now"
  "queue_entries w p" "unlink p" "storable w" "queue_ok p" for p w now
  by unfold_locales (simp_all add: queue_entries_append queue_ok_append)

section \<open>Operations without failures\<close>

lemma queue_push_ok [prog_simps]:
  "n_io s = [] \<Longrightarrow> queue_push w p e s =
     (Inr (), on_fs (append_file p (seg_json w e @ nl) (utc_now (env w))) s)"
  by (simp add: queue_push_def io_ok)

lemma queue_read_all_ok [prog_simps]:
  "n_io s = [] \<Longrightarrow> queue_read_all w p s = (Inr (queue_entries w p (n_fs s)), s)"
  by (simp add: queue_read_all_def andthen_apply io_ok)

lemma unlink_missing: "read_file p f = None \<Longrightarrow> unlink p f = f"
  by (force simp: read_file_def unlink_def map_of_eq_None_iff intro!: fs.equality filter_True)

lemma queue_clear_ok [prog_simps]:
  "n_io s = [] \<Longrightarrow> queue_clear p s = (Inr (), on_fs (unlink p) s)"
  by (auto simp: queue_clear_def andthen_apply remove_file_def io_ok unlink_missing on_fs_def)

end
