(* ===== verification/NodeClient.thy ===== *)
theory NodeClient
  imports NodeSetup SegmentQueue
begin

text \<open>
  The node's side of the socket (\<open>node/src/ws_client.rs\<close>): heartbeats, the flushing of the
  segment queue, motion events and migration notices, and the messages of the coordinator.
\<close>

section \<open>Address\<close>

text \<open>\<open>str::replace\<close> with a pattern that is not empty.\<close>

function replace_str :: "string \<Rightarrow> string \<Rightarrow> string \<Rightarrow> string" where
  "replace_str p r s =
     (if s = [] \<or> p = [] then s
      else if starts_with p s then r @ replace_str p r (drop (length p) s)
      else hd s # replace_str p r (tl s))"
  by pat_completeness auto
termination
  by (relation "measure (\<lambda>(p, r, s). length s)") auto

declare replace_str.simps [simp del]

definition ws_url :: "node_config_env \<Rightarrow> string" where
  "ws_url cfg =
     replace_str ''http://'' ''ws://'' (replace_str ''https://'' ''wss://'' (coordinator_url cfg)) @
     ''/api/v1/ws/node''"

section \<open>Queue and heartbeat\<close>

definition next_seq :: "u64 node_prog" where
  "next_seq = andthen (modify (\<lambda>s. s\<lparr>n_seq := n_seq s + 1\<rparr>)) (\<lambda>_. gets n_seq)"

text \<open>The loop of \<open>flush_queue\<close>; its result is \<open>all_sent\<close>.\<close>

fun send_segments :: "segment_payload list \<Rightarrow> bool node_prog" where
  "send_segments [] = ret True"
| "send_segments (p # ps) =
     andthen next_seq (\<lambda>q.
     andthen (attempt (sink_send (SegmentComplete q p))) (\<lambda>r.
     case r of Inl _ \<Rightarrow> ret False | Inr _ \<Rightarrow> send_segments ps))"

text \<open>What follows the reading of the queue, and the whole.\<close>

definition flush_entries :: "path \<Rightarrow> segment_payload list \<Rightarrow> unit node_prog" where
  "flush_entries p entries =
     (if entries = [] then ret ()
      else andthen (send_segments entries) (\<lambda>all_sent.
           if all_sent then queue_clear p else ret ()))"

definition flush_queue :: "node_ext \<Rightarrow> path \<Rightarrow> unit node_prog" where
  "flush_queue w p = andthen (queue_read_all w p) (flush_entries p)"

text \<open>\<open>poll_mediamtx\<close>: the state of every camera of the list; none is connected without an answer.\<close>

definition poll_mediamtx :: "node_ext \<Rightarrow> u16 \<Rightarrow> node_camera_cfg list \<Rightarrow> camera_status list" where
  "poll_mediamtx w api_port cams =
     (let url = ''http://127.0.0.1:'' @ show_nat (unat api_port) @ ''/v3/paths/list'';
          paths = (case http (env w)
                      \<lparr>rq_method = ''GET'', rq_url = url, rq_headers = [], rq_body = []\<rparr> of
                     None \<Rightarrow> []
                   | Some r \<Rightarrow> (case mtx_paths w (rs_body r) of None \<Rightarrow> [] | Some items \<Rightarrow> items))
      in map (\<lambda>cam.
           let p = find (\<lambda>(name, _, _). name = ncc_stream_path cam) paths
           in \<lparr>cs_camera_id = ncc_id cam, cs_stream_path = ncc_stream_path cam,
               cs_connected = (case p of None \<Rightarrow> False | Some (_, ready, _) \<Rightarrow> ready),
               cs_readers = (case p of None \<Rightarrow> 0 | Some (_, _, readers) \<Rightarrow> of_nat readers)\<rparr>) cams)"

definition heartbeat_tick ::
  "node_ext \<Rightarrow> node_config_env \<Rightarrow> node_identity \<Rightarrow> hardware_profile \<Rightarrow> unit node_prog" where
  "heartbeat_tick w cfg ident hw =
     andthen next_seq (\<lambda>q.
     andthen (gets n_cameras) (\<lambda>cam_list.
     sink_send (Heartbeat q
       \<lparr>hb_node_id = ni_node_id ident, hb_hardware = hw,
        hb_cameras = poll_mediamtx w (mediamtx_api_port cfg) cam_list,
        hb_mediamtx_version = None\<rparr>)))"

section \<open>Messages of the coordinator\<close>

text \<open>\<open>iter_mut().find(..)\<close> with an assignment: the first match is replaced.\<close>

fun replace_first :: "('a \<Rightarrow> bool) \<Rightarrow> 'a \<Rightarrow> 'a list \<Rightarrow> 'a list" where
  "replace_first P x [] = []"
| "replace_first P x (y # ys) = (if P y then x # ys else y # replace_first P x ys)"

text \<open>The camera list after a change, also sent to the MediaMTX supervisor.\<close>

definition set_cameras :: "node_camera_cfg list \<Rightarrow> node_app \<Rightarrow> node_app" where
  "set_cameras cams s = s\<lparr>n_cameras := cams, n_mtx := n_mtx s @ [cams]\<rparr>"

fun apply_cameras :: "ws_message \<Rightarrow> node_camera_cfg list \<Rightarrow> node_camera_cfg list option" where
  "apply_cameras (ConfigSync _ cams) list = Some cams"
| "apply_cameras (CameraAdded _ c) list =
     Some (filter (\<lambda>d. ncc_id d \<noteq> ncc_id c) list @ [c])"
| "apply_cameras (CameraUpdated _ c) list =
     Some (replace_first (\<lambda>d. ncc_id d = ncc_id c) c list)"
| "apply_cameras (CameraRemoved _ i) list = Some (filter (\<lambda>d. ncc_id d \<noteq> i) list)"
| "apply_cameras _ list = None"

text \<open>The handler; \<open>None\<close> is a text that is no message.\<close>

definition node_handle_incoming :: "path \<Rightarrow> ws_message option \<Rightarrow> unit node_prog" where
  "node_handle_incoming rec_dir m =
     (case m of
        None \<Rightarrow> ret ()
      | Some msg \<Rightarrow>
          andthen (gets n_cameras) (\<lambda>list.
          case apply_cameras msg list of
            Some list' \<Rightarrow> modify (set_cameras list')
          | None \<Rightarrow>
             (case msg of
                DeleteRecording _ _ _ storage_uri \<Rightarrow>
                  (case strip_prefix ''local://'' storage_uri of
                     None \<Rightarrow> ret ()
                   | Some rel \<Rightarrow> andthen (attempt (remove_file (path_join rec_dir rel))) (\<lambda>_. ret ()))
              | Ping q \<Rightarrow> andthen next_seq (\<lambda>_. sink_send (Pong q))
              | _ \<Rightarrow> ret ())))"

section \<open>A connection\<close>

text \<open>
  The branches of \<open>select!\<close>. A branch on a channel is taken when the channel has something;
  \<open>Text\<close> carries the message, \<open>None\<close> if the text is none.
\<close>

datatype client_event =
    Heartbeat_due
  | Flush_ready
  | Event_ready
  | Migrate_ready
  | Server_text "ws_message option"
  | Server_other
  | Server_close
  | Server_error

definition drain_flush :: "node_app \<Rightarrow> node_app" where
  "drain_flush s = s\<lparr>n_flush := 0\<rparr>"

text \<open>One round of the loop; the result says whether it goes on.\<close>

fun client_step ::
  "node_ext \<Rightarrow> node_config_env \<Rightarrow> node_identity \<Rightarrow> hardware_profile \<Rightarrow> client_event \<Rightarrow> bool node_prog" where
  "client_step w cfg ident hw Heartbeat_due =
     andthen (heartbeat_tick w cfg ident hw) (\<lambda>_. ret True)"
| "client_step w cfg ident hw Flush_ready =
     andthen (gets n_flush) (\<lambda>k.
     if k = 0 then ret True
     else andthen (modify drain_flush) (\<lambda>_.
          andthen (flush_queue w (segment_queue_path cfg)) (\<lambda>_. ret True)))"
| "client_step w cfg ident hw Event_ready =
     andthen (gets n_events) (\<lambda>evs.
     case evs of
       [] \<Rightarrow> ret True
     | evt # rest \<Rightarrow>
         andthen (modify (\<lambda>s. s\<lparr>n_events := rest\<rparr>)) (\<lambda>_.
         andthen next_seq (\<lambda>q.
         andthen (attempt (sink_send (MotionEvent q evt))) (\<lambda>_. ret True))))"
| "client_step w cfg ident hw Migrate_ready =
     andthen (gets n_migrate) (\<lambda>ps.
     case ps of
       [] \<Rightarrow> ret True
     | payload # rest \<Rightarrow>
         andthen (modify (\<lambda>s. s\<lparr>n_migrate := rest\<rparr>)) (\<lambda>_.
         andthen next_seq (\<lambda>q.
         andthen (attempt (sink_send (SegmentMigrated q payload))) (\<lambda>_. ret True))))"
| "client_step w cfg ident hw (Server_text m) =
     andthen (node_handle_incoming (recordings_dir cfg) m) (\<lambda>_. ret True)"
| "client_step w cfg ident hw Server_other = ret True"
| "client_step w cfg ident hw Server_close = ret False"
| "client_step w cfg ident hw Server_error = throw Io_error"

fun client_loop ::
  "node_ext \<Rightarrow> node_config_env \<Rightarrow> node_identity \<Rightarrow> hardware_profile \<Rightarrow> client_event list \<Rightarrow> unit node_prog" where
  "client_loop w cfg ident hw [] = ret ()"
| "client_loop w cfg ident hw (e # es) =
     andthen (client_step w cfg ident hw e) (\<lambda>go.
     if go then client_loop w cfg ident hw es else ret ())"

text \<open>\<open>connect_and_run\<close>: connect, drop stale notifications, backfill, then the loop.\<close>

definition connect_and_run ::
  "node_ext \<Rightarrow> node_config_env \<Rightarrow> node_identity \<Rightarrow> hardware_profile \<Rightarrow> client_event list \<Rightarrow> unit node_prog" where
  "connect_and_run w cfg ident hw es =
     andthen (io (\<lambda>s. s)) (\<lambda>_.
     andthen (modify (\<lambda>s. s\<lparr>n_seq := 0\<rparr>)) (\<lambda>_.
     andthen (modify drain_flush) (\<lambda>_.
     andthen (flush_queue w (segment_queue_path cfg)) (\<lambda>_.
     client_loop w cfg ident hw es))))"

text \<open>\<open>run\<close>: one connection after the other, whatever ended the last.\<close>

fun client_run ::
  "node_ext \<Rightarrow> node_config_env \<Rightarrow> node_identity \<Rightarrow> hardware_profile \<Rightarrow> client_event list list \<Rightarrow> unit node_prog" where
  "client_run w cfg ident hw [] = ret ()"
| "client_run w cfg ident hw (es # ess) =
     andthen (attempt (connect_and_run w cfg ident hw es :: unit node_prog)) (\<lambda>_.
     client_run w cfg ident hw ess)"

section \<open>What a flush does\<close>

lemma next_seq_apply [prog_simps]: "next_seq s = (Inr (n_seq s + 1), s\<lparr>n_seq := n_seq s + 1\<rparr>)"
  by (simp add: next_seq_def andthen_apply)

text \<open>The messages for a list of segments, numbered behind \<open>q\<close>.\<close>

fun numbered :: "u64 \<Rightarrow> segment_payload list \<Rightarrow> ws_message list" where
  "numbered q [] = []"
| "numbered q (p # ps) = SegmentComplete (q + 1) p # numbered (q + 1) ps"

lemma length_numbered [simp]: "length (numbered q ps) = length ps"
  by (induction ps arbitrary: q) simp_all

lemma io_cases:
  "io f s = (r, t) \<Longrightarrow>
     (r = Inl Io_error \<and> t = s\<lparr>n_io := tl (n_io s)\<rparr> \<and> n_io s \<noteq> []) \<or>
     (r = Inr () \<and> t = f (s\<lparr>n_io := tl (n_io s)\<rparr>))"
  by (auto simp: io_def split: if_splits)

lemma send_segments_sent:
  "send_segments ps s = (r, t) \<Longrightarrow>
     \<exists>k \<le> length ps. n_sent t = n_sent s @ numbered (n_seq s) (take k ps) \<and>
       r = Inr (k = length ps) \<and> n_fs t = n_fs s \<and> (n_io s = [] \<longrightarrow> k = length ps \<and> n_io t = [])"
proof (induction ps arbitrary: s)
  case Nil
  then show ?case by auto
next
  case (Cons p ps)
  let ?s = "s\<lparr>n_seq := n_seq s + 1\<rparr>" and ?m = "SegmentComplete (n_seq s + 1) p"
  obtain r1 t1 where 1: "sink_send ?m ?s = (r1, t1)" by fastforce
  from io_cases [OF 1 [unfolded sink_send_def]] show ?case
  proof (elim disjE conjE)
    assume e: "r1 = Inl Io_error" "t1 = ?s\<lparr>n_io := tl (n_io ?s)\<rparr>" "n_io ?s \<noteq> []"
    with Cons.prems 1 have "r = Inr False \<and> t = t1" by (simp add: andthen_apply next_seq_apply)
    with e show ?thesis by (intro exI [of _ 0]) simp
  next
    assume e: "r1 = Inr ()" "t1 = (\<lambda>s. s\<lparr>n_sent := n_sent s @ [?m]\<rparr>) (?s\<lparr>n_io := tl (n_io ?s)\<rparr>)"
    with Cons.prems 1 have "send_segments ps t1 = (r, t)" by (simp add: andthen_apply next_seq_apply)
    from Cons.IH [OF this] obtain k where
      "k \<le> length ps" "n_sent t = n_sent t1 @ numbered (n_seq t1) (take k ps)"
      "r = Inr (k = length ps)" "n_fs t = n_fs t1"
      "n_io t1 = [] \<longrightarrow> k = length ps \<and> n_io t = []" by blast
    with e show ?thesis by (intro exI [of _ "Suc k"]) simp
  qed
qed

lemma queue_clear_effect:
  "queue_clear p s = (r, t) \<Longrightarrow>
     r = Inr () \<and> n_sent t = n_sent s \<and> (n_fs t = n_fs s \<or> n_fs t = unlink p (n_fs s)) \<and>
     (n_io s = [] \<longrightarrow> n_fs t = unlink p (n_fs s) \<and> n_io t = [])"
  by (auto simp: queue_clear_def andthen_apply remove_file_def io_def unlink_missing split: if_splits)

text \<open>
  Whatever fails during a flush, a prefix of the queue is sent, in order and with consecutive
  numbers, and the queue is emptied only after all of it was sent.
\<close>

lemma flush_queue_effect:
  assumes "flush_queue w p s = (r, t)"
  shows "r = Inr () \<and>
    (\<exists>k. n_sent t = n_sent s @ numbered (n_seq s) (take k (queue_entries w p (n_fs s))) \<and>
      (n_fs t = n_fs s \<or>
       n_fs t = unlink p (n_fs s) \<and> k = length (queue_entries w p (n_fs s)))) \<and>
    (n_io s = [] \<longrightarrow> n_io t = [] \<and> queue_entries w p (n_fs t) = [] \<and>
      n_sent t = n_sent s @ numbered (n_seq s) (queue_entries w p (n_fs s)))"
proof -
  let ?E = "queue_entries w p (n_fs s)"
  obtain r1 s1 where 1: "queue_read_all w p s = (r1, s1)" by fastforce
  have s1: "n_fs s1 = n_fs s" "n_sent s1 = n_sent s" "n_seq s1 = n_seq s"
    "r1 = Inr [] \<or> r1 = Inr ?E" "n_io s = [] \<Longrightarrow> r1 = Inr ?E \<and> n_io s1 = []"
    using 1 by (auto simp: queue_read_all_def andthen_apply io_def split: if_splits)
  show ?thesis
  proof (cases "r1 = Inr []")
    case True
    with assms 1 have "r = Inr () \<and> t = s1" by (simp add: flush_queue_def andthen_apply flush_entries_def)
    with True s1 show ?thesis by (auto intro!: exI [of _ 0])
  next
    case False
    with s1(4) have E: "?E \<noteq> []" "r1 = Inr ?E" by auto
    obtain r2 s2 where 2: "send_segments ?E s1 = (r2, s2)" by fastforce
    from send_segments_sent [OF 2] obtain k where k: "k \<le> length ?E"
      "n_sent s2 = n_sent s @ numbered (n_seq s) (take k ?E)" "r2 = Inr (k = length ?E)"
      "n_fs s2 = n_fs s" "n_io s1 = [] \<longrightarrow> k = length ?E \<and> n_io s2 = []"
      using s1 by auto
    have t: "(if k = length ?E then queue_clear p s2 else (Inr (), s2)) = (r, t)"
      using assms 1 2 E k(3) by (simp add: flush_queue_def andthen_apply flush_entries_def split: if_splits)
    show ?thesis
    proof (cases "k = length ?E")
      case True
      with t have c: "queue_clear p s2 = (r, t)" by simp
      from queue_clear_effect [OF c] k True s1 show ?thesis
        by (auto intro!: exI [of _ k])
    next
      case False
      with t have "r = Inr ()" "t = s2" by simp_all
      with False k s1 show ?thesis by (auto intro!: exI [of _ k])
    qed
  qed
qed

text \<open>A flush does not touch the camera list.\<close>

lemma io_cameras: "(\<And>s. n_cameras (f s) = n_cameras s) \<Longrightarrow> n_cameras (snd (io f s)) = n_cameras s"
  by (simp add: io_def)

lemma flush_cameras: "n_cameras (snd (flush_queue w p s)) = n_cameras s"
proof -
  have k: "keeps (\<lambda>s. n_cameras s = C) (io f)" if "\<And>s. n_cameras (f s) = n_cameras s" for C f
    using that by (auto simp: keeps_def io_cameras)
  have "keeps (\<lambda>s. n_cameras s = C) next_seq" for C
    by (simp add: keeps_def next_seq_apply)
  then have "keeps (\<lambda>s. n_cameras s = C) (send_segments ps)" for C ps
    by (induction ps) (auto simp: sink_send_def intro!: keeps_rules k split: sum.split)
  moreover have "keeps (\<lambda>s. n_cameras s = C) (queue_clear p)" for C
    using k [of "on_fs (unlink p)"] by (auto simp: keeps_def queue_clear_def andthen_apply remove_file_def)
  moreover have "keeps (\<lambda>s. n_cameras s = C) (queue_read_all w p)" for C
    unfolding queue_read_all_def by (intro keeps_rules k) (auto split: sum.split intro!: keeps_rules)
  ultimately have "keeps (\<lambda>s. n_cameras s = C) (flush_queue w p)" for C
    unfolding flush_queue_def flush_entries_def [abs_def] by (intro keeps_rules) auto
  then show ?thesis by (auto simp: keeps_def)
qed

end
