(* ===== verification/Mirror.thy ===== *)
theory Mirror
  imports Cameras NodeSocket NodeClient
begin

text \<open>
  The camera list of a node as a replica of the coordinator's table: the abstract state is the
  configuration of each camera of the node in the database, the concrete one is spread over the
  database, the node's channel, the socket and the node's list.
\<close>

section \<open>Replicas\<close>

text \<open>
  A replica is seen through \<open>view\<close>, a value or nothing per key; a message acts on each key by
  itself.
\<close>

locale replica =
  fixes view :: "'s \<Rightarrow> 'k \<Rightarrow> 'v option"
    and apply_msg :: "'m \<Rightarrow> 's \<Rightarrow> 's"
    and effect :: "'k \<Rightarrow> 'm \<Rightarrow> 'v option \<Rightarrow> 'v option"
  assumes view_apply: "view (apply_msg m s) k = effect k m (view s k)"
begin

lemma view_replay: "view (fold apply_msg ms s) k = fold (effect k) ms (view s k)"
  by (induction ms arbitrary: s) (simp_all add: view_apply)

lemma converged: "(\<And>k. fold (effect k) ms (view s k) = target k) \<Longrightarrow> view (fold apply_msg ms s) = target"
  by (rule ext) (simp add: view_replay)

end

text \<open>The effect of a message on the entry of one camera.\<close>

fun msg_at :: "uuid \<Rightarrow> ws_message \<Rightarrow> node_camera_cfg option \<Rightarrow> node_camera_cfg option" where
  "msg_at i (ConfigSync _ cams) x = find (\<lambda>c. ncc_id c = i) cams"
| "msg_at i (CameraAdded _ c) x = (if ncc_id c = i then Some c else x)"
| "msg_at i (CameraUpdated _ c) x = (if ncc_id c = i then map_option (\<lambda>_. c) x else x)"
| "msg_at i (CameraRemoved _ j) x = (if j = i then None else x)"
| "msg_at i _ x = x"

definition cam_at :: "node_camera_cfg list \<Rightarrow> uuid \<Rightarrow> node_camera_cfg option" where
  "cam_at cams i = find (\<lambda>c. ncc_id c = i) cams"

definition apply_to_list :: "ws_message \<Rightarrow> node_camera_cfg list \<Rightarrow> node_camera_cfg list" where
  "apply_to_list m cams = (case apply_cameras m cams of None \<Rightarrow> cams | Some l \<Rightarrow> l)"

lemma find_append: "find P (xs @ ys) = (case find P xs of None \<Rightarrow> find P ys | Some x \<Rightarrow> Some x)"
  by (induction xs) auto

lemma find_remove:
  "find (\<lambda>c. k c = i) (filter (\<lambda>c. k c \<noteq> j) cs) = (if j = i then None else find (\<lambda>c. k c = i) cs)"
  by (induction cs) auto

lemma find_replace_first:
  "find (\<lambda>c. k c = i) (replace_first (\<lambda>c. k c = k x) x cs) =
     (if k x = i then map_option (\<lambda>_. x) (find (\<lambda>c. k c = i) cs) else find (\<lambda>c. k c = i) cs)"
  by (induction cs) auto

interpretation node_list: replica cam_at apply_to_list msg_at
proof
  fix m cams i
  show "cam_at (apply_to_list m cams) i = msg_at i m (cam_at cams i)"
    by (cases m)
      (auto simp: apply_to_list_def cam_at_def find_append find_remove find_replace_first
        split: option.split)
qed

lemma node_incoming_list:
  "n_cameras (snd (node_handle_incoming dir (Some m) v)) = apply_to_list m (n_cameras v)"
proof (cases "apply_cameras m (n_cameras v)")
  case (Some l)
  then show ?thesis
    by (simp add: node_handle_incoming_def andthen_apply set_cameras_def apply_to_list_def)
next
  case None
  then show ?thesis
    by (cases m)
      (auto simp: node_handle_incoming_def andthen_apply apply_to_list_def remove_file_def
        io_def next_seq_apply sink_send_def split: option.split)
qed

section \<open>The abstract state\<close>

definition config_at :: "uuid \<Rightarrow> database \<Rightarrow> uuid \<Rightarrow> node_camera_cfg option" where
  "config_at n d = cam_at (node_config n d)"

lemma config_at_lookup:
  assumes "distinct (map cam_id (cameras d))"
  shows "config_at n d i =
    (case find (\<lambda>c. cam_id c = i) (cameras d) of
       None \<Rightarrow> None
     | Some c \<Rightarrow> if cam_node_id c = n then Some (node_camera_config c) else None)"
proof -
  have "find (\<lambda>c. ncc_id c = i) (map node_camera_config (filter (\<lambda>c. cam_node_id c = n) cs)) =
      (case find (\<lambda>c. cam_id c = i) cs of
         None \<Rightarrow> None | Some c \<Rightarrow> if cam_node_id c = n then Some (node_camera_config c) else None)"
    if "distinct (map cam_id cs)" for cs
    using that
    by (induction cs) (auto simp: node_camera_config_def find_None_iff split: option.split dest!: find_key_Some)
  with assms show ?thesis by (simp add: config_at_def cam_at_def node_config_def cameras_of_def)
qed

lemma db_ok_cam_ids: "db_ok d \<Longrightarrow> distinct (map cam_id (cameras d))"
  using cameras.sound_distinct [of d "cameras d"] by (auto simp: db_ok_def)

lemmas config_lookup = config_at_lookup [OF db_ok_cam_ids]

text \<open>
  How a message relates the entries before and after the change it reports: it leaves the key
  alone, or brings the new entry whatever was there, or replaces an entry that is there.
\<close>

definition carries :: "('v option \<Rightarrow> 'v option) \<Rightarrow> 'v option \<Rightarrow> 'v option \<Rightarrow> bool" where
  "carries f a b \<longleftrightarrow>
     (f = id \<and> b = a) \<or> (\<forall>x. f x = b) \<or> (\<exists>v. a \<noteq> None \<and> b = Some v \<and> f = map_option (\<lambda>_. v))"

lemma carries_synced: "carries f a b \<Longrightarrow> f a = b" and carries_again: "carries f a b \<Longrightarrow> f b = b"
  by (auto simp: carries_def)

text \<open>The same for messages that are ahead of the replica: \<open>g\<close> is what is queued already.\<close>

definition ahead :: "('v option \<Rightarrow> 'v option) \<Rightarrow> 'v option \<Rightarrow> bool" where
  "ahead g a \<longleftrightarrow> g a = a \<and> (a \<noteq> None \<longrightarrow> (\<forall>x. x \<noteq> None \<longrightarrow> g x \<noteq> None))"

lemma ahead_id: "ahead id a"
  by (simp add: ahead_def)

lemma carries_ahead: "carries f a b \<Longrightarrow> ahead g a \<Longrightarrow> ahead (f \<circ> g) b"
  by (auto simp: carries_def ahead_def)

lemma ahead_comp: "ahead f a \<Longrightarrow> ahead g a \<Longrightarrow> ahead (f \<circ> g) a"
  by (auto simp: ahead_def)

lemma ahead_const: "ahead (\<lambda>_. a) a"
  by (auto simp: ahead_def)

text \<open>The cameras a message is about.\<close>

fun touches :: "uuid \<Rightarrow> ws_message \<Rightarrow> bool" where
  "touches i (ConfigSync _ _) \<longleftrightarrow> True"
| "touches i (CameraAdded _ c) \<longleftrightarrow> ncc_id c = i"
| "touches i (CameraUpdated _ c) \<longleftrightarrow> ncc_id c = i"
| "touches i (CameraRemoved _ j) \<longleftrightarrow> j = i"
| "touches i _ \<longleftrightarrow> False"

lemma untouched: "\<not> touches i m \<Longrightarrow> msg_at i m = id"
  by (cases m) (auto simp: fun_eq_iff)

section \<open>What the handlers do to it\<close>

text \<open>
  The coordinator while a node is connected: no round trip fails, the database is sound, every
  node has its own channel, and \<open>c\<close> is the one of \<open>n\<close>, with \<open>q\<close> waiting in it.
\<close>

definition serving :: "uuid \<Rightarrow> nat \<Rightarrow> ws_message list \<Rightarrow> app \<Rightarrow> bool" where
  "serving n c q s \<longleftrightarrow>
     faults s = [] \<and> db_ok (db s) \<and> channels_apart s \<and> map_of (node_txs s) n = Some c \<and>
     node_chans s c = Some q"

definition msg_good :: "ws_message \<Rightarrow> bool" where
  "msg_good m \<longleftrightarrow> (case m of ConfigSync _ cams \<Rightarrow> distinct (map ncc_id cams) | _ \<Rightarrow> True)"

lemma msg_good_simps [simp]:
  "msg_good (ConfigSync q cams) \<longleftrightarrow> distinct (map ncc_id cams)" "msg_good (CameraAdded q x)"
  "msg_good (CameraUpdated q x)" "msg_good (CameraRemoved q i)" "msg_good (Pong q)"
  "msg_good (Ping q)" "msg_good (DeleteRecording q i t u)"
  by (simp_all add: msg_good_def)

lemma replace_first_ids: "map k (replace_first (\<lambda>d. k d = k x) x cs) = map k cs"
  by (induction cs) auto

lemma apply_cameras_distinct:
  "apply_cameras m cams = Some l \<Longrightarrow> msg_good m \<Longrightarrow> distinct (map ncc_id cams) \<Longrightarrow>
     distinct (map ncc_id l)"
  by (cases m) (auto simp: distinct_map_filter replace_first_ids)

lemma serving_db:
  "serving n c q s \<Longrightarrow> db_ok d \<Longrightarrow> serving n c q (s\<lparr>db := d\<rparr>)"
  by (simp add: serving_def channels_apart_def)

lemma serving_push:
  assumes "serving n c q s"
  shows "serving n c (if k = n then q @ [m] else q) (push_to_node k m s)"
proof (cases "k = n")
  case True
  with assms show ?thesis by (simp add: serving_def push_to_node_def send_def channels_apart_def)
next
  case False
  with assms have "map_of (node_txs s) k \<noteq> Some c"
    by (auto simp: serving_def channels_apart_def inj_on_def dom_def)
  with False assms show ?thesis
    by (auto simp: serving_def push_to_node_def send_def channels_apart_def split: option.split)
qed

text \<open>
  A handler that changes cameras is two phases with an \<open>await\<close> between them: the statement, and
  the sending of its message. The first phase of each of the four, which yields the node and the
  message that is owed to it (for a change of status after a second statement), and the second.
\<close>

definition update_camera_commit ::
  "ext \<Rightarrow> current_user \<Rightarrow> uuid \<Rightarrow> update_camera_req \<Rightarrow> (uuid \<times> ws_message) handler" where
  "update_camera_commit w me i body =
     andthen (ensure (is_operator_or_above me) Forbidden) (\<lambda>_.
     andthen (sqlq (update_camera_row i (set_camera w body))) (\<lambda>row.
     andthen (ok_or NotFound row) (\<lambda>c.
     ret (cam_node_id c, CameraUpdated 0 (node_camera_config c)))))"

definition delete_camera_commit :: "current_user \<Rightarrow> uuid \<Rightarrow> (uuid \<times> ws_message) handler" where
  "delete_camera_commit me i =
     andthen (ensure (is_operator_or_above me) Forbidden) (\<lambda>_.
     andthen (sqlq (delete_camera_row i)) (\<lambda>row.
     andthen (ok_or NotFound row) (\<lambda>c.
     ret (cam_node_id c, CameraRemoved 0 i))))"

definition create_camera_commit ::
  "ext \<Rightarrow> create_camera_req \<Rightarrow> uuid \<Rightarrow> (uuid \<times> ws_message) handler" where
  "create_camera_commit w body k =
     andthen (sqlq (insert_camera (new_camera w k body))) (\<lambda>row.
     ret (k, CameraAdded 0 (node_camera_config row)))"

definition update_node_status_commit ::
  "ext \<Rightarrow> current_user \<Rightarrow> uuid \<Rightarrow> node_status \<Rightarrow> node handler" where
  "update_node_status_commit w me k st =
     andthen (ensure (is_admin me) Forbidden) (\<lambda>_.
     andthen (sqlq (update_node k (\<lambda>n. n\<lparr>node_status := st, node_updated_at := db_now w\<rparr>))) (\<lambda>row.
     ok_or NotFound row))"

definition fetch_sync :: "uuid \<Rightarrow> (uuid \<times> ws_message) handler" where
  "fetch_sync k = andthen (fetch_node_cameras k) (\<lambda>cams. ret (k, config_sync cams))"

definition send_due :: "uuid \<times> ws_message \<Rightarrow> unit handler" where
  "send_due x = modify (push_to_node (fst x) (snd x))"

text \<open>The handlers are their phases.\<close>

lemma update_camera_phases:
  "snd (update_camera w me i b s) = snd (andthen (update_camera_commit w me i b) send_due s)"
  by (simp add: update_camera_def update_camera_commit_def send_due_def prog_simps
      split: prod.split sum.split option.split)

lemma delete_camera_phases:
  "snd (delete_camera me i s) = snd (andthen (delete_camera_commit me i) send_due s)"
  by (simp add: delete_camera_def delete_camera_commit_def send_due_def prog_simps
      split: prod.split sum.split option.split)

lemma create_camera_phases:
  "snd (create_camera w me b s) =
     snd (andthen (create_camera_check w me b) (\<lambda>k. andthen (create_camera_commit w b k) send_due) s)"
  by (simp add: create_camera_def create_camera_insert_def create_camera_commit_def send_due_def prog_simps
      split: prod.split sum.split)

lemma update_node_status_phases:
  "snd (update_node_status w me k st s) =
     snd (andthen (update_node_status_commit w me k st) (\<lambda>n.
       if node_status n = Approved then andthen (fetch_sync k) send_due else ret ()) s)"
  by (simp add: update_node_status_def update_node_status_commit_def fetch_sync_def send_due_def prog_simps
      split: prod.split sum.split option.split)

text \<open>
  What the first phase of a change does to the configuration of node \<open>n\<close>: the message that is
  owed carries the change, and touches the one camera that changes.
\<close>

definition commits :: "uuid \<Rightarrow> uuid \<Rightarrow> ws_message \<Rightarrow> database \<Rightarrow> database \<Rightarrow> bool" where
  "commits n k m d e \<longleftrightarrow> msg_good m \<and> db_ok e \<and> node_id ` set (nodes e) = node_id ` set (nodes d) \<and>
     (\<forall>j. if k = n \<and> touches j m then carries (msg_at j m) (config_at n d j) (config_at n e j)
          else config_at n e j = config_at n d j)"

lemma commitsI:
  assumes "msg_good m" and "db_ok e" and "nodes e = nodes d" and "\<And>j. touches j m \<longleftrightarrow> j = i"
    and "\<And>j. j \<noteq> i \<Longrightarrow> config_at n e j = config_at n d j"
    and "k \<noteq> n \<Longrightarrow> config_at n e i = config_at n d i"
    and "k = n \<Longrightarrow> carries (msg_at i m) (config_at n d i) (config_at n e i)"
  shows "commits n k m d e"
proof -
  have "config_at n e = config_at n d" if "k \<noteq> n"
    using assms(5) assms(6) [OF that] by (metis ext)
  then show ?thesis unfolding commits_def using assms by auto
qed

lemma update_camera_commits:
  assumes "serving n c q s" and "update_camera_commit w me i b s = (Inr (k, m), t)"
  shows "\<exists>e. t = s\<lparr>db := e\<rparr> \<and> commits n k m (db s) e"
proof -
  let ?f = "set_camera w b"
  have f: "faults s = []" and s: "db_ok (db s)" using assms(1) by (simp_all add: serving_def)
  from assms(2) obtain x d where u: "update_camera_row i ?f (db s) = Inr (Some x, d)" and t: "t = s\<lparr>db := d\<rparr>"
    and km: "k = cam_node_id x" "m = CameraUpdated 0 (node_camera_config x)"
    by (auto simp: update_camera_commit_def prog_simps f split: if_splits sum.splits prod.splits option.splits)
  have ids: "cam_id (?f r) = cam_id r" for r by (simp add: set_camera_def)
  obtain r where old: "find (\<lambda>q. cam_id q = i) (cameras (db s)) = Some r" "x = ?f r"
    and d': "nodes d = nodes (db s)"
    using u by (auto simp: cameras.update_Some put_defs)
  then have x: "cam_id x = i" "cam_node_id x = cam_node_id r"
    using ids by (auto dest: find_key_Some)
  have new: "find (\<lambda>q. cam_id q = j) (cameras d) =
      (if j = i then Some x else find (\<lambda>q. cam_id q = j) (cameras (db s)))" for j
    using cameras.update_lookup [OF u ids] .
  have d: "db_ok d" by (rule stmt_keepsD [OF update_camera_ok u s])
  have i: "ncc_id (node_camera_config x) = i" using x by (simp add: node_camera_config_def)
  have other: "config_at n d j = config_at n (db s) j" if "j \<noteq> i" for j
    using new that by (simp add: config_lookup [OF d] config_lookup [OF s])
  have "config_at n d i = config_at n (db s) i" if "k \<noteq> n"
    using new old x that km by (simp add: config_lookup [OF d] config_lookup [OF s])
  moreover have "config_at n d i = Some (node_camera_config x)" "config_at n (db s) i \<noteq> None" if "k = n"
    using new old x that km by (simp_all add: config_lookup [OF d] config_lookup [OF s])
  ultimately have "commits n k m (db s) d"
    using other d d' i km
    by (intro commitsI [of _ _ _ i]) (auto simp: carries_def fun_eq_iff)
  with t show ?thesis by blast
qed

lemma delete_camera_commits:
  assumes "serving n c q s" and "delete_camera_commit me i s = (Inr (k, m), t)"
  shows "\<exists>e. t = s\<lparr>db := e\<rparr> \<and> commits n k m (db s) e"
proof -
  have f: "faults s = []" and s: "db_ok (db s)" using assms(1) by (simp_all add: serving_def)
  from assms(2) obtain x d where u: "delete_camera_row i (db s) = Inr (Some x, d)" and t: "t = s\<lparr>db := d\<rparr>"
    and km: "k = cam_node_id x" "m = CameraRemoved 0 i"
    by (auto simp: delete_camera_commit_def prog_simps f split: if_splits sum.splits prod.splits option.splits)
  have old: "find (\<lambda>q. cam_id q = i) (cameras (db s)) = Some x" and d': "nodes d = nodes (db s)"
    using u by (auto simp: delete_pk_def put_defs)
  have new: "find (\<lambda>q. cam_id q = j) (cameras d) =
      (if j = i then None else find (\<lambda>q. cam_id q = j) (cameras (db s)))" for j
    using cameras.delete_lookup [OF u] .
  have d: "db_ok d" by (rule stmt_keepsD [OF delete_camera_ok u s])
  have other: "config_at n d j = config_at n (db s) j" if "j \<noteq> i" for j
    using new that by (simp add: config_lookup [OF d] config_lookup [OF s])
  have "config_at n d i = config_at n (db s) i" if "k \<noteq> n"
    using new old that km by (simp add: config_lookup [OF d] config_lookup [OF s])
  moreover have "config_at n d i = None"
    using new by (simp add: config_lookup [OF d])
  ultimately have "commits n k m (db s) d"
    using other d d' km by (intro commitsI [of _ _ _ i]) (auto simp: carries_def)
  with t show ?thesis by blast
qed

lemma create_camera_commits:
  assumes "serving n c q s" and "create_camera_commit w b k' s = (Inr (k, m), t)"
  shows "\<exists>e. t = s\<lparr>db := e\<rparr> \<and> commits n k m (db s) e"
proof -
  have f: "faults s = []" and s: "db_ok (db s)" using assms(1) by (simp_all add: serving_def)
  let ?x = "new_camera w k b"
  from assms(2) obtain d where u: "insert_camera ?x (db s) = Inr (?x, d)" and t: "t = s\<lparr>db := d\<rparr>"
    and km: "m = CameraAdded 0 (node_camera_config ?x)"
    by (auto simp: create_camera_commit_def prog_simps f cameras.insert_Inr split: sum.splits prod.splits)
  have d': "nodes d = nodes (db s)" using u by (auto simp: cameras.insert_Inr put_defs)
  have new: "find (\<lambda>q. cam_id q = j) (cameras d) =
      (if j = cam_id ?x then Some ?x else find (\<lambda>q. cam_id q = j) (cameras (db s)))" for j
    using cameras.insert_lookup [OF u] .
  have fresh: "find (\<lambda>q. cam_id q = cam_id ?x) (cameras (db s)) = None"
    using u by (auto simp: cameras.insert_Inr cameras.check_None find_None_iff camera_clash_def)
  have d: "db_ok d" by (rule stmt_keepsD [OF insert_camera_ok u s])
  have node: "cam_node_id ?x = k" and i: "ncc_id (node_camera_config ?x) = cam_id ?x"
    by (simp_all add: new_camera_def node_camera_config_def)
  have other: "config_at n d j = config_at n (db s) j" if "j \<noteq> cam_id ?x" for j
    using new that by (simp add: config_lookup [OF d] config_lookup [OF s])
  have "config_at n d (cam_id ?x) = config_at n (db s) (cam_id ?x)" if "k \<noteq> n"
    using new node fresh that by (simp add: config_lookup [OF d] config_lookup [OF s])
  moreover have "config_at n d (cam_id ?x) = Some (node_camera_config ?x)" if "k = n"
    using new node that by (simp add: config_lookup [OF d])
  ultimately have "commits n k m (db s) d"
    using other d d' i km by (intro commitsI [of _ _ _ "cam_id ?x"]) (auto simp: carries_def)
  with t show ?thesis by blast
qed

lemma distinct_node_config: "db_ok d \<Longrightarrow> distinct (map ncc_id (node_config n d))"
  using db_ok_cam_ids [of d]
  by (simp add: node_config_def cameras_of_def comp_def node_camera_config_def distinct_map_filter)

text \<open>A message of a node: an answer at most, which no replica minds.\<close>

definition still :: "app \<Rightarrow> app \<Rightarrow> bool" where
  "still s t \<longleftrightarrow> node_txs t = node_txs s \<and> node_chans t = node_chans s \<and> faults t = []"

lemma keeps_still [keeps_rules]:
  "keeps (still s) (sql x)" "keeps (still s) (modify (broadcast_dashboard j))"
  by (auto simp: keeps_def still_def sql_def split: sum.split)

lemma incoming_still:
  assumes "faults s = []" and "\<And>q. m \<noteq> Some (Ping q)"
  shows "still s (snd (handle_incoming w k m s)) \<and>
    cameras (db (snd (handle_incoming w k m s))) = cameras (db s)"
proof -
  have s: "still s s" using assms(1) by (simp add: still_def)
  have "keeps (still s) (handle_heartbeat w k p)" "keeps (still s) (index_segment k seg)"
    "keeps (still s) (index_event w k e)" "keeps (still s) (update_segment_uri g)" for p seg e g
    unfolding handle_heartbeat_def index_segment_def index_event_def update_segment_uri_def Let_def
    by (auto intro!: keeps_rules split: sum.split)
  note still = this [THEN keepsD, OF s]
  show ?thesis
  proof (cases "(w, k, m)" rule: handle_incoming.cases)
    case (2 w' n' q p)
    obtain r t where t: "handle_heartbeat w k p s = (r, t)" by fastforce
    with 2 heartbeat_effect [OF t] still(1) [of p] show ?thesis by auto
  next
    case (3 w' n' q seg)
    obtain r t where t: "index_segment k seg s = (r, t)" by fastforce
    with 3 index_segment_effect [OF t] still(2) [of seg] show ?thesis by auto
  next
    case (4 w' n' q e)
    obtain r t where t: "index_event w k e s = (r, t)" by fastforce
    with 4 index_event_effect [OF t] still(3) [of e] show ?thesis by auto
  next
    case (5 w' n' q p)
    obtain r t where t: "update_segment_uri p s = (r, t)" by fastforce
    with 5 migrated_effect [OF t] still(4) [of p] show ?thesis by auto
  qed (use assms(2) s in auto)
qed

lemma incoming_ids:
  assumes "\<And>q. m \<noteq> Some (Ping q)"
  shows "node_id ` set (nodes (db (snd (handle_incoming w k m s)))) = node_id ` set (nodes (db s))"
proof (cases "(w, k, m)" rule: handle_incoming.cases)
  case (2 w' n' q p)
  obtain r t where t: "handle_heartbeat w k p s = (r, t)" by fastforce
  from heartbeat_effect [OF t] obtain f where f: "\<forall>x. node_id (f x) = node_id x"
    "db t = (db s)\<lparr>nodes := update_where (\<lambda>x. node_id x = k) f (nodes (db s))\<rparr>" by blast
  then have "map node_id (nodes (db t)) = map node_id (nodes (db s))" by (simp add: map_update_where)
  then have "node_id ` set (nodes (db t)) = node_id ` set (nodes (db s))" by (metis set_map)
  with 2 t show ?thesis by simp
next
  case (3 w' n' q seg)
  obtain r t where t: "index_segment k seg s = (r, t)" by fastforce
  with 3 index_segment_effect [OF t] show ?thesis by auto
next
  case (4 w' n' q e)
  obtain r t where t: "index_event w k e s = (r, t)" by fastforce
  with 4 index_event_effect [OF t] show ?thesis by auto
next
  case (5 w' n' q p)
  obtain r t where t: "update_segment_uri p s = (r, t)" by fastforce
  with 5 migrated_effect [OF t] show ?thesis by auto
qed (use assms in auto)

lemma update_node_ids:
  assumes "update_node i g d = Inr (x, e)" and "\<And>m. node_id (g m) = node_id m"
  shows "cameras e = cameras d \<and> node_id ` set (nodes e) = node_id ` set (nodes d)"
proof -
  have "cameras e = cameras d \<and> map node_id (nodes e) = map node_id (nodes d)"
    using assms
    by (cases x) (auto simp: nodes.update_None nodes.update_Some put_defs map_update_where)
  then show ?thesis by (metis set_map)
qed

lemma save_node_seen_cameras:
  assumes "sql (save_node_seen w n ip) s = (r, t)"
  shows "cameras (db t) = cameras (db s) \<and> node_id ` set (nodes (db t)) = node_id ` set (nodes (db s))"
proof -
  have "save_node_seen w n ip d = Inr (x, e) \<Longrightarrow>
      cameras e = cameras d \<and> node_id ` set (nodes e) = node_id ` set (nodes d)" for d x e
    unfolding save_node_seen_def
    by (auto split: option.splits if_splits dest!: update_node_ids)
  then show ?thesis
    using sql_cases [OF assms] by metis
qed

lemma fetch_cameras_runs:
  "faults s = [] \<Longrightarrow> fetch_node_cameras n s = (Inr (node_config n (db s)), s)"
  by (simp add: prog_simps)

section \<open>A connection\<close>

text \<open>
  The two ends of one connection of node \<open>n\<close> over channel \<open>c\<close>: the coordinator, the messages on
  the way, the node, whether the coordinator has read the cameras for its greeting (which is the
  first message on the way from then on, sent or not), and the messages that
  handlers still owe to nodes, after their statement and before their push. Another handler can
  run in between, so these messages leave in any order.
\<close>

record mirror =
  mi_app :: app
  mi_wire :: "ws_message list"
  mi_node :: node_app
  mi_greeted :: bool
  mi_due :: "(uuid \<times> ws_message) list"

text \<open>No message that is still owed to node \<open>k\<close> is about a camera that \<open>m\<close> is about.\<close>

definition undisputed :: "mirror \<Rightarrow> uuid \<Rightarrow> ws_message \<Rightarrow> bool" where
  "undisputed v k m \<longleftrightarrow>
     (\<forall>(k', m') \<in> set (mi_due v). k' = k \<longrightarrow> (\<forall>j. touches j m \<longrightarrow> \<not> touches j m'))"

text \<open>
  The steps: the reading of the cameras for the greeting, the forwarding of a waiting message, the
  node's handling of a message;
  the statement of a request that changes cameras, of a change of a node's status, of the deletion
  of a node; the reading of the cameras for an approved node; the push of a message that is owed;
  a message of a node; and what all other handlers do: their statements, which leave the cameras
  alone and add no node with the id of \<open>n\<close>, their messages, which are not about cameras or go to
  dashboards, and the sockets of other nodes, which are opened and closed.
\<close>

inductive mirror_step :: "uuid \<Rightarrow> nat \<Rightarrow> mirror \<Rightarrow> mirror \<Rightarrow> bool" for n c where
  greet: "\<not> mi_greeted v \<Longrightarrow> fetch_node_cameras n (mi_app v) = (Inr cams, t) \<Longrightarrow>
    mirror_step n c v (v\<lparr>mi_app := t, mi_wire := mi_wire v @ [config_sync cams], mi_greeted := True\<rparr>)"
| forward: "mi_greeted v \<Longrightarrow> node_chans (mi_app v) c = Some (m # ms) \<Longrightarrow>
    mirror_step n c v (v\<lparr>mi_app := (mi_app v)\<lparr>node_chans := (node_chans (mi_app v))(c := Some ms)\<rparr>,
      mi_wire := mi_wire v @ [m]\<rparr>)"
| receive: "mi_wire v = m # ms \<Longrightarrow> node_handle_incoming dir (Some m) (mi_node v) = (r, u) \<Longrightarrow>
    mirror_step n c v (v\<lparr>mi_wire := ms, mi_node := u\<rparr>)"
| create: "create_camera_commit w b k' (mi_app v) = (Inr (k, m), t) \<Longrightarrow> undisputed v k m \<Longrightarrow>
    mirror_step n c v (v\<lparr>mi_app := t, mi_due := (k, m) # mi_due v\<rparr>)"
| update: "update_camera_commit w me i b2 (mi_app v) = (Inr (k, m), t) \<Longrightarrow> undisputed v k m \<Longrightarrow>
    mirror_step n c v (v\<lparr>mi_app := t, mi_due := (k, m) # mi_due v\<rparr>)"
| delete: "delete_camera_commit me i (mi_app v) = (Inr (k, m), t) \<Longrightarrow> undisputed v k m \<Longrightarrow>
    mirror_step n c v (v\<lparr>mi_app := t, mi_due := (k, m) # mi_due v\<rparr>)"
| status: "update_node_status_commit w me k st (mi_app v) = (r1, t) \<Longrightarrow>
    mirror_step n c v (v\<lparr>mi_app := t\<rparr>)"
| sync: "fetch_sync k' (mi_app v) = (Inr (k, m), t) \<Longrightarrow>
    mirror_step n c v (v\<lparr>mi_app := t, mi_due := (k, m) # mi_due v\<rparr>)"
| push: "(k, m) \<in> set (mi_due v) \<Longrightarrow> send_due (k, m) (mi_app v) = (r2, t) \<Longrightarrow>
    mirror_step n c v (v\<lparr>mi_app := t, mi_due := remove1 (k, m) (mi_due v)\<rparr>)"
| node_deleted: "delete_node me k (mi_app v) = (r3, t) \<Longrightarrow> mirror_step n c v (v\<lparr>mi_app := t\<rparr>)"
| incoming: "handle_incoming w k msg (mi_app v) = (r4, t) \<Longrightarrow> mirror_step n c v (v\<lparr>mi_app := t\<rparr>)"
| statement: "db_ok d \<Longrightarrow> cameras d = cameras (db (mi_app v)) \<Longrightarrow>
    (n \<in> node_id ` set (nodes d) \<longrightarrow> n \<in> node_id ` set (nodes (db (mi_app v)))) \<Longrightarrow>
    mirror_step n c v (v\<lparr>mi_app := (mi_app v)\<lparr>db := d\<rparr>\<rparr>)"
| notice: "\<forall>i. \<not> touches i m \<Longrightarrow> msg_good m \<Longrightarrow>
    mirror_step n c v (v\<lparr>mi_app := push_to_node k m (mi_app v)\<rparr>)"
| dashboards: "mirror_step n c v (v\<lparr>mi_app := broadcast_dashboard j (mi_app v)\<rparr>)"
| joined: "k \<noteq> n \<Longrightarrow> node_chans (mi_app v) c' = None \<Longrightarrow>
    \<forall>j. map_of (node_txs (mi_app v)) j \<noteq> Some c' \<Longrightarrow>
    mirror_step n c v (v\<lparr>mi_app := attach_socket k c' (mi_app v)\<rparr>)"
| left: "k \<noteq> n \<Longrightarrow> c' \<noteq> c \<Longrightarrow> mirror_step n c v (v\<lparr>mi_app := detach_socket w k c' (mi_app v)\<rparr>)"

definition connected :: "uuid \<Rightarrow> nat \<Rightarrow> app \<Rightarrow> node_app \<Rightarrow> mirror" where
  "connected n c s u =
     \<lparr>mi_app = attach_socket n c s, mi_wire = [], mi_node = u, mi_greeted = False, mi_due = []\<rparr>"

text \<open>The messages owed to node \<open>n\<close> that are about camera \<open>i\<close>.\<close>

definition owed :: "uuid \<Rightarrow> uuid \<Rightarrow> mirror \<Rightarrow> ws_message set" where
  "owed n i v = {m. (n, m) \<in> set (mi_due v) \<and> touches i m}"

text \<open>
  What holds for one camera, before and after the greeting; \<open>g\<close> is what waits for the node, \<open>x\<close>
  its entry when all that has been sent is handled, \<open>a\<close> the entry in the database, \<open>M\<close> what is
  owed. Each message that is owed brings the entry up to date, and keeps it so.
\<close>

definition tracks :: "bool \<Rightarrow> (node_camera_cfg option \<Rightarrow> node_camera_cfg option) \<Rightarrow>
    (node_camera_cfg option \<Rightarrow> node_camera_cfg option) set \<Rightarrow> node_camera_cfg option \<Rightarrow>
    node_camera_cfg option \<Rightarrow> bool" where
  "tracks greeted g F x a \<longleftrightarrow>
     (if greeted then (\<forall>f \<in> F. f x = a \<and> f a = a) \<and> (F = {} \<longrightarrow> x = a)
      else (\<forall>f \<in> F. ahead f a \<and> ahead (f \<circ> g) a) \<and> (F = {} \<longrightarrow> ahead g a))"

lemma tracks_True: "tracks True g F x a \<longleftrightarrow> (\<forall>f \<in> F. f x = a \<and> f a = a) \<and> (F = {} \<longrightarrow> x = a)"
  and tracks_False: "tracks False g F x a \<longleftrightarrow> (\<forall>f \<in> F. ahead f a \<and> ahead (f \<circ> g) a) \<and> (F = {} \<longrightarrow> ahead g a)"
  unfolding tracks_def by (simp_all only: if_True if_False)

lemma tracks_change:
  assumes "tracks b g {} x a" and "carries f a e"
  shows "tracks b g {f} x e"
proof (cases b)
  case True
  with assms(1) have "x = a" by (simp add: tracks_True)
  with True carries_synced [OF assms(2)] carries_again [OF assms(2)] show ?thesis
    by (simp add: tracks_True)
next
  case False
  with assms(1) have "ahead g a" by (simp add: tracks_False)
  with False carries_ahead [OF assms(2)] carries_ahead [OF assms(2) ahead_id] show ?thesis
    by (simp add: tracks_False)
qed

lemma tracks_sync:
  assumes "tracks b g F x a"
  shows "tracks b g (insert (\<lambda>_. a) F) x a"
proof (cases b)
  case True
  with assms show ?thesis by (simp only: tracks_True) blast
next
  case False
  have "(\<lambda>_. a) \<circ> g = (\<lambda>_. a)" by (simp add: fun_eq_iff)
  with False assms ahead_const [of a] show ?thesis by (simp only: tracks_False) auto
qed

lemma tracks_push:
  assumes "tracks b g F x a" and "f \<in> F" and "F' \<subseteq> F"
  shows "tracks b (f \<circ> g) F' (f x) a"
proof (cases b)
  case True
  with assms(1) have F: "\<forall>h \<in> F. h x = a \<and> h a = a" by (simp only: tracks_True) blast
  then have "f x = a" using assms(2) by blast
  with True F assms(3) show ?thesis by (simp only: tracks_True) blast
next
  case False
  with assms(1) have F: "\<forall>h \<in> F. ahead h a \<and> ahead (h \<circ> g) a" by (simp only: tracks_False) blast
  then have "ahead (f \<circ> g) a" using assms(2) by blast
  with False F assms(3) show ?thesis by (simp only: tracks_False) (blast intro: ahead_comp)
qed

lemma tracks_greet:
  assumes "tracks False g F x a"
  shows "tracks True g' F (g a) a"
proof -
  have "f (g a) = a" "f a = a" if "ahead f a" "ahead (f \<circ> g) a" for f
    using that by (simp_all add: ahead_def)
  moreover have "g a = a" if "ahead g a" using that by (simp add: ahead_def)
  ultimately show ?thesis using assms unfolding tracks_True tracks_False by blast
qed

lemma tracks_greeted: "tracks True g F x a \<Longrightarrow> tracks True g' F x a"
  by (simp only: tracks_True)

definition mirror_inv :: "uuid \<Rightarrow> nat \<Rightarrow> mirror \<Rightarrow> bool" where
  "mirror_inv n c v \<longleftrightarrow> (\<exists>q. serving n c q (mi_app v) \<and>
     list_all msg_good (mi_wire v @ q) \<and> (\<forall>(k, m) \<in> set (mi_due v). msg_good m) \<and>
     distinct (map ncc_id (n_cameras (mi_node v))) \<and> (mi_greeted v \<or> mi_wire v = []) \<and>
     (n \<in> node_id ` set (nodes (db (mi_app v))) \<longrightarrow>
       (\<forall>i. tracks (mi_greeted v) (fold (msg_at i) q) ((\<lambda>m. msg_at i m) ` owed n i v)
          (fold (msg_at i) (mi_wire v @ q) (cam_at (n_cameras (mi_node v)) i))
          (config_at n (db (mi_app v)) i))))"

lemma mirror_invE:
  assumes "mirror_inv n c v"
  obtains q where "serving n c q (mi_app v)" and "list_all msg_good (mi_wire v @ q)"
    and "\<forall>(k, m) \<in> set (mi_due v). msg_good m" and "distinct (map ncc_id (n_cameras (mi_node v)))"
    and "mi_greeted v \<or> mi_wire v = []"
    and "\<And>i. n \<in> node_id ` set (nodes (db (mi_app v))) \<Longrightarrow>
       tracks (mi_greeted v) (fold (msg_at i) q) ((\<lambda>m. msg_at i m) ` owed n i v)
          (fold (msg_at i) (mi_wire v @ q) (cam_at (n_cameras (mi_node v)) i))
          (config_at n (db (mi_app v)) i)"
  using assms unfolding mirror_inv_def by blast

lemma mirror_inv_connected:
  assumes "faults s = []" and "db_ok (db s)" and "channels_apart (attach_socket n c s)"
    and "distinct (map ncc_id (n_cameras u))"
  shows "mirror_inv n c (connected n c s u)"
  using assms ahead_id
  by (auto simp: mirror_inv_def connected_def serving_def attach_socket_def id_def owed_def tracks_def
      intro!: exI [of _ "[]"])

lemma owed_simps [simp]:
  "owed n i (v\<lparr>mi_app := t\<rparr>) = owed n i v" "owed n i (v\<lparr>mi_wire := u\<rparr>) = owed n i v"
  "owed n i (v\<lparr>mi_node := y\<rparr>) = owed n i v" "owed n i (v\<lparr>mi_greeted := b\<rparr>) = owed n i v"
  by (simp_all add: owed_def)

text \<open>The phases of the handlers keep it.\<close>

lemma mirror_inv_commit:
  assumes "mirror_inv n c v" and "undisputed v k m"
    and "\<And>q. serving n c q (mi_app v) \<Longrightarrow> \<exists>e. t = (mi_app v)\<lparr>db := e\<rparr> \<and> commits n k m (db (mi_app v)) e"
  shows "mirror_inv n c (v\<lparr>mi_app := t, mi_due := (k, m) # mi_due v\<rparr>)"
proof -
  from assms(1) obtain q where q: "serving n c q (mi_app v)" "list_all msg_good (mi_wire v @ q)"
    "\<forall>(k, m) \<in> set (mi_due v). msg_good m" "distinct (map ncc_id (n_cameras (mi_node v)))"
    "mi_greeted v \<or> mi_wire v = []"
    and tr: "\<And>i. n \<in> node_id ` set (nodes (db (mi_app v))) \<Longrightarrow>
       tracks (mi_greeted v) (fold (msg_at i) q) ((\<lambda>m. msg_at i m) ` owed n i v)
          (fold (msg_at i) (mi_wire v @ q) (cam_at (n_cameras (mi_node v)) i))
          (config_at n (db (mi_app v)) i)"
    by (rule mirror_invE) blast
  from assms(3) [OF q(1)] obtain e where t: "t = (mi_app v)\<lparr>db := e\<rparr>" and e: "commits n k m (db (mi_app v)) e"
    by blast
  let ?v = "v\<lparr>mi_app := t, mi_due := (k, m) # mi_due v\<rparr>"
  have srv: "serving n c q t" using serving_db [OF q(1)] e by (simp add: t commits_def)
  have "tracks (mi_greeted v) (fold (msg_at i) q) ((\<lambda>m. msg_at i m) ` owed n i ?v)
      (fold (msg_at i) (mi_wire v @ q) (cam_at (n_cameras (mi_node v)) i)) (config_at n e i)"
    if n: "n \<in> node_id ` set (nodes e)" for i
  proof -
    have n': "n \<in> node_id ` set (nodes (db (mi_app v)))" using n e by (simp add: commits_def)
    show ?thesis
    proof (cases "k = n \<and> touches i m")
      case True
      then have "owed n i v = {}" using assms(2) by (auto simp: undisputed_def owed_def)
      then have "(\<lambda>m. msg_at i m) ` owed n i ?v = {msg_at i m}" using True by (auto simp: owed_def)
      moreover have "carries (msg_at i m) (config_at n (db (mi_app v)) i) (config_at n e i)"
        using e True unfolding commits_def by metis
      moreover have "(\<lambda>m. msg_at i m) ` owed n i v = {}" using \<open>owed n i v = {}\<close> by simp
      ultimately show ?thesis using tr [OF n', of i] by (simp only: tracks_change)
    next
      case False
      then have "config_at n e i = config_at n (db (mi_app v)) i"
        using e unfolding commits_def by metis
      moreover have "owed n i ?v = owed n i v" using False by (auto simp: owed_def)
      ultimately show ?thesis using tr [OF n'] by simp
    qed
  qed
  with q srv e t show ?thesis unfolding mirror_inv_def by (intro exI [of _ q]) (simp add: commits_def)
qed

text \<open>What leaves the cameras and the channel of the node alone keeps it.\<close>

lemma mirror_inv_quiet:
  assumes "mirror_inv n c v"
    and "\<And>q. serving n c q (mi_app v) \<Longrightarrow> serving n c q t"
    and "n \<in> node_id ` set (nodes (db t)) \<Longrightarrow> n \<in> node_id ` set (nodes (db (mi_app v))) \<and>
      config_at n (db t) = config_at n (db (mi_app v))"
  shows "mirror_inv n c (v\<lparr>mi_app := t\<rparr>)"
  using assms(1)
proof (rule mirror_invE)
  fix q assume q: "serving n c q (mi_app v)"
  from assms(2) [OF q] have "serving n c q t" .
  moreover assume "list_all msg_good (mi_wire v @ q)"
    "\<forall>(k, m) \<in> set (mi_due v). msg_good m" "distinct (map ncc_id (n_cameras (mi_node v)))"
    "mi_greeted v \<or> mi_wire v = []"
    "\<And>i. n \<in> node_id ` set (nodes (db (mi_app v))) \<Longrightarrow>
       tracks (mi_greeted v) (fold (msg_at i) q) ((\<lambda>m. msg_at i m) ` owed n i v)
          (fold (msg_at i) (mi_wire v @ q) (cam_at (n_cameras (mi_node v)) i))
          (config_at n (db (mi_app v)) i)"
  ultimately show ?thesis
    using assms(3) unfolding mirror_inv_def by (intro exI [of _ q]) simp
qed

text \<open>A message that is about no camera, and one that is owed.\<close>

lemma mirror_inv_sent:
  assumes "mirror_inv n c v" and "msg_good m" and "set due \<subseteq> set (mi_due v)"
    and "\<And>i. k = n \<Longrightarrow> touches i m \<Longrightarrow> m \<in> owed n i v"
    and "\<And>m'. (n, m') \<in> set (mi_due v) \<Longrightarrow> (n, m') \<notin> set due \<Longrightarrow> k = n \<and> m' = m"
  shows "mirror_inv n c (v\<lparr>mi_app := push_to_node k m (mi_app v), mi_due := due\<rparr>)"
  using assms(1)
proof (rule mirror_invE)
  let ?v = "v\<lparr>mi_app := push_to_node k m (mi_app v), mi_due := due\<rparr>"
  fix q assume q: "serving n c q (mi_app v)" and good: "list_all msg_good (mi_wire v @ q)"
    and dg: "\<forall>(k, m) \<in> set (mi_due v). msg_good m" and dist: "distinct (map ncc_id (n_cameras (mi_node v)))"
    and gr: "mi_greeted v \<or> mi_wire v = []"
    and tr: "\<And>i. n \<in> node_id ` set (nodes (db (mi_app v))) \<Longrightarrow>
       tracks (mi_greeted v) (fold (msg_at i) q) ((\<lambda>m. msg_at i m) ` owed n i v)
          (fold (msg_at i) (mi_wire v @ q) (cam_at (n_cameras (mi_node v)) i))
          (config_at n (db (mi_app v)) i)"
  let ?q = "if k = n then q @ [m] else q"
  have "tracks (mi_greeted v) (fold (msg_at i) ?q) ((\<lambda>m. msg_at i m) ` owed n i ?v)
      (fold (msg_at i) (mi_wire v @ ?q) (cam_at (n_cameras (mi_node v)) i))
      (config_at n (db (mi_app v)) i)"
    if n: "n \<in> node_id ` set (nodes (db (mi_app v)))" for i
  proof (cases "k = n \<and> touches i m")
    case True
    then have "msg_at i m \<in> (\<lambda>m. msg_at i m) ` owed n i v" using assms(4) by blast
    moreover have "(\<lambda>m. msg_at i m) ` owed n i ?v \<subseteq> (\<lambda>m. msg_at i m) ` owed n i v"
      using assms(3) by (auto simp: owed_def)
    ultimately show ?thesis using tracks_push [OF tr [OF n, of i]] True by (simp add: comp_def)
  next
    case False
    then have same: "fold (msg_at i) ?q = fold (msg_at i) q"
      by (auto simp: fun_eq_iff untouched)
    have "owed n i ?v = owed n i v" using assms(3) assms(5) False by (auto simp: owed_def)
    moreover have "fold (msg_at i) (mi_wire v @ ?q) y = fold (msg_at i) (mi_wire v @ q) y" for y
      using same by (simp add: fun_eq_iff)
    ultimately show ?thesis using tr [OF n, of i] same by simp
  qed
  moreover have "serving n c ?q (push_to_node k m (mi_app v))" by (rule serving_push [OF q])
  moreover have "list_all msg_good (mi_wire v @ ?q)" using good assms(2) by simp
  ultimately show ?thesis
    using dg dist gr assms(3) unfolding mirror_inv_def by (intro exI [of _ ?q]) auto
qed

lemma mirror_inv_push:
  assumes "mirror_inv n c v" and "(k, m) \<in> set (mi_due v)"
  shows "mirror_inv n c (v\<lparr>mi_app := push_to_node k m (mi_app v), mi_due := remove1 (k, m) (mi_due v)\<rparr>)"
proof (rule mirror_inv_sent [OF assms(1)])
  show "msg_good m" using assms by (auto simp: mirror_inv_def)
  show "set (remove1 (k, m) (mi_due v)) \<subseteq> set (mi_due v)" by (rule set_remove1_subset)
  show "m \<in> owed n i v" if "k = n" "touches i m" for i using that assms(2) by (simp add: owed_def)
  show "k = n \<and> m' = m" if "(n, m') \<in> set (mi_due v)" "(n, m') \<notin> set (remove1 (k, m) (mi_due v))" for m'
  proof (rule ccontr)
    assume "\<not> (k = n \<and> m' = m)"
    then have "(n, m') \<noteq> (k, m)" by auto
    with that show False by (simp add: in_set_remove1)
  qed
qed

lemma mirror_inv_notice:
  assumes "mirror_inv n c v" and "\<forall>i. \<not> touches i m" and "msg_good m"
  shows "mirror_inv n c (v\<lparr>mi_app := push_to_node k m (mi_app v)\<rparr>)"
proof -
  have "v\<lparr>mi_app := push_to_node k m (mi_app v)\<rparr> =
      v\<lparr>mi_app := push_to_node k m (mi_app v), mi_due := mi_due v\<rparr>" by (cases v) simp
  moreover have "mirror_inv n c (v\<lparr>mi_app := push_to_node k m (mi_app v), mi_due := mi_due v\<rparr>)"
    by (rule mirror_inv_sent [OF assms(1,3)]) (use assms(2) in auto)
  ultimately show ?thesis by simp
qed

lemma fetch_sync_runs:
  "faults s = [] \<Longrightarrow> fetch_sync k s = (Inr (k, config_sync (node_config k (db s))), s)"
  by (simp add: fetch_sync_def prog_simps)

lemma mirror_inv_sync:
  assumes "mirror_inv n c v" and "fetch_sync k' (mi_app v) = (Inr (k, m), t)"
  shows "mirror_inv n c (v\<lparr>mi_app := t, mi_due := (k, m) # mi_due v\<rparr>)"
  using assms(1)
proof (rule mirror_invE)
  let ?s = "mi_app v"
  fix q assume q: "serving n c q ?s" and good: "list_all msg_good (mi_wire v @ q)"
    and dg: "\<forall>(k, m) \<in> set (mi_due v). msg_good m" and dist: "distinct (map ncc_id (n_cameras (mi_node v)))"
    and gr: "mi_greeted v \<or> mi_wire v = []"
    and tr: "\<And>i. n \<in> node_id ` set (nodes (db ?s)) \<Longrightarrow>
       tracks (mi_greeted v) (fold (msg_at i) q) ((\<lambda>m. msg_at i m) ` owed n i v)
          (fold (msg_at i) (mi_wire v @ q) (cam_at (n_cameras (mi_node v)) i)) (config_at n (db ?s) i)"
  have f: "faults ?s = []" and ok: "db_ok (db ?s)" using q by (simp_all add: serving_def)
  have t: "t = ?s" "m = ConfigSync 0 (node_config k (db ?s))"
    using assms(2) fetch_sync_runs [OF f, of k'] by (auto simp: config_sync_def)
  let ?v = "v\<lparr>mi_app := t, mi_due := (k, m) # mi_due v\<rparr>"
  have "tracks (mi_greeted v) (fold (msg_at i) q) ((\<lambda>m. msg_at i m) ` owed n i ?v)
      (fold (msg_at i) (mi_wire v @ q) (cam_at (n_cameras (mi_node v)) i)) (config_at n (db ?s) i)"
    if n: "n \<in> node_id ` set (nodes (db ?s))" for i
  proof (cases "k = n")
    case True
    then have "msg_at i m = (\<lambda>_. config_at n (db ?s) i)"
      by (simp add: t(2) fun_eq_iff config_at_def cam_at_def)
    moreover have "owed n i ?v = insert m (owed n i v)" using True t(2) by (auto simp: owed_def)
    ultimately show ?thesis using tracks_sync [OF tr [OF n, of i]] by simp
  next
    case False
    then have "owed n i ?v = owed n i v" by (auto simp: owed_def)
    then show ?thesis using tr [OF n, of i] by simp
  qed
  moreover have "msg_good m" using distinct_node_config [OF ok] by (simp add: t(2))
  ultimately show ?thesis
    using q good dg dist gr t(1) unfolding mirror_inv_def by (intro exI [of _ q]) simp
qed

lemma mirror_inv_greet:
  assumes "mirror_inv n c v" and "\<not> mi_greeted v" and "fetch_node_cameras n (mi_app v) = (Inr cams, t)"
  shows "mirror_inv n c (v\<lparr>mi_app := t, mi_wire := mi_wire v @ [config_sync cams], mi_greeted := True\<rparr>)"
  using assms(1)
proof (rule mirror_invE)
  let ?s = "mi_app v"
  fix q assume q: "serving n c q ?s" and good: "list_all msg_good (mi_wire v @ q)"
    and dg: "\<forall>(k, m) \<in> set (mi_due v). msg_good m" and dist: "distinct (map ncc_id (n_cameras (mi_node v)))"
    and gr: "mi_greeted v \<or> mi_wire v = []"
    and tr: "\<And>i. n \<in> node_id ` set (nodes (db ?s)) \<Longrightarrow>
       tracks (mi_greeted v) (fold (msg_at i) q) ((\<lambda>m. msg_at i m) ` owed n i v)
          (fold (msg_at i) (mi_wire v @ q) (cam_at (n_cameras (mi_node v)) i)) (config_at n (db ?s) i)"
  have f: "faults ?s = []" and s: "db_ok (db ?s)" using q by (simp_all add: serving_def)
  have g: "cams = node_config n (db ?s)" "t = ?s" using fetch_cameras_runs [OF f, of n] assms(3) by auto
  have w: "mi_wire v = []" using gr assms(2) by simp
  let ?v = "v\<lparr>mi_app := t, mi_wire := mi_wire v @ [config_sync cams], mi_greeted := True\<rparr>"
  have "tracks True (fold (msg_at i) q) ((\<lambda>m. msg_at i m) ` owed n i v)
      (fold (msg_at i) (mi_wire ?v @ q) (cam_at (n_cameras (mi_node v)) i)) (config_at n (db ?s) i)"
    if n: "n \<in> node_id ` set (nodes (db ?s))" for i
  proof -
    have "fold (msg_at i) (mi_wire ?v @ q) y = fold (msg_at i) q (config_at n (db ?s) i)" for y
      by (simp add: w g config_sync_def config_at_def cam_at_def)
    with tracks_greet [of "fold (msg_at i) q"] tr [OF n, of i] assms(2) show ?thesis by simp
  qed
  with q good dg dist distinct_node_config [OF s, of n] w show ?thesis
    unfolding mirror_inv_def by (intro exI [of _ q]) (simp add: g config_sync_def)
qed

lemma mirror_inv_dashboards:
  "mirror_inv n c v \<Longrightarrow> mirror_inv n c (v\<lparr>mi_app := broadcast_dashboard j (mi_app v)\<rparr>)"
  by (erule mirror_inv_quiet) (simp_all add: serving_def channels_apart_def)

text \<open>The sockets of other nodes come and go.\<close>

lemma map_of_filter_ne: "map_of (filter (\<lambda>e. fst e \<noteq> k) xs) = (map_of xs)(k := None)"
  by (induction xs) (auto simp: fun_eq_iff)

lemma map_of_attach:
  "map_of (node_txs (attach_socket k c' s)) = (map_of (node_txs s))(k := Some c')"
  by (auto simp: attach_socket_def fun_eq_iff map_of_filter_ne)

lemma map_of_detach:
  "map_of (node_txs (detach_socket w k c' s)) = (map_of (node_txs s))(k := None)"
  by (auto simp: detach_socket_def Let_def fun_eq_iff map_of_filter_ne)

lemma mirror_inv_joined:
  assumes "mirror_inv n c v" and "k \<noteq> n" and "node_chans (mi_app v) c' = None"
    and "\<forall>j. map_of (node_txs (mi_app v)) j \<noteq> Some c'"
  shows "mirror_inv n c (v\<lparr>mi_app := attach_socket k c' (mi_app v)\<rparr>)"
proof (rule mirror_inv_quiet [OF assms(1)])
  show "serving n c q (attach_socket k c' (mi_app v))" if "serving n c q (mi_app v)" for q
    using that assms(2-4) by (auto simp: serving_def channels_apart_def map_of_attach inj_on_def)
       (auto simp: attach_socket_def)
qed (simp add: config_at_def)

lemma mirror_inv_left:
  assumes "mirror_inv n c v" and "k \<noteq> n" and "c' \<noteq> c"
  shows "mirror_inv n c (v\<lparr>mi_app := detach_socket w k c' (mi_app v)\<rparr>)"
proof (rule mirror_inv_quiet [OF assms(1)])
  show "serving n c q (detach_socket w k c' (mi_app v))" if "serving n c q (mi_app v)" for q
    using that assms(2,3) by (auto simp: serving_def channels_apart_def map_of_detach inj_on_def)
       (auto simp: detach_socket_def Let_def)
qed (simp add: config_at_def)

lemma mirror_inv_forward:
  assumes "mirror_inv n c v" and "mi_greeted v" and "node_chans (mi_app v) c = Some (m # ms)"
  shows "mirror_inv n c (v\<lparr>mi_app := (mi_app v)\<lparr>node_chans := (node_chans (mi_app v))(c := Some ms)\<rparr>,
    mi_wire := mi_wire v @ [m]\<rparr>)"
  using assms(1)
proof (rule mirror_invE)
  fix q assume q: "serving n c q (mi_app v)" "list_all msg_good (mi_wire v @ q)"
    "\<forall>(k, m) \<in> set (mi_due v). msg_good m" "distinct (map ncc_id (n_cameras (mi_node v)))"
    and tr: "\<And>i. n \<in> node_id ` set (nodes (db (mi_app v))) \<Longrightarrow>
       tracks (mi_greeted v) (fold (msg_at i) q) ((\<lambda>m. msg_at i m) ` owed n i v)
          (fold (msg_at i) (mi_wire v @ q) (cam_at (n_cameras (mi_node v)) i)) (config_at n (db (mi_app v)) i)"
  have "q = m # ms" using q(1) assms(3) by (simp add: serving_def)
  with q assms(2) tr show ?thesis
    unfolding mirror_inv_def
    by (intro exI [of _ ms]) (auto simp: serving_def channels_apart_def intro: tracks_greeted)
qed

lemma mirror_inv_receive:
  assumes "mirror_inv n c v" and "mi_wire v = m # ms"
    and "node_handle_incoming dir (Some m) (mi_node v) = (r, u)"
  shows "mirror_inv n c (v\<lparr>mi_wire := ms, mi_node := u\<rparr>)"
  using assms(1)
proof (rule mirror_invE)
  fix q assume q: "serving n c q (mi_app v)" "list_all msg_good (mi_wire v @ q)"
    "\<forall>(k, m) \<in> set (mi_due v). msg_good m" "distinct (map ncc_id (n_cameras (mi_node v)))"
    "mi_greeted v \<or> mi_wire v = []"
    and tr: "\<And>i. n \<in> node_id ` set (nodes (db (mi_app v))) \<Longrightarrow>
       tracks (mi_greeted v) (fold (msg_at i) q) ((\<lambda>m. msg_at i m) ` owed n i v)
          (fold (msg_at i) (mi_wire v @ q) (cam_at (n_cameras (mi_node v)) i)) (config_at n (db (mi_app v)) i)"
  have l: "n_cameras u = apply_to_list m (n_cameras (mi_node v))"
    using node_incoming_list [of dir m "mi_node v"] assms(3) by simp
  have "distinct (map ncc_id (apply_to_list m (n_cameras (mi_node v))))"
    using q(2,4) assms(2) by (auto simp: apply_to_list_def split: option.split dest: apply_cameras_distinct)
  with q assms(2) l tr show ?thesis
    unfolding mirror_inv_def by (intro exI [of _ q]) (simp add: node_list.view_apply)
qed

lemma mirror_inv_status:
  assumes "mirror_inv n c v" and "update_node_status_commit w me k st (mi_app v) = (r, t)"
  shows "mirror_inv n c (v\<lparr>mi_app := t\<rparr>)"
proof (rule mirror_inv_quiet [OF assms(1)])
  let ?s = "mi_app v" and ?f = "\<lambda>m. m\<lparr>node_status := st, node_updated_at := db_now w\<rparr>"
  obtain q0 where "serving n c q0 ?s" using assms(1) by (rule mirror_invE)
  then have f: "faults ?s = []" and ok: "db_ok (db ?s)" by (simp_all add: serving_def)
  have "t = ?s \<or> (\<exists>x d. update_node k ?f (db ?s) = Inr (x, d) \<and> t = ?s\<lparr>db := d\<rparr>)"
    using assms(2) f
    by (cases "update_node k ?f (db ?s)")
      (auto simp: update_node_status_commit_def prog_simps split: if_splits option.splits)
  then have db: "db_ok (db t) \<and> cameras (db t) = cameras (db ?s) \<and>
      node_id ` set (nodes (db t)) = node_id ` set (nodes (db ?s)) \<and> t = ?s\<lparr>db := db t\<rparr>"
  proof (elim disjE exE conjE)
    fix x d assume u: "update_node k ?f (db ?s) = Inr (x, d)" and t: "t = ?s\<lparr>db := d\<rparr>"
    have "db_ok d" by (rule stmt_keepsD [OF update_node_ok u ok]) simp
    with update_node_ids [OF u] t show ?thesis by simp
  qed (use ok in simp)
  show "serving n c q t" if "serving n c q ?s" for q
    using serving_db [OF that] db by metis
  show "n \<in> node_id ` set (nodes (db ?s)) \<and> config_at n (db t) = config_at n (db ?s)"
    if "n \<in> node_id ` set (nodes (db t))"
    using that db by (simp add: config_at_def node_config_def cameras_of_def)
qed

lemma mirror_inv_node_deleted:
  assumes "mirror_inv n c v" and "delete_node me k (mi_app v) = (r, t)"
  shows "mirror_inv n c (v\<lparr>mi_app := t\<rparr>)"
proof (rule mirror_inv_quiet [OF assms(1)])
  let ?s = "mi_app v"
  obtain q0 where q0: "serving n c q0 ?s" using assms(1) by (rule mirror_invE)
  then have f: "faults ?s = []" and ok: "db_ok (db ?s)" by (simp_all add: serving_def)
  have "db_ok (db t)" using keepsD [OF sound.keeps_delete_node ok, of me k] assms(2) by simp
  moreover have t: "t = ?s \<or> t = ?s\<lparr>db := (db ?s)\<lparr>nodes := delete_where (\<lambda>m. node_id m = k) (nodes (db ?s)),
      cameras := delete_where (\<lambda>c. cam_node_id c = k) (cameras (db ?s))\<rparr>\<rparr>"
    using assms(2) f by (auto simp: delete_node_def delete_node_row_def prog_simps split: if_splits)
  ultimately show "serving n c q t" if "serving n c q ?s" for q
    using serving_db [OF that, of "db t"] that by auto
  show "n \<in> node_id ` set (nodes (db ?s)) \<and> config_at n (db t) = config_at n (db ?s)"
    if n: "n \<in> node_id ` set (nodes (db t))"
  proof (cases "t = ?s")
    case False
    with t n have "n \<noteq> k" by auto
    then have "filter (\<lambda>c. cam_node_id c = n) (delete_where (\<lambda>c. cam_node_id c = k) cs) =
        filter (\<lambda>c. cam_node_id c = n) cs" for cs
      by (induction cs) (auto simp: delete_where_def)
    then have "cameras_of n (db t) = cameras_of n (db ?s)"
      using t False by (auto simp: cameras_of_def)
    moreover have "n \<in> node_id ` set (nodes (db ?s))" using t n False by auto
    ultimately show ?thesis by (simp add: config_at_def node_config_def)
  qed (use n in simp)
qed

lemma mirror_inv_incoming:
  assumes "mirror_inv n c v" and "handle_incoming w k msg (mi_app v) = (r, t)"
  shows "mirror_inv n c (v\<lparr>mi_app := t\<rparr>)"
proof (cases "\<exists>j. msg = Some (Ping j)")
  case True
  then obtain j where "msg = Some (Ping j)" by blast
  then have "t = push_to_node k (Pong j) (mi_app v)" using assms(2) by simp
  with mirror_inv_notice [OF assms(1)] show ?thesis by simp
next
  case False
  let ?s = "mi_app v"
  obtain q0 where q0: "serving n c q0 ?s" using assms(1) by (rule mirror_invE)
  then have f: "faults ?s = []" and ok: "db_ok (db ?s)" by (simp_all add: serving_def)
  from False have np: "msg \<noteq> Some (Ping q)" for q by blast
  from incoming_still [OF f np, of w k] assms(2)
  have t: "still ?s t" "cameras (db t) = cameras (db ?s)" by auto
  have ids: "node_id ` set (nodes (db t)) = node_id ` set (nodes (db ?s))"
    using incoming_ids [OF np, of w k ?s] assms(2) by simp
  have okt: "db_ok (db t)" using keepsD [OF sound.keeps_handle_incoming ok, of w k msg] assms(2) by simp
  show ?thesis
  proof (rule mirror_inv_quiet [OF assms(1)])
    show "serving n c q t" if "serving n c q ?s" for q
      using that t okt by (simp add: still_def serving_def channels_apart_def)
    show "n \<in> node_id ` set (nodes (db ?s)) \<and> config_at n (db t) = config_at n (db ?s)"
      if "n \<in> node_id ` set (nodes (db t))"
      using that ids t by (simp add: config_at_def node_config_def cameras_of_def)
  qed
qed

lemma mirror_inv_step:
  assumes "mirror_step n c v v'" and "mirror_inv n c v"
  shows "mirror_inv n c v'"
  using assms(1)
proof (cases rule: mirror_step.cases)
  case (create w b k' k m t)
  with create_camera_commits [OF _ create(2)] show ?thesis by (auto intro: mirror_inv_commit [OF assms(2)])
next
  case (update w me i b k m t)
  with update_camera_commits [OF _ update(2)] show ?thesis by (auto intro: mirror_inv_commit [OF assms(2)])
next
  case (delete me i k m t)
  with delete_camera_commits [OF _ delete(2)] show ?thesis by (auto intro: mirror_inv_commit [OF assms(2)])
next
  case (push k m r t)
  then show ?thesis using mirror_inv_push [OF assms(2), of k m] by (simp add: send_due_def)
next
  case (statement d)
  have "mirror_inv n c (v\<lparr>mi_app := (mi_app v)\<lparr>db := d\<rparr>\<rparr>)"
    using statement(2-) by (intro mirror_inv_quiet [OF assms(2)])
      (simp_all add: serving_db config_at_def node_config_def cameras_of_def)
  then show ?thesis by (simp add: statement(1))
qed (simp_all add: mirror_inv_greet mirror_inv_forward mirror_inv_receive mirror_inv_status mirror_inv_sync
    mirror_inv_node_deleted mirror_inv_incoming mirror_inv_notice mirror_inv_dashboards mirror_inv_joined
    mirror_inv_left assms(2))

lemma mirror_inv_run: "(mirror_step n c)\<^sup>*\<^sup>* v v' \<Longrightarrow> mirror_inv n c v \<Longrightarrow> mirror_inv n c v'"
proof (induction rule: rtranclp_induct)
  case (step x y)
  from mirror_inv_step [OF step.hyps(2) step.IH [OF step.prems]] show ?case .
qed

lemma cam_at_set:
  assumes "distinct (map ncc_id xs)" and "distinct (map ncc_id ys)" and "cam_at xs = cam_at ys"
  shows "set xs = set ys"
proof -
  have "x \<in> set zs \<longleftrightarrow> cam_at zs (ncc_id x) = Some x" if "distinct (map ncc_id zs)" for zs x
    unfolding cam_at_def using find_key_unique [OF that] find_key_Some [of ncc_id "ncc_id x" zs x] by metis
  from this [OF assms(1)] this [OF assms(2)] show ?thesis
    unfolding assms(3) by (intro set_eqI) simp
qed

text \<open>Whatever is owed, in any order, brings the entry up to date.\<close>

lemma fold_due:
  assumes "\<forall>m \<in> set ms. touches i m \<longrightarrow> msg_at i m x = a \<and> msg_at i m a = a"
    and "(\<forall>m \<in> set ms. \<not> touches i m) \<longrightarrow> x = a"
  shows "fold (msg_at i) ms x = a"
  using assms
proof (induction ms arbitrary: x)
  case (Cons m ms)
  show ?case
  proof (cases "touches i m")
    case True
    with Cons.prems(1) have "msg_at i m x = a" by simp
    with Cons show ?thesis by simp
  next
    case False
    with Cons show ?thesis by (simp add: untouched)
  qed
qed simp

text \<open>
  C4. The node's camera list refines the coordinator's table: on a connection, whatever the
  handlers of the coordinator do, and however their statements, their pushes, the greeting, the
  forwarding and the node's own handling of what arrives are interleaved, the node's list, taken
  through the messages that are on the way or waiting and then through those that handlers still
  owe the node, in whatever order they will send them, yields for every camera the configuration
  the database has for it now, from the greeting on. So whenever nothing is owed, on the way or
  waiting, the node works with exactly the cameras the database assigns to it. The steps assume
  that no round trip to the database fails, that a handler that has written does send its
  message, that a camera is not changed while a message about it (or the list for its node, just
  approved) is still owed, and that the node has no second connection. The program does not see
  to these: two updates of one camera that overlap can leave the node with the older one. The
  claim is for a node that has not been deleted: its deletion is not sent to it.
\<close>

theorem mirror_refines:
  assumes "faults s = []" and "db_ok (db s)" and "channels_apart (attach_socket n c s)"
    and "distinct (map ncc_id (n_cameras u))"
    and "(mirror_step n c)\<^sup>*\<^sup>* (connected n c s u) v"
    and "mi_greeted v" and "n \<in> node_id ` set (nodes (db (mi_app v)))"
    and "set ms = {m. (n, m) \<in> set (mi_due v)}"
  shows "cam_at (fold apply_to_list (mi_wire v @ pending_for n (mi_app v) @ ms) (n_cameras (mi_node v))) =
      cam_at (node_config n (db (mi_app v))) \<and>
    (mi_wire v = [] \<and> pending_for n (mi_app v) = [] \<and> ms = [] \<longrightarrow>
      set (n_cameras (mi_node v)) = set (node_config n (db (mi_app v))) \<and>
      distinct (map ncc_id (n_cameras (mi_node v))))"
proof -
  from mirror_inv_run [OF assms(5) mirror_inv_connected [OF assms(1-4)]]
  obtain q where q: "serving n c q (mi_app v)" "distinct (map ncc_id (n_cameras (mi_node v)))"
    and tr: "\<And>i. tracks True (fold (msg_at i) q) ((\<lambda>m. msg_at i m) ` owed n i v)
        (fold (msg_at i) (mi_wire v @ q) (cam_at (n_cameras (mi_node v)) i)) (config_at n (db (mi_app v)) i)"
    by (rule mirror_invE) (use assms(6,7) in simp)
  from q(1) have p: "pending_for n (mi_app v) = q" and ok: "db_ok (db (mi_app v))"
    by (simp_all add: serving_def pending_for_def)
  have "fold (msg_at i) (mi_wire v @ q @ ms) (cam_at (n_cameras (mi_node v)) i) = config_at n (db (mi_app v)) i"
    for i
  proof -
    let ?x = "fold (msg_at i) (mi_wire v @ q) (cam_at (n_cameras (mi_node v)) i)"
    have "owed n i v = {m \<in> set ms. touches i m}" by (auto simp: owed_def assms(8))
    with tr [of i] have "fold (msg_at i) ms ?x = config_at n (db (mi_app v)) i"
      unfolding tracks_True by (intro fold_due) auto
    then show ?thesis by simp
  qed
  then have 1: "cam_at (fold apply_to_list (mi_wire v @ q @ ms) (n_cameras (mi_node v))) =
      cam_at (node_config n (db (mi_app v)))"
    by (intro node_list.converged) (simp add: config_at_def)
  moreover have "set (n_cameras (mi_node v)) = set (node_config n (db (mi_app v)))"
    if "mi_wire v = []" "q = []" "ms = []"
    using 1 that cam_at_set [OF q(2) distinct_node_config [OF ok]] by simp
  ultimately show ?thesis using p q(2) by simp
qed

text \<open>A connection on which a camera is renamed while the greeting is under way.\<close>

definition sample_rename :: update_camera_req where
  "sample_rename = \<lparr>uc_name = Some ''porch'', uc_rtsp_url = None, uc_stream_path = None, uc_enabled = None,
     uc_onvif_url = None, uc_onvif_username = None, uc_onvif_password = None, uc_motion_detection = None\<rparr>"

lemma sample_rename_commits:
  assumes "faults s = []" and "db s = sample_db"
  shows "update_camera_commit sample_ext sample_admin 30 sample_rename s =
    (Inr (20, CameraUpdated 0 (node_camera_config (set_camera sample_ext sample_rename sample_camera))),
     s\<lparr>db := sample_db\<lparr>cameras := [set_camera sample_ext sample_rename sample_camera]\<rparr>\<rparr>)"
proof -
  let ?x = "set_camera sample_ext sample_rename sample_camera"
  have "cam_id sample_camera = 30" "cam_node_id sample_camera = 20" by (simp_all add: sample_camera_def)
  moreover have "camera_check sample_db ?x [] = None"
    by (simp add: camera_check_def set_camera_def sample_camera_def sample_node_def policy_exists_def)
  ultimately have "update_camera_row 30 (set_camera sample_ext sample_rename) sample_db =
      Inr (Some ?x, sample_db\<lparr>cameras := [?x]\<rparr>)"
    by (simp add: update_pk_def put_defs update_where_def delete_where_def)
  with assms show ?thesis
    by (simp add: update_camera_commit_def prog_simps sample_admin_def is_operator_or_above_def
        sample_camera_def)
qed

lemma four_steps:
  "mirror_step n c a b \<Longrightarrow> mirror_step n c b d \<Longrightarrow> mirror_step n c d e \<Longrightarrow> mirror_step n c e f \<Longrightarrow>
     (mirror_step n c)\<^sup>*\<^sup>* a f"
  by (meson rtranclp.rtrancl_into_rtrancl r_into_rtranclp)

theorem mirror_refines_witness:
  "\<exists>v. (mirror_step 20 8)\<^sup>*\<^sup>* (connected 20 8 sample_app (new_node_app sample_fs)) v \<and>
     mi_greeted v \<and> mi_wire v = [] \<and> mi_due v = [] \<and> length (pending_for 20 (mi_app v)) = 1 \<and>
     cam_at (fold apply_to_list (pending_for 20 (mi_app v)) (n_cameras (mi_node v))) =
       cam_at [node_camera_config (set_camera sample_ext sample_rename sample_camera)]"
proof -
  let ?u = "new_node_app sample_fs" and ?v0 = "connected 20 8 sample_app (new_node_app sample_fs)"
  let ?x = "set_camera sample_ext sample_rename sample_camera"
  let ?m = "CameraUpdated 0 (node_camera_config ?x)"
  let ?d = "sample_db\<lparr>cameras := [?x]\<rparr>"
  let ?s = "(attach_socket 20 8 sample_app)\<lparr>db := ?d\<rparr>"
  let ?v1 = "?v0\<lparr>mi_app := ?s, mi_due := [(20, ?m)]\<rparr>"
  have x: "cam_node_id ?x = 20" by (simp add: sample_camera_def)
  have v0: "mi_due ?v0 = []" "mi_app ?v0 = attach_socket 20 8 sample_app" by (simp_all add: connected_def)
  have "update_camera_commit sample_ext sample_admin 30 sample_rename (mi_app ?v0) = (Inr (20, ?m), ?s)"
    using sample_rename_commits [of "attach_socket 20 8 sample_app"] v0 by simp
  from mirror_step.update [OF this, of 20 8] v0 have 1: "mirror_step 20 8 ?v0 ?v1"
    by (simp add: undisputed_def)
  let ?cams = "node_config 20 ?d"
  have g: "fetch_node_cameras 20 ?s = (Inr ?cams, ?s)" using fetch_cameras_runs [of ?s 20] by simp
  let ?v2 = "?v1\<lparr>mi_wire := [config_sync ?cams], mi_greeted := True\<rparr>"
  have 2: "mirror_step 20 8 ?v1 ?v2"
    using mirror_step.greet [of ?v1 20] g by (simp add: connected_def)
  obtain r' u where n: "node_handle_incoming [] (Some (config_sync ?cams)) ?u = (r', u)" by fastforce
  let ?v3 = "?v2\<lparr>mi_wire := [], mi_node := u\<rparr>"
  have 3: "mirror_step 20 8 ?v2 ?v3"
    using mirror_step.receive [of ?v2 "config_sync ?cams" "[]"] n by (simp add: connected_def)
  let ?v4 = "?v3\<lparr>mi_app := push_to_node 20 ?m ?s, mi_due := []\<rparr>"
  have 4: "mirror_step 20 8 ?v3 ?v4"
    using mirror_step.push [of 20 ?m ?v3] by (simp add: send_due_def)
  have run: "(mirror_step 20 8)\<^sup>*\<^sup>* ?v0 ?v4"
    by (rule four_steps [OF 1 2 3 4])
  have ap: "channels_apart (attach_socket 20 8 sample_app)"
    by (simp add: channels_apart_def attach_socket_def inj_on_def)
  have pend: "pending_for 20 (mi_app ?v4) = [?m]"
    by (simp add: pending_for_def push_to_node_def attach_socket_def send_def)
  have "cam_at (fold apply_to_list (mi_wire ?v4 @ pending_for 20 (mi_app ?v4) @ []) (n_cameras (mi_node ?v4))) =
      cam_at (node_config 20 (db (mi_app ?v4)))"
    using mirror_refines [OF _ _ ap _ run, of "[]"]
    by (simp add: connected_def new_node_app_def sample_node_def)
  moreover have "node_config 20 (db (mi_app ?v4)) = [node_camera_config ?x]"
    using x by (simp add: node_config_def cameras_of_def)
  ultimately show ?thesis
    using run pend by (intro exI [of _ ?v4]) simp
qed

section \<open>Outside the discipline\<close>

text \<open>
  Two changes of one camera that overlap, the second statement before the first push: the
  messages can leave in the other order, and the node keeps the configuration of the first
  change, while the database has the second.
\<close>

lemma overlapping_updates_stale:
  assumes "update_camera_commit w1 me1 i b1 s = (Inr (n, m1), s1)"
    and "update_camera_commit w2 me2 i b2 s1 = (Inr (n, m2), s2)"
    and "serving n c q s" and "t = push_to_node n m1 (push_to_node n m2 s2)"
    and "cam_at (fold apply_to_list q l) i \<noteq> None"
  shows "\<exists>x y. m1 = CameraUpdated 0 x \<and> m2 = CameraUpdated 0 y \<and> config_at n (db t) i = Some y \<and>
    cam_at (fold apply_to_list (pending_for n t) l) i = Some x"
proof -
  have msg: "\<exists>x e. m = CameraUpdated 0 (node_camera_config x) \<and> cam_id x = i \<and> cam_node_id x = n \<and>
      u = r\<lparr>db := e\<rparr> \<and> db_ok e \<and> find (\<lambda>q. cam_id q = i) (cameras e) = Some x"
    if "update_camera_commit w me i b r = (Inr (n, m), u)" "faults r = []" "db_ok (db r)" for w me b r m u
  proof -
    from that(1,2) obtain x d where up: "update_camera_row i (set_camera w b) (db r) = Inr (Some x, d)"
      and u: "u = r\<lparr>db := d\<rparr>" "n = cam_node_id x" "m = CameraUpdated 0 (node_camera_config x)"
      by (auto simp: update_camera_commit_def prog_simps split: if_splits sum.splits prod.splits option.splits)
    have "cam_id (set_camera w b y) = cam_id y" for y by (simp add: set_camera_def)
    from cameras.update_lookup [OF up this] have "find (\<lambda>q. cam_id q = i) (cameras d) = Some x" by simp
    moreover have "db_ok d" by (rule stmt_keepsD [OF update_camera_ok up that(3)])
    ultimately show ?thesis using u by (auto dest: find_key_Some)
  qed
  have f: "faults s = []" "db_ok (db s)" using assms(3) by (simp_all add: serving_def)
  from msg [OF assms(1) f] obtain x e where
    x: "m1 = CameraUpdated 0 (node_camera_config x)" "cam_id x = i" "s1 = s\<lparr>db := e\<rparr>" "db_ok e" by blast
  have f1: "faults s1 = []" "db_ok (db s1)" using x(3,4) f(1) by simp_all
  from msg [OF assms(2) f1] obtain y d where
    y: "m2 = CameraUpdated 0 (node_camera_config y)" "cam_id y = i" "cam_node_id y = n" "s2 = s1\<lparr>db := d\<rparr>"
    "db_ok d" "find (\<lambda>q. cam_id q = i) (cameras d) = Some y" by blast
  have "serving n c q s2" using serving_db [OF assms(3) y(5)] x(3) y(4) by simp
  from serving_push [OF serving_push [OF this], of n n m2 m1]
  have "serving n c (q @ [m2, m1]) t" by (simp add: assms(4))
  then have "pending_for n t = q @ [m2, m1]" by (simp add: serving_def pending_for_def)
  moreover have "db t = d" using assms(4) y(4) by simp
  moreover have "config_at n d i = Some (node_camera_config y)"
    using y by (simp add: config_lookup [OF y(5)])
  moreover have "cam_at (fold apply_to_list (q @ [m2, m1]) l) i = Some (node_camera_config x)"
    using assms(5) x(1,2) y(1,2)
    by (auto simp: node_list.view_apply node_camera_config_def)
  ultimately show ?thesis using x(1) y(1) by auto
qed

text \<open>A node that is deleted is not told: its cameras are gone from the database, and it records on.\<close>

lemma deleted_node_keeps_cameras:
  assumes "faults s = []" and "is_admin me" and "delete_node me n s = (Inr code, t)"
  shows "node_config n (db t) = [] \<and> node_txs t = node_txs s \<and> node_chans t = node_chans s"
proof -
  have "t = s\<lparr>db := (db s)\<lparr>nodes := delete_where (\<lambda>m. node_id m = n) (nodes (db s)),
      cameras := delete_where (\<lambda>c. cam_node_id c = n) (cameras (db s))\<rparr>\<rparr>"
    using assms by (auto simp: delete_node_def delete_node_row_def prog_simps split: if_splits)
  moreover have "filter (\<lambda>c. cam_node_id c = n) (delete_where (\<lambda>c. cam_node_id c = n) cs) = []" for cs
    by (simp add: delete_where_def filter_empty_conv)
  ultimately show ?thesis by (simp add: node_config_def cameras_of_def)
qed

section \<open>The handlers are runs of steps\<close>

lemma run_push:
  assumes "mirror_step n c v' (v\<lparr>mi_app := t, mi_due := [(k, m)]\<rparr>)" and "mi_due v = []"
  shows "(mirror_step n c)\<^sup>*\<^sup>* v' (v\<lparr>mi_app := push_to_node k m t\<rparr>)"
proof -
  have "v\<lparr>mi_app := u, mi_due := []\<rparr> = v\<lparr>mi_app := u\<rparr>" for u using assms(2) by (cases v) simp
  then have "mirror_step n c (v\<lparr>mi_app := t, mi_due := [(k, m)]\<rparr>) (v\<lparr>mi_app := push_to_node k m t\<rparr>)"
    using mirror_step.push [of k m "v\<lparr>mi_app := t, mi_due := [(k, m)]\<rparr>"] by (simp add: send_due_def)
  with assms(1) show ?thesis by (rule converse_rtranclp_into_rtranclp [OF _ r_into_rtranclp])
qed

lemma run_commit:
  assumes "mi_due v = []"
    and ok: "\<And>k m' t. m (mi_app v) = (Inr (k, m'), t) \<Longrightarrow> mirror_step n c v (v\<lparr>mi_app := t, mi_due := [(k, m')]\<rparr>)"
    and err: "\<And>e t. m (mi_app v) = (Inl e, t) \<Longrightarrow> t = mi_app v"
  shows "(mirror_step n c)\<^sup>*\<^sup>* v (v\<lparr>mi_app := snd (andthen m send_due (mi_app v))\<rparr>)"
proof -
  obtain r t where m: "m (mi_app v) = (r, t)" by fastforce
  show ?thesis
  proof (cases r)
    case (Inl e)
    have "v\<lparr>mi_app := mi_app v\<rparr> = v" by (cases v) simp
    with m err Inl show ?thesis by (simp add: andthen_apply)
  next
    case (Inr x)
    then show ?thesis
      using m ok run_push [OF _ assms(1)] by (cases x) (auto simp: andthen_apply send_due_def)
  qed
qed

lemma undisputed_empty: "mi_due v = [] \<Longrightarrow> undisputed v k m"
  by (simp add: undisputed_def)

lemma greet_socket_run:
  assumes "faults (mi_app v) = []" and "db_ok (db (mi_app v))" and "\<not> mi_greeted v"
    and "greet_socket w n ip (mi_app v) = (r, t)"
  shows "\<exists>hello. r = Inr hello \<and> (mirror_step n c)\<^sup>*\<^sup>* v
    (v\<lparr>mi_wire := mi_wire v @ hello, mi_greeted := True, mi_app := t\<rparr>)"
proof -
  let ?s = "mi_app v"
  obtain r2 s2 where 2: "sql (save_node_seen w n ip) ?s = (r2, s2)" by fastforce
  let ?hello = "[config_sync (node_config n (db ?s))]"
  let ?v1 = "v\<lparr>mi_wire := mi_wire v @ ?hello, mi_greeted := True\<rparr>"
  have r: "r = Inr ?hello" and t: "t = broadcast_dashboard (online_update w n True) s2"
    using assms(1,4) 2 by (simp_all add: greet_socket_def prog_simps)
  have same: "v\<lparr>mi_app := ?s\<rparr> = v" by (cases v) simp
  have 1: "mirror_step n c v ?v1"
    using mirror_step.greet [OF assms(3) fetch_cameras_runs [OF assms(1), of n], of c] same by simp
  have "s2 = ?s\<lparr>db := db s2\<rparr>" using 2 assms(1) by (auto simp: sql_def split: sum.splits)
  moreover have "db_ok (db s2)"
    using keepsD [OF sound.keeps_greet_socket assms(2), of w n ip] assms(4) t by simp
  ultimately have 3: "mirror_step n c ?v1 (?v1\<lparr>mi_app := s2\<rparr>)"
    using mirror_step.statement [of "db s2" ?v1 n c] save_node_seen_cameras [OF 2] by simp
  have 4: "mirror_step n c (?v1\<lparr>mi_app := s2\<rparr>) (?v1\<lparr>mi_app := t\<rparr>)"
    using mirror_step.dashboards [of n c "?v1\<lparr>mi_app := s2\<rparr>"] t by simp
  have "(mirror_step n c)\<^sup>*\<^sup>* v (?v1\<lparr>mi_app := t\<rparr>)"
    using 1 3 4 by (meson r_into_rtranclp rtranclp.rtrancl_into_rtrancl)
  then show ?thesis using r by auto
qed

lemma update_camera_run:
  assumes "faults (mi_app v) = []" and "mi_due v = []"
  shows "(mirror_step n c)\<^sup>*\<^sup>* v (v\<lparr>mi_app := snd (update_camera w me i b (mi_app v))\<rparr>)"
  unfolding update_camera_phases
proof (rule run_commit [OF assms(2)])
  show "mirror_step n c v (v\<lparr>mi_app := t, mi_due := [(k, m)]\<rparr>)"
    if "update_camera_commit w me i b (mi_app v) = (Inr (k, m), t)" for k m t
    using mirror_step.update [OF that undisputed_empty [OF assms(2)]] assms(2) by simp
  show "t = mi_app v" if "update_camera_commit w me i b (mi_app v) = (Inl e, t)" for e t
    using that assms(1)
    by (cases "update_camera_row i (set_camera w b) (db (mi_app v))")
      (auto simp: update_camera_commit_def prog_simps cameras.update_None split: if_splits option.splits)
qed

lemma delete_camera_run:
  assumes "faults (mi_app v) = []" and "mi_due v = []"
  shows "(mirror_step n c)\<^sup>*\<^sup>* v (v\<lparr>mi_app := snd (delete_camera me i (mi_app v))\<rparr>)"
  unfolding delete_camera_phases
proof (rule run_commit [OF assms(2)])
  show "mirror_step n c v (v\<lparr>mi_app := t, mi_due := [(k, m)]\<rparr>)"
    if "delete_camera_commit me i (mi_app v) = (Inr (k, m), t)" for k m t
    using mirror_step.delete [OF that undisputed_empty [OF assms(2)]] assms(2) by simp
  have "delete_where (\<lambda>r. cam_id r = i) cs = cs" if "find (\<lambda>r. cam_id r = i) cs = None" for cs :: "camera list"
    using that by (intro delete_where_none) (auto simp: find_None_iff)
  then show "t = mi_app v" if "delete_camera_commit me i (mi_app v) = (Inl e, t)" for e t
    using that assms(1)
    by (auto simp: delete_camera_commit_def prog_simps delete_pk_def put_defs split: if_splits option.splits)
qed

lemma create_camera_check_same: "faults s = [] \<Longrightarrow> snd (create_camera_check w me b s) = s"
  by (auto simp: create_camera_check_def resolve_node_def check_capacity_def prog_simps
      split: option.split prod.split sum.split)

lemma create_camera_run:
  assumes "faults (mi_app v) = []" and "mi_due v = []"
  shows "(mirror_step n c)\<^sup>*\<^sup>* v (v\<lparr>mi_app := snd (create_camera w me b (mi_app v))\<rparr>)"
proof -
  obtain r where r: "create_camera_check w me b (mi_app v) = (r, mi_app v)"
    using create_camera_check_same [OF assms(1), of w me b] by (metis prod.collapse)
  show ?thesis
  proof (cases r)
    case (Inl e)
    have "v\<lparr>mi_app := mi_app v\<rparr> = v" by (cases v) simp
    with r Inl show ?thesis by (simp add: create_camera_phases andthen_apply)
  next
    case (Inr k')
    have "(mirror_step n c)\<^sup>*\<^sup>* v (v\<lparr>mi_app := snd (andthen (create_camera_commit w b k') send_due (mi_app v))\<rparr>)"
    proof (rule run_commit [OF assms(2)])
      show "mirror_step n c v (v\<lparr>mi_app := t, mi_due := [(k, m)]\<rparr>)"
        if "create_camera_commit w b k' (mi_app v) = (Inr (k, m), t)" for k m t
        using mirror_step.create [OF that undisputed_empty [OF assms(2)]] assms(2) by simp
      show "t = mi_app v" if "create_camera_commit w b k' (mi_app v) = (Inl e, t)" for e t
        using that assms(1) by (auto simp: create_camera_commit_def prog_simps split: sum.splits prod.splits)
    qed
    with r Inr show ?thesis by (simp add: create_camera_phases andthen_apply)
  qed
qed

lemma update_node_status_run:
  assumes "faults (mi_app v) = []" and "mi_due v = []"
  shows "(mirror_step n c)\<^sup>*\<^sup>* v (v\<lparr>mi_app := snd (update_node_status w me k st (mi_app v))\<rparr>)"
proof -
  obtain r t where u: "update_node_status_commit w me k st (mi_app v) = (r, t)" by fastforce
  have 1: "mirror_step n c v (v\<lparr>mi_app := t\<rparr>)" using mirror_step.status [OF u] .
  have f: "faults t = []"
    using u assms(1) by (auto simp: update_node_status_commit_def prog_simps split: if_splits sum.splits
        prod.splits option.splits)
  show ?thesis
  proof (cases "\<exists>x. r = Inr x \<and> node_status x = Approved")
    case True
    let ?m = "config_sync (node_config k (db t))"
    have "mirror_step n c (v\<lparr>mi_app := t\<rparr>) (v\<lparr>mi_app := t, mi_due := [(k, ?m)]\<rparr>)"
      using mirror_step.sync [of k "v\<lparr>mi_app := t\<rparr>"] fetch_sync_runs [OF f] assms(2) by simp
    from converse_rtranclp_into_rtranclp [of "mirror_step n c", OF 1 run_push [OF this assms(2)]] show ?thesis
      using True u fetch_sync_runs [OF f, of k]
      by (auto simp: update_node_status_phases andthen_apply send_due_def)
  next
    case False
    then have "snd (update_node_status w me k st (mi_app v)) = t"
      using u by (cases r) (auto simp: update_node_status_phases andthen_apply)
    with 1 show ?thesis by (simp add: r_into_rtranclp)
  qed
qed

end
