(* ===== verification/ForeignDelete.thy ===== *)
theory ForeignDelete
  imports Mirror
begin

text \<open>
  A chain through three components: the coordinator takes a storage URI from any node for any
  recording, the enforcer sends it to the recording's owner, and the owner deletes the file it
  names.
\<close>

section \<open>What a node deletes\<close>

lemma node_deletes_local:
  assumes "n_io v = []" and "read_file (path_join rec_dir rel) (n_fs v) = Some x"
  shows "node_handle_incoming rec_dir (Some (DeleteRecording q i t (''local://'' @ rel))) v =
    (Inr (), on_fs (unlink (path_join rec_dir rel)) v)"
proof -
  have "strip_prefix ''local://'' (''local://'' @ rel) = Some rel" by (rule strip_prefix_append)
  then show ?thesis
    using assms by (simp add: node_handle_incoming_def andthen_apply remove_file_ok)
qed

text \<open>A URI that is not local is ignored: an object in S3 is never deleted.\<close>

lemma node_ignores_remote:
  "\<not> starts_with ''local://'' uri \<Longrightarrow>
     node_handle_incoming rec_dir (Some (DeleteRecording q i t uri)) v = (Inr (), v)"
  by (simp add: node_handle_incoming_def andthen_apply strip_prefix_def)

lemma path_join_absolute: "starts_with ''/'' rel \<Longrightarrow> path_join dir rel = path_join [] rel"
  by (simp add: path_join_def)

text \<open>
  C17. One node can have another delete a file of the attacker's choice: the coordinator accepts
  \<open>SegmentMigrated\<close> for a recording of another node, so a node can give that recording the URI
  \<open>local://\<close> with an absolute path behind it. When the recording expires, the enforcer queues a
  \<open>DeleteRecording\<close> with this URI for the owner, and the owner, wherever its recordings are,
  deletes that very file, since joining an absolute path discards the recordings directory. No
  other file goes.
\<close>

theorem foreign_node_deletes_file:
  assumes "faults s = []" and "db_ok (db s)" and "channels_apart s"
    and "find (\<lambda>r. rec_key r = k) (recordings (db s)) = Some r" and "online (rec_node_id r) s"
    and "(sm_recording_id p, sm_started_at p) = k" and "sm_storage_uri p = ''local://'' @ target"
    and "handle_incoming w attacker (Some (SegmentMigrated q p)) s = (res, s1)"
    and "\<not> list_ex (out_of_range (db_now w2) (db s1)) (recordings (db s1))"
    and "r\<lparr>rec_storage_uri := sm_storage_uri p\<rparr> \<in> set (expired_batch (db_now w2) (db s1))"
    and "enforcer_pass w2 s1 = (res2, s2)"
    and "starts_with ''/'' target" and "n_io v = []"
    and "read_file (path_join [] target) (n_fs v) = Some x"
  shows "\<exists>m v'. m \<in> set (pending_for (rec_node_id r) s2) \<and>
    node_handle_incoming rec_dir (Some m) v = (Inr (), v') \<and>
    (\<forall>f. read_file f (n_fs v') =
       (if f = path_join [] target then None else read_file f (n_fs v)))"
proof -
  let ?r = "r\<lparr>rec_storage_uri := sm_storage_uri p\<rparr>" and ?m = "DeleteRecording 0 (rec_id r) (rec_started_at r) (''local://'' @ target)"
  have st: "still s s1" using incoming_still [OF assms(1), of "Some (SegmentMigrated q p)" w attacker] assms(8) by simp
  then have s1: "faults s1 = []" "channels_apart s1" "online (rec_node_id r) s1"
    using assms(3,5) by (simp_all add: still_def channels_apart_def online_def split: option.splits)
  have "delete_and_notify (expired_batch (db_now w2) (db s1)) s1 = (res2, s2)"
    using enforcer_pass_runs [OF s1(1) assms(9)] assms(11) by simp
  from delete_and_notify_pending [OF s1(2,3) this]
  have "delete_message ?r \<in> set (pending_for (rec_node_id r) s2)"
    using assms(10) by auto
  then have m: "?m \<in> set (pending_for (rec_node_id r) s2)"
    by (simp add: delete_message_def assms(7))
  have "path_join rec_dir target = path_join [] target" using path_join_absolute [OF assms(12)] .
  with node_deletes_local [OF assms(13), of rec_dir target x] assms(14)
  have "node_handle_incoming rec_dir (Some ?m) v = (Inr (), on_fs (unlink (path_join [] target)) v)" by simp
  with m show ?thesis by (intro exI [of _ ?m] exI [of _ "on_fs (unlink (path_join [] target)) v"]) simp
qed

definition hostile_notice :: segment_migrated_payload where
  "hostile_notice = \<lparr>sm_recording_id = 50, sm_started_at = 0, sm_storage_uri = ''local:///data/note.txt''\<rparr>"

theorem foreign_node_deletes_file_witness:
  "\<exists>s1 s2 m v. handle_incoming sample_ext 99 (Some (SegmentMigrated 1 hostile_notice)) sample_app = (Inr (), s1) \<and>
     enforcer_pass sample_late s1 = (Inr (), s2) \<and> m \<in> set (pending_for 20 s2) \<and>
     node_handle_incoming (recordings_dir sample_config) (Some m) sample_node_app = (Inr (), v) \<and>
     read_file [''data'', ''note.txt''] (n_fs sample_node_app) = Some ''x'' \<and>
     read_file [''data'', ''note.txt''] (n_fs v) = None"
proof -
  let ?r = "sample_recording\<lparr>rec_storage_uri := sm_storage_uri hostile_notice\<rparr>"
  let ?s1 = "sample_app\<lparr>db := sample_db\<lparr>recordings := [?r]\<rparr>\<rparr>"
  have k: "rec_key sample_recording = (50, 0)" by (simp add: rec_key_def sample_recording_def)
  have pol: "policy_exists sample_db (rec_policy_id sample_recording)"
    by (simp add: policy_exists_def sample_recording_def sample_policy_def)
  then have "update_recording (50, 0) (\<lambda>r. r\<lparr>rec_storage_uri := sm_storage_uri hostile_notice\<rparr>) sample_db =
      Inr (Some ?r, sample_db\<lparr>recordings := [?r]\<rparr>)"
    using k by (simp add: update_pk_def recording_check_def put_defs update_where_def delete_where_def)
  then have h: "handle_incoming sample_ext 99 (Some (SegmentMigrated 1 hostile_notice)) sample_app = (Inr (), ?s1)"
    by (simp add: update_segment_uri_def prog_simps hostile_notice_def)
  have keep: "keep_days_of (db ?s1) ?r = keep_days_of sample_db sample_recording"
    by (simp add: keep_days_of_def default_policy_def sample_recording_def)
  have ex: "expired (db_now sample_late) (db ?s1) ?r" "\<not> out_of_range (db_now sample_late) (db ?s1) ?r"
    using sample_late_expired unfolding expired_def out_of_range_def keep
    by (auto split: option.splits)
  then have b: "expired_batch (db_now sample_late) (db ?s1) = [?r]" by (simp add: expired_batch_def)
  obtain res2 s2 where e: "enforcer_pass sample_late ?s1 = (res2, s2)" by fastforce
  have "res2 = Inr ()"
    using e ex(2) by (auto simp: enforcer_pass_runs dest: delete_and_notify_db [rotated])
  moreover have "starts_with ''/'' ''/data/note.txt''" "path_join [] ''/data/note.txt'' = [''data'', ''note.txt'']"
    by (simp_all add: path_join_def)
  moreover have "read_file [''data'', ''note.txt''] (n_fs sample_node_app) = Some ''x''" "n_io sample_node_app = []"
    by (simp_all add: read_file_def sample_node_defs)
  moreover have "find (\<lambda>r. rec_key r = (50, 0)) (recordings (db sample_app)) = Some sample_recording"
    using k by simp
  moreover have "channels_apart sample_app" by (simp add: channels_apart_def)
  moreover have "online (rec_node_id sample_recording) sample_app" "rec_node_id sample_recording = 20"
    by (simp_all add: online_def sample_recording_def)
  moreover have "(sm_recording_id hostile_notice, sm_started_at hostile_notice) = (50, 0)"
    "sm_storage_uri hostile_notice = ''local://'' @ ''/data/note.txt''"
    by (simp_all add: hostile_notice_def)
  ultimately obtain m v where "m \<in> set (pending_for 20 s2)"
    "node_handle_incoming (recordings_dir sample_config) (Some m) sample_node_app = (Inr (), v)"
    "read_file [''data'', ''note.txt''] (n_fs v) = None"
    using foreign_node_deletes_file [where k = "(50, 0)" and r = sample_recording and p = hostile_notice
        and s = sample_app and ?s1.0 = ?s1 and ?s2.0 = s2 and ?w2.0 = sample_late and target = "''/data/note.txt''"
        and v = sample_node_app and x = "''x''" and rec_dir = "recordings_dir sample_config",
        OF _ _ _ _ _ _ _ h _ _ e] b ex(2)
    by auto
  with h e \<open>res2 = Inr ()\<close> \<open>read_file [''data'', ''note.txt''] (n_fs sample_node_app) = Some ''x''\<close>
  show ?thesis by blast
qed

end
