(* ===== verification/Recorder.thy ===== *)
theory Recorder
  imports NodeClient
begin

text \<open>
  From a finished file to an entry of the queue (\<open>node/src/recorder/mod.rs\<close>), and the watchdog
  that frees disk space (\<open>node/src/recorder/watchdog.rs\<close>).
\<close>

section \<open>Finished segments\<close>

text \<open>The kinds of file system events the recorder tells apart.\<close>

datatype fs_event_kind = Access_close_write | Create_file | Other_kind

definition is_segment_complete :: "fs_event_kind \<Rightarrow> bool" where
  "is_segment_complete k \<longleftrightarrow> (case k of Access_close_write \<Rightarrow> True | Create_file \<Rightarrow> True | _ \<Rightarrow> False)"

definition segment_secs :: int where
  "segment_secs = 60"

definition file_size :: "path \<Rightarrow> fs \<Rightarrow> i64" where
  "file_size p f = (case read_file p f of None \<Rightarrow> 0 | Some c \<Rightarrow> of_nat (length c))"

definition handle_segment :: "node_ext \<Rightarrow> path \<Rightarrow> path \<Rightarrow> path \<Rightarrow> unit node_prog" where
  "handle_segment w rec_dir queue p =
     andthen (ok_or Bad_path (strip_dir rec_dir p)) (\<lambda>rel.
     andthen (ok_or Bad_path (fetch_optional rel)) (\<lambda>stream_path.
     andthen (ok_or Bad_name (file_stem p)) (\<lambda>stem.
     andthen (ok_or Bad_timestamp (parse_stamp w stem)) (\<lambda>started_at.
     andthen (gets (\<lambda>s. file_size p (n_fs s))) (\<lambda>size_bytes.
     andthen (gets (\<lambda>s. find (\<lambda>c. ncc_stream_path c = stream_path) (n_cameras s))) (\<lambda>cam.
     case cam of
       None \<Rightarrow> ret ()
     | Some c \<Rightarrow>
         let filename = (case file_name p of None \<Rightarrow> stem | Some n \<Rightarrow> n);
             storage_uri = ''local://'' @ stream_path @ ''/'' @ filename
         in andthen (queue_push w queue
              \<lparr>seg_id = uuid5 w storage_uri, seg_camera_id = ncc_id c,
               seg_stream_path = stream_path, seg_storage_uri = storage_uri,
               seg_started_at = started_at, seg_ended_at = started_at + seconds segment_secs,
               seg_duration_secs = word_of_int segment_secs, seg_size_bytes = size_bytes\<rparr>) (\<lambda>_.
            modify (\<lambda>s. s\<lparr>n_flush := n_flush s + 1\<rparr>))))))))"

text \<open>An event of the watcher: every path with the extension, an error of one stops no other.\<close>

fun handle_paths :: "node_ext \<Rightarrow> path \<Rightarrow> path \<Rightarrow> path list \<Rightarrow> unit node_prog" where
  "handle_paths w rec_dir queue [] = ret ()"
| "handle_paths w rec_dir queue (p # ps) =
     andthen (if extension p = Some ''mp4''
              then andthen (attempt (handle_segment w rec_dir queue p :: unit node_prog)) (\<lambda>_. ret ())
              else ret ()) (\<lambda>_.
     handle_paths w rec_dir queue ps)"

definition recorder_event :: "node_ext \<Rightarrow> path \<Rightarrow> path \<Rightarrow> fs_event_kind \<Rightarrow> path list \<Rightarrow> unit node_prog" where
  "recorder_event w rec_dir queue k ps =
     (if is_segment_complete k then handle_paths w rec_dir queue ps else ret ())"

text \<open>The segment of a file directly in the directory of a stream.\<close>

definition flat_segment :: "node_ext \<Rightarrow> fs \<Rightarrow> node_camera_cfg \<Rightarrow> path \<Rightarrow> string \<Rightarrow> string \<Rightarrow> time \<Rightarrow> segment_payload" where
  "flat_segment w f c rec_dir sp name started =
     \<lparr>seg_id = uuid5 w (''local://'' @ sp @ ''/'' @ name), seg_camera_id = ncc_id c,
      seg_stream_path = sp, seg_storage_uri = ''local://'' @ sp @ ''/'' @ name,
      seg_started_at = started, seg_ended_at = started + seconds 60, seg_duration_secs = 60,
      seg_size_bytes = file_size (rec_dir @ [sp, name]) f\<rparr>"

lemma file_stem_last [simp]: "file_stem (p @ [n]) = Some (fst (split_ext n))"
  by (simp add: file_stem_def file_name_def)

lemma file_stem_last2 [simp]: "file_stem (p @ [d, n]) = Some (fst (split_ext n))"
  using file_stem_last [of "p @ [d]" n] by simp

lemma file_name_last [simp]: "file_name (p @ [n]) = Some n" "file_name (p @ [d, n]) = Some n"
  by (simp_all add: file_name_def)

lemma handle_segment_flat:
  assumes "find (\<lambda>c. ncc_stream_path c = sp) (n_cameras s) = Some c"
    and "parse_stamp w (fst (split_ext name)) = Some started"
  shows "handle_segment w rec_dir queue (rec_dir @ [sp, name]) s =
    andthen (queue_push w queue (flat_segment w (n_fs s) c rec_dir sp name started))
      (\<lambda>_. modify (\<lambda>s. s\<lparr>n_flush := n_flush s + 1\<rparr>)) s"
  using assms by (simp add: handle_segment_def flat_segment_def prog_simps Let_def segment_secs_def)

text \<open>A file whose first component belongs to no camera is passed over.\<close>

lemma handle_segment_unknown:
  assumes "find (\<lambda>c. ncc_stream_path c = sp) (n_cameras s) = None"
    and "parse_stamp w (fst (split_ext (last (sp # rest)))) \<noteq> None"
  shows "handle_segment w rec_dir queue (rec_dir @ sp # rest) s = (Inr (), s)"
  using assms by (auto simp: handle_segment_def prog_simps file_stem_def file_name_def last_append)

end
