(* ===== verification/Backfill.thy ===== *)
theory Backfill
  imports NodeSocket Recorder
begin

text \<open>
  From a closed file on the node to a row of the coordinator: the recorder, the queue, the
  flushes of the socket task and the coordinator's indexing together.
\<close>

section \<open>Runs of the node\<close>

text \<open>
  A segment file of a stream is closed, or the queue is flushed while some of the I/O
  operations fail. Files are written to a local disk that works.
\<close>

datatype backfill_op = Closed string string | Flush "bool list"

fun backfill_step :: "node_ext \<Rightarrow> node_config_env \<Rightarrow> backfill_op \<Rightarrow> node_app \<Rightarrow> node_app" where
  "backfill_step w cfg (Closed sp name) s =
     snd (recorder_event w (recordings_dir cfg) (segment_queue_path cfg) Access_close_write
       [recordings_dir cfg @ [sp, name]] (s\<lparr>n_io := []\<rparr>))"
| "backfill_step w cfg (Flush fails) s =
     snd (flush_queue w (segment_queue_path cfg) (s\<lparr>n_io := fails\<rparr>))"

definition backfill_run :: "node_ext \<Rightarrow> node_config_env \<Rightarrow> backfill_op list \<Rightarrow> node_app \<Rightarrow> node_app" where
  "backfill_run w cfg ops s = fold (backfill_step w cfg) ops s"

text \<open>The segment of a closed file, if it is one of a known camera.\<close>

definition closed_segment ::
  "node_ext \<Rightarrow> node_config_env \<Rightarrow> node_app \<Rightarrow> string \<Rightarrow> string \<Rightarrow> segment_payload option" where
  "closed_segment w cfg s sp name =
     (if snd (split_ext name) = Some ''mp4''
      then Option.bind (find (\<lambda>c. ncc_stream_path c = sp) (n_cameras s)) (\<lambda>c.
           map_option (flat_segment w (n_fs s) c (recordings_dir cfg) sp name)
             (parse_stamp w (fst (split_ext name))))
      else None)"

definition closed_segments ::
  "node_ext \<Rightarrow> node_config_env \<Rightarrow> node_app \<Rightarrow> backfill_op list \<Rightarrow> segment_payload set" where
  "closed_segments w cfg s ops =
     {e. \<exists>sp name. Closed sp name \<in> set ops \<and> closed_segment w cfg s sp name = Some e}"

definition sent_segments :: "ws_message list \<Rightarrow> segment_payload set" where
  "sent_segments ms = {p. \<exists>q. SegmentComplete q p \<in> set ms}"

lemma sent_append [simp]: "sent_segments (xs @ ys) = sent_segments xs \<union> sent_segments ys"
  by (auto simp: sent_segments_def)

lemma sent_Nil [simp]: "sent_segments [] = {}"
  by (simp add: sent_segments_def)

lemma sent_Cons [simp]: "sent_segments (SegmentComplete q p # ms) = insert p (sent_segments ms)"
  by (auto simp: sent_segments_def)

lemma sent_numbered [simp]: "sent_segments (numbered q ps) = set ps"
  by (induction ps arbitrary: q) simp_all

definition only_segments :: "ws_message list \<Rightarrow> bool" where
  "only_segments ms \<longleftrightarrow> (\<forall>m \<in> set ms. \<exists>q p. m = SegmentComplete q p)"

lemma only_numbered [simp]: "only_segments (numbered q ps)"
  by (induction ps arbitrary: q) (auto simp: only_segments_def)

lemma only_append [simp]: "only_segments (xs @ ys) \<longleftrightarrow> only_segments xs \<and> only_segments ys"
  by (auto simp: only_segments_def)

text \<open>
  What a run keeps: the cameras and the segment files, a readable queue, and every entry either
  in the queue or sent.
\<close>

definition backfill_inv ::
  "node_ext \<Rightarrow> path \<Rightarrow> node_app \<Rightarrow> segment_payload set \<Rightarrow> node_app \<Rightarrow> bool" where
  "backfill_inv w qp s0 E s \<longleftrightarrow>
     n_cameras s = n_cameras s0 \<and>
     (\<forall>p. p \<noteq> qp \<longrightarrow> read_file p (n_fs s) = read_file p (n_fs s0)) \<and>
     queue_ok qp (n_fs s) \<and> only_segments (n_sent s) \<and>
     set (queue_entries w qp (n_fs s)) \<union> sent_segments (n_sent s) = E"

lemma queue_path_apart: "recordings_dir cfg @ [sp, name] \<noteq> segment_queue_path cfg"
  by (simp add: recordings_dir_def segment_queue_path_def)

lemma closed_segment_same:
  assumes "backfill_inv w (segment_queue_path cfg) s0 E s"
  shows "closed_segment w cfg s sp name = closed_segment w cfg s0 sp name"
  using assms queue_path_apart [of cfg sp name]
  by (auto simp: closed_segment_def backfill_inv_def flat_segment_def file_size_def [abs_def]
      intro!: Option.bind_cong option.map_cong)

lemma backfill_flush:
  assumes "backfill_inv w qp s0 E s" and "flush_queue w qp (s\<lparr>n_io := fails\<rparr>) = (r, t)"
  shows "backfill_inv w qp s0 E t \<and> (fails = [] \<longrightarrow> queue_entries w qp (n_fs t) = [])"
proof -
  from flush_queue_effect [OF assms(2)] obtain k where
    k: "n_sent t = n_sent s @ numbered (n_seq s) (take k (queue_entries w qp (n_fs s)))"
    "n_fs t = n_fs s \<or> n_fs t = unlink qp (n_fs s) \<and> k = length (queue_entries w qp (n_fs s))"
    "fails = [] \<longrightarrow> queue_entries w qp (n_fs t) = []" by auto
  have "n_cameras t = n_cameras s"
    using assms(2) flush_cameras [of w qp "s\<lparr>n_io := fails\<rparr>"] by simp
  with k assms(1) show ?thesis
    by (auto simp: backfill_inv_def dest: in_set_takeD)
qed

lemma backfill_closed:
  assumes "backfill_inv w (segment_queue_path cfg) s0 E s"
    and "\<And>e. closed_segment w cfg s0 sp name = Some e \<Longrightarrow> storable w e"
  shows "backfill_inv w (segment_queue_path cfg) s0
    (E \<union> set_option (closed_segment w cfg s0 sp name)) (backfill_step w cfg (Closed sp name) s)"
proof -
  let ?qp = "segment_queue_path cfg" and ?dir = "recordings_dir cfg" and ?s = "s\<lparr>n_io := []\<rparr>"
  have inv: "backfill_inv w ?qp s0 E ?s" using assms(1) by (simp add: backfill_inv_def)
  show ?thesis
  proof (cases "closed_segment w cfg s0 sp name")
    case None
    have "snd (handle_segment w ?dir ?qp (?dir @ [sp, name]) ?s) = ?s"
      if "snd (split_ext name) = Some ''mp4''"
    proof -
      from None closed_segment_same [OF assms(1), of sp name]
      have "closed_segment w cfg s sp name = None" by simp
      with that show ?thesis
        by (auto simp: closed_segment_def handle_segment_def prog_simps split: option.splits)
    qed
    with None inv show ?thesis
      by (auto simp: recorder_event_def is_segment_complete_def andthen_apply extension_def)
  next
    case (Some e)
    with closed_segment_same [OF assms(1), of sp name]
    have e: "closed_segment w cfg s sp name = Some e" by simp
    then obtain c st where c: "find (\<lambda>c. ncc_stream_path c = sp) (n_cameras s) = Some c"
      "parse_stamp w (fst (split_ext name)) = Some st" "snd (split_ext name) = Some ''mp4''"
      "e = flat_segment w (n_fs s) c ?dir sp name st"
      by (auto simp: closed_segment_def bind_eq_Some_conv split: if_splits)
    let ?g = "append_file ?qp (seg_json w e @ nl) (utc_now (env w))"
    have step: "backfill_step w cfg (Closed sp name) s =
        (on_fs ?g ?s)\<lparr>n_flush := n_flush s + 1\<rparr>"
      using handle_segment_flat [of sp ?s c w name st ?dir ?qp] c
      by (simp add: recorder_event_def is_segment_complete_def andthen_apply extension_def
          queue_push_ok on_fs_def)
    have "queue_ok ?qp (n_fs s)" using assms(1) by (simp add: backfill_inv_def)
    then have "queue_entries w ?qp (?g (n_fs s)) = queue_entries w ?qp (n_fs s) @ [e]"
      and "queue_ok ?qp (?g (n_fs s))"
      using queue.entries_append [OF _ assms(2) [OF Some]] queue.good_append [OF _ assms(2) [OF Some]]
      by blast+
    moreover have "p \<noteq> ?qp \<Longrightarrow> read_file p (?g (n_fs s)) = read_file p (n_fs s)" for p
      by (simp add: append_file_def)
    ultimately show ?thesis using assms(1) Some unfolding step by (simp add: backfill_inv_def)
  qed
qed

lemma backfill_run_inv:
  assumes "backfill_inv w (segment_queue_path cfg) s0 E s"
    and "\<forall>e \<in> closed_segments w cfg s0 ops. storable w e"
  shows "backfill_inv w (segment_queue_path cfg) s0 (E \<union> closed_segments w cfg s0 ops)
    (backfill_run w cfg ops s)"
  using assms
proof (induction ops arbitrary: s E)
  case Nil
  then show ?case by (simp add: backfill_run_def closed_segments_def)
next
  case (Cons x ops)
  show ?case
  proof (cases x)
    case (Closed sp name)
    have c: "closed_segments w cfg s0 (x # ops) =
        set_option (closed_segment w cfg s0 sp name) \<union> closed_segments w cfg s0 ops"
      by (auto simp: closed_segments_def Closed)
    have "storable w e" if "closed_segment w cfg s0 sp name = Some e" for e
      using that Cons.prems(2) c by simp
    from Cons.IH [OF backfill_closed [OF Cons.prems(1) this]] Cons.prems(2) show ?thesis
      unfolding c by (simp add: backfill_run_def Closed Un_assoc)
  next
    case (Flush fails)
    have "closed_segments w cfg s0 (x # ops) = closed_segments w cfg s0 ops"
      by (auto simp: closed_segments_def Flush)
    moreover have "backfill_inv w (segment_queue_path cfg) s0 E (backfill_step w cfg x s)"
      using backfill_flush [OF Cons.prems(1) prod.collapse [symmetric]] by (simp add: Flush)
    ultimately show ?thesis using Cons.IH Cons.prems(2) by (simp add: backfill_run_def)
  qed
qed

section \<open>Delivery to the coordinator\<close>

definition segment_key :: "segment_payload \<Rightarrow> uuid \<times> time" where
  "segment_key e = (seg_id e, seg_started_at e)"

lemma deliver_segments:
  assumes "only_segments ms" and "faults d = []" and "db_ok (db d)"
  shows "\<exists>d'. deliver (map (\<lambda>m. (x, n, Some m)) ms) d = (Inr (), d') \<and> db_ok (db d') \<and>
    rec_key ` set (recordings (db d')) =
      rec_key ` set (recordings (db d)) \<union> segment_key ` sent_segments ms \<and>
    (\<exists>new. recordings (db d') = recordings (db d) @ new \<and> (\<forall>r \<in> set new. rec_node_id r = n))"
  using assms
proof (induction ms arbitrary: d)
  case Nil
  then show ?case by (simp add: sent_segments_def)
next
  case (Cons m ms)
  from Cons.prems(1) obtain q p where m: "m = SegmentComplete q p" by (auto simp: only_segments_def)
  let ?row = "segment_row n p (segment_policy (seg_camera_id p) (db d))"
  obtain d1 where d1: "handle_incoming x n (Some m) d = (Inr (), d1)" and
    eff: "d1 = (if segment_key p \<in> rec_key ` set (recordings (db d)) then d
      else d\<lparr>db := (db d)\<lparr>recordings := recordings (db d) @ [?row]\<rparr>\<rparr>)"
    using index_segment_runs [OF Cons.prems(2,3), of n p] by (simp add: m segment_key_def)
  have ok: "db_ok (db d1)" "faults d1 = []"
    using keepsD [OF sound.keeps_handle_incoming Cons.prems(3), of x n "Some m"] d1 eff Cons.prems(2)
    by auto
  have row: "rec_key ?row = segment_key p" "rec_node_id ?row = n"
    by (simp_all add: rec_key_def segment_row_def segment_key_def)
  have keys: "rec_key ` set (recordings (db d1)) = insert (segment_key p) (rec_key ` set (recordings (db d)))"
    using row eff by auto
  have new: "\<exists>new. recordings (db d1) = recordings (db d) @ new \<and> (\<forall>r \<in> set new. rec_node_id r = n)"
    using row eff by auto
  have "only_segments ms" using Cons.prems(1) by (simp add: only_segments_def)
  from Cons.IH [OF this ok(2,1)] obtain d' where
    d': "deliver (map (\<lambda>m. (x, n, Some m)) ms) d1 = (Inr (), d')" "db_ok (db d')"
    "rec_key ` set (recordings (db d')) =
      rec_key ` set (recordings (db d1)) \<union> segment_key ` sent_segments ms"
    "\<exists>new. recordings (db d') = recordings (db d1) @ new \<and> (\<forall>r \<in> set new. rec_node_id r = n)" by blast
  from d'(4) new have "\<exists>new. recordings (db d') = recordings (db d) @ new \<and> (\<forall>r \<in> set new. rec_node_id r = n)"
    by (metis (no_types, lifting) Un_iff append.assoc set_append)
  with d1 d' keys show ?case by (simp add: andthen_apply m)
qed

lemma count_key_1:
  assumes "distinct (map k xs)" and "x \<in> k ` set xs"
  shows "length (filter (\<lambda>r. k r = x) xs) = 1"
proof -
  from assms(2) obtain r where "r \<in> set xs" "k r = x" by auto
  with filter_key_single [OF assms(1) this] show ?thesis by simp
qed

text \<open>
  C5. No segment is lost and none is counted twice: let segment files be closed and the queue
  be flushed in any order, with any I/O operation of the flushes failing (a connection that
  breaks in the middle, a queue file that cannot be removed), and let one flush succeed at the
  end. Then the queue is empty, and when the coordinator has handled everything the node has
  sent, every closed segment of a known camera and every entry the queue had before has exactly
  one recording; the recordings there were before are unchanged, and every new one belongs to
  the node and has the key of such a segment.
\<close>

theorem backfill_exactly_once:
  assumes "queue_ok (segment_queue_path cfg) (n_fs s)" and "n_sent s = []"
    and "\<forall>e \<in> closed_segments w cfg s ops. storable w e"
    and "faults d = []" and "db_ok (db d)"
    and "t = backfill_run w cfg (ops @ [Flush []]) s"
    and "E = set (queue_entries w (segment_queue_path cfg) (n_fs s)) \<union> closed_segments w cfg s ops"
  shows "queue_entries w (segment_queue_path cfg) (n_fs t) = [] \<and>
    (\<exists>d' new. deliver (map (\<lambda>m. (x, n, Some m)) (n_sent t)) d = (Inr (), d') \<and>
      (\<forall>e \<in> E. length (filter (\<lambda>r. rec_key r = segment_key e) (recordings (db d'))) = 1) \<and>
      recordings (db d') = recordings (db d) @ new \<and>
      (\<forall>r \<in> set new. rec_node_id r = n \<and> rec_key r \<in> segment_key ` E))"
proof -
  let ?qp = "segment_queue_path cfg"
  have "backfill_inv w ?qp s (set (queue_entries w ?qp (n_fs s))) s"
    using assms(1,2) by (simp add: backfill_inv_def only_segments_def sent_segments_def)
  from backfill_run_inv [OF this assms(3)]
  have r: "backfill_inv w ?qp s E (backfill_run w cfg ops s)" by (simp add: assms(7))
  obtain r u where "flush_queue w ?qp ((backfill_run w cfg ops s)\<lparr>n_io := []\<rparr>) = (r, u)" by fastforce
  with backfill_flush [OF r this] have t: "backfill_inv w ?qp s E t" "queue_entries w ?qp (n_fs t) = []"
    by (simp_all add: assms(6) backfill_run_def)
  then have sent: "only_segments (n_sent t)" "sent_segments (n_sent t) = E"
    by (simp_all add: backfill_inv_def)
  from deliver_segments [OF sent(1) assms(4,5), of x n] obtain d' new where
    d': "deliver (map (\<lambda>m. (x, n, Some m)) (n_sent t)) d = (Inr (), d')" "db_ok (db d')"
    "rec_key ` set (recordings (db d')) = rec_key ` set (recordings (db d)) \<union> segment_key ` E"
    "recordings (db d') = recordings (db d) @ new" "\<forall>r \<in> set new. rec_node_id r = n"
    using sent(2) by blast
  have dist: "distinct (map rec_key (recordings (db d')))"
    using d'(2) recordings.sound_distinct [of "db d'" "recordings (db d')"] by (auto simp: db_ok_def)
  then have "rec_key r \<in> segment_key ` E" if "r \<in> set new" for r
  proof -
    have "rec_key r \<notin> rec_key ` set (recordings (db d))" using dist that by (auto simp: d'(4))
    moreover have "rec_key r \<in> rec_key ` set (recordings (db d'))" using that by (simp add: d'(4))
    ultimately show ?thesis using d'(3) by blast
  qed
  moreover have "length (filter (\<lambda>r. rec_key r = segment_key e) (recordings (db d'))) = 1" if "e \<in> E" for e
    using count_key_1 [OF dist] that d'(3) by auto
  ultimately show ?thesis using d' t(2) by blast
qed

text \<open>A connection that breaks, the file reported twice, an acknowledged flush at the end.\<close>

theorem backfill_exactly_once_witness:
  "\<exists>d'. deliver (map (\<lambda>m. (sample_ext, 20, Some m)) (n_sent (backfill_run sample_node_ext sample_config
       ([Flush [True], Closed ''door'' ''19700101_000100.mp4'', Flush [False, True],
         Closed ''door'' ''19700101_000100.mp4'', Closed ''gate'' ''x.mp4''] @ [Flush []]) sample_node_app)))
       sample_app = (Inr (), d') \<and>
     length (filter (\<lambda>r. rec_key r = (60, seconds 60)) (recordings (db d'))) = 1"
proof -
  let ?ops = "[Flush [True], Closed ''door'' ''19700101_000100.mp4'', Flush [False, True],
         Closed ''door'' ''19700101_000100.mp4'', Closed ''gate'' ''x.mp4'']"
  let ?qp = "segment_queue_path sample_config"
  have 1: "closed_segment sample_node_ext sample_config sample_node_app ''door'' ''19700101_000100.mp4'' =
      Some sample_queued"
    by (simp add: closed_segment_def split_ext_def flat_segment_def file_size_def read_file_def sample_node_defs seconds_def)
  have 2: "closed_segment sample_node_ext sample_config sample_node_app ''gate'' ''x.mp4'' = None"
    by (simp add: closed_segment_def sample_node_defs)
  have c: "closed_segments sample_node_ext sample_config sample_node_app ?ops = {sample_queued}"
    using 1 2 by (auto simp: closed_segments_def)
  have q: "queue_entries sample_node_ext ?qp (n_fs sample_node_app) = []" "queue_ok ?qp (n_fs sample_node_app)"
    by (simp_all add: queue_entries_def queue_ok_def read_file_def sample_node_defs map_filter_def whole_lines_def)
  have s: "storable sample_node_ext sample_queued"
    by (simp add: storable_def sample_node_defs)
  have "n_sent sample_node_app = []" by (simp add: sample_node_defs)
  from backfill_exactly_once [OF q(2) this, of sample_node_ext ?ops sample_app _ "{sample_queued}" sample_ext 20]
  show ?thesis using c q(1) s by (auto simp: segment_key_def sample_queued_def)
qed

section \<open>A segment finished during a flush\<close>

text \<open>
  C18. A segment that is finished while a flush is sending is lost: the flush has read the
  queue, the recorder appends an entry and reports success, and when everything that was read
  has been sent the flush removes the file. The entry is neither in the queue nor sent, although
  nothing failed; only its notification is left, for which the next flush finds nothing.
\<close>

theorem push_during_flush_lost:
  assumes "n_io s = []" and "queue_ok p (n_fs s)" and "storable w e"
    and "queue_read_all w p s = (Inr E, s1)" and "E \<noteq> []" and "e \<notin> set E"
    and "queue_push w p e s1 = (r, s2)" and "flush_entries p E s2 = (r', t)"
  shows "r = Inr () \<and> r' = Inr () \<and> queue_entries w p (n_fs s2) = E @ [e] \<and>
    queue_entries w p (n_fs t) = [] \<and>
    n_sent t = n_sent s @ numbered (n_seq s) E \<and> e \<notin> sent_segments (numbered (n_seq s) E) \<and>
    (\<exists>u. flush_queue w p t = (Inr (), u) \<and> n_sent u = n_sent t)"
proof -
  have s1: "s1 = s" "E = queue_entries w p (n_fs s)"
    using assms(4) queue_read_all_ok [OF assms(1), of w p] by auto
  have s2: "r = Inr ()" "s2 = on_fs (append_file p (seg_json w e @ nl) (utc_now (env w))) s"
    using assms(7) queue_push_ok [OF assms(1), of w p e] by (simp_all add: s1)
  have q: "queue_entries w p (n_fs s2) = E @ [e]"
    using queue.entries_append [OF assms(2,3)] by (simp add: s2 s1)
  obtain r3 s3 where 3: "send_segments E s2 = (r3, s3)" by fastforce
  from send_segments_sent [OF 3] assms(1) have k: "r3 = Inr True" "n_io s3 = []" "n_fs s3 = n_fs s2"
    "n_sent s3 = n_sent s @ numbered (n_seq s) E" by (auto simp: s2)
  with assms(5,8) 3 have t: "r' = Inr ()" "t = on_fs (unlink p) s3"
    using queue_clear_ok [OF k(2), of p] by (simp_all add: flush_entries_def andthen_apply)
  obtain r4 u where 4: "flush_queue w p t = (r4, u)" by fastforce
  from flush_queue_effect [OF 4] k t have "r4 = Inr () \<and> n_sent u = n_sent t" by simp
  with 4 k s2 q t assms(6) show ?thesis by simp
qed

definition second_queued :: segment_payload where
  "second_queued = sample_queued\<lparr>seg_id := 61, seg_storage_uri := ''local://door/y.mp4''\<rparr>"

definition two_segments_ext :: node_ext where
  "two_segments_ext = sample_node_ext\<lparr>seg_parse :=
     map_of [(seg_storage_uri sample_queued, sample_queued), (''local://door/y.mp4'', second_queued)]\<rparr>"

theorem push_during_flush_lost_witness:
  "\<exists>s t. queue_push two_segments_ext [''q''] second_queued s = (Inr (), t) \<and>
     queue_entries two_segments_ext [''q''] (n_fs t) = [sample_queued, second_queued] \<and>
     (\<exists>u. flush_entries [''q''] [sample_queued] t = (Inr (), u) \<and>
       queue_entries two_segments_ext [''q''] (n_fs u) = [] \<and>
       n_sent u = [SegmentComplete 1 sample_queued])"
proof -
  let ?w = two_segments_ext and ?p = "[''q'']"
  let ?g = "append_file ?p (seg_json ?w sample_queued @ nl) (utc_now (env ?w))"
  let ?s = "on_fs ?g sample_node_app"
  have st: "storable ?w sample_queued" "storable ?w second_queued" "second_queued \<notin> set [sample_queued]"
    by (simp_all add: storable_def two_segments_ext_def second_queued_def sample_node_defs)
  have q0: "queue_entries ?w ?p (n_fs sample_node_app) = []" "queue_ok ?p (n_fs sample_node_app)"
    by (simp_all add: queue_entries_def queue_ok_def read_file_def sample_node_defs map_filter_def whole_lines_def)
  have q: "queue_entries ?w ?p (n_fs ?s) = [sample_queued]" "queue_ok ?p (n_fs ?s)"
    using queue.entries_append [OF q0(2) st(1)] queue.good_append [OF q0(2) st(1)] q0(1) by simp_all
  have io: "n_io ?s = []" "n_sent ?s = []" "n_seq ?s = 0" by (simp_all add: sample_node_defs)
  have rd: "queue_read_all ?w ?p ?s = (Inr [sample_queued], ?s)"
    using queue_read_all_ok [OF io(1), of ?w ?p] q(1) by simp
  obtain r t where t: "queue_push ?w ?p second_queued ?s = (r, t)" by fastforce
  obtain r' u where u: "flush_entries ?p [sample_queued] t = (r', u)" by fastforce
  from push_during_flush_lost [OF io(1) q(2) st(2) rd _ st(3) t u] t u io show ?thesis
    by (intro exI [of _ ?s] exI [of _ t]) simp
qed

end
