(* ===== verification/Expiry.thy ===== *)
theory Expiry
  imports ForeignDelete Backfill
begin

text \<open>
  The life of a segment across both programs: the node records and reports it, the coordinator
  indexes it, the retention enforcer deletes the row and the node unlinks the file.
\<close>

section \<open>The path of a reported segment\<close>

text \<open>A component of a path as the file watcher reports it.\<close>

definition plain_name :: "string \<Rightarrow> bool" where
  "plain_name c \<longleftrightarrow> c \<noteq> [] \<and> c \<noteq> ''.'' \<and> c \<noteq> ''..'' \<and> CHR ''/'' \<notin> set c"

lemma path_join_plain:
  assumes "plain_name sp" and "plain_name name"
  shows "path_join dir (sp @ ''/'' @ name) = dir @ [sp, name]"
proof -
  have "\<not> starts_with ''/'' (sp @ ''/'' @ name)"
    using assms(1) by (cases sp) (auto simp: plain_name_def)
  then show ?thesis
    using assms split_slash_append [of sp name] split_slash_plain [of name]
    by (simp add: path_join_def plain_name_def)
qed

text \<open>The URI the recorder builds leads back to the file it was built from.\<close>

lemma closed_segment_uri:
  "closed_segment w cfg s sp name = Some e \<Longrightarrow> seg_storage_uri e = ''local://'' @ sp @ ''/'' @ name"
  by (auto simp: closed_segment_def flat_segment_def bind_eq_Some_conv split: if_splits)

lemma deletes_reported:
  assumes "plain_name sp" and "plain_name name" and "n_io v = []"
  shows "\<exists>v'. node_handle_incoming dir (Some (DeleteRecording q i t (''local://'' @ sp @ ''/'' @ name))) v =
      (Inr (), v') \<and>
    (\<forall>f. read_file f (n_fs v') = (if f = dir @ [sp, name] then None else read_file f (n_fs v)))"
proof -
  have strip: "strip_prefix ''local://'' (''local://'' @ rel) = Some rel" for rel
    by (rule strip_prefix_append)
  let ?f = "dir @ [sp, name]"
  show ?thesis
  proof (cases "read_file ?f (n_fs v)")
    case None
    then have "node_handle_incoming dir (Some (DeleteRecording q i t (''local://'' @ sp @ ''/'' @ name))) v =
        (Inr (), v)"
      unfolding node_handle_incoming_def option.case
      by (simp add: andthen_apply strip [of "sp @ ''/'' @ name", simplified] attempt_def
          path_join_plain [OF assms(1,2), simplified] remove_file_def)
    with None show ?thesis by auto
  next
    case (Some x)
    with node_deletes_local [OF assms(3), of dir "sp @ ''/'' @ name" x] path_join_plain [OF assms(1,2)]
    show ?thesis by (intro exI [of _ "on_fs (unlink ?f) v"]) simp
  qed
qed

section \<open>Messages on the channels\<close>

definition queued :: "ws_message \<Rightarrow> app \<Rightarrow> bool" where
  "queued m s \<longleftrightarrow> (\<exists>c q. node_chans s c = Some q \<and> m \<in> set q)"

lemma queued_push: "queued m (push_to_node n m' s) \<Longrightarrow> m = m' \<and> online n s \<or> queued m s"
  by (auto simp: queued_def push_to_node_def send_def online_def split: option.splits if_splits)

lemma queued_db [simp]: "queued m (s\<lparr>db := d\<rparr>) = queued m s" "queued m (s\<lparr>faults := f\<rparr>) = queued m s"
  by (simp_all add: queued_def)

text \<open>A pass puts on the channels only the notices of its own rows, and only for nodes that are connected.\<close>

lemma delete_and_notify_queued:
  assumes "delete_and_notify rs s = (res, t)" and "queued m t"
  shows "queued m s \<or> (\<exists>r \<in> set rs. m = delete_message r \<and> online (rec_node_id r) s)"
  using assms
proof (induction rs arbitrary: s)
  case Nil
  then show ?case by simp
next
  case (Cons r rs)
  obtain q u where q: "sql (delete_recording (rec_key r)) s = (q, u)" by fastforce
  then have "\<exists>f d. u = s\<lparr>faults := f, db := d\<rparr>"
    by (auto simp: sql_def delete_pk_def split: if_splits) (metis app.surjective app.update_convs(1,2))
  then have u: "queued m u = queued m s" "\<And>n. online n u = online n s" by auto
  let ?s = "push_to_node (rec_node_id r) (delete_message r) u"
  have "delete_and_notify rs ?s = (res, t)"
    using Cons.prems q by (simp add: andthen_apply)
  moreover have "online n ?s \<Longrightarrow> online n u" for n
    by (auto simp: online_def push_to_node_def send_def split: option.splits if_splits)
  ultimately show ?case
    using Cons.IH [of ?s] Cons.prems(2) queued_push [of m "rec_node_id r" "delete_message r" u] u by auto
qed

text \<open>
  C8. Retention reaches the disk of a connected node and no further: let a node report a
  closed segment file, and let the recording indexed for it expire and be in a pass of the
  enforcer. The pass removes the row. If the node is connected, it is sent a notice, and handling
  it unlinks exactly the file the recorder reported and no other. If it is not, nothing that
  names the recording is sent by this pass or by any later one over states without the row:
  no row leads to the file any more, and it stays on the disk until the watchdog needs the space.
\<close>

theorem expired_segment_leaves_disk:
  assumes "closed_segment w cfg v0 sp name = Some e" and "plain_name sp" and "plain_name name"
    and "r = segment_row n e pol" and "n_io v = []"
    and "faults s = []" and "db_ok (db s)" and "channels_apart s"
    and "\<not> list_ex (out_of_range (db_now x) (db s)) (recordings (db s))"
    and "r \<in> set (expired_batch (db_now x) (db s))" and "enforcer_pass x s = (res, t)"
  shows "r \<notin> set (recordings (db t)) \<and>
    (online n s \<longrightarrow> delete_message r \<in> set (pending_for n t) \<and>
      (\<exists>v'. node_handle_incoming (recordings_dir cfg) (Some (delete_message r)) v = (Inr (), v') \<and>
        (\<forall>f. read_file f (n_fs v') =
           (if f = recordings_dir cfg @ [sp, name] then None else read_file f (n_fs v))))) \<and>
    (\<not> online n s \<and> \<not> queued (delete_message r) s \<longrightarrow> \<not> queued (delete_message r) t \<and>
      (\<forall>y s' t' res'. faults s' = [] \<and>
         (\<forall>r' \<in> set (recordings (db s')). rec_key r' \<noteq> rec_key r) \<and>
         \<not> list_ex (out_of_range (db_now y) (db s')) (recordings (db s')) \<and>
         enforcer_pass y s' = (res', t') \<and> \<not> queued (delete_message r) s' \<longrightarrow>
         \<not> queued (delete_message r) t'))"
proof -
  let ?B = "expired_batch (db_now x) (db s)"
  have run: "delete_and_notify ?B s = (res, t)" using assms(11) enforcer_pass_runs [OF assms(6,9)] by simp
  have r: "rec_node_id r = n" "rec_storage_uri r = ''local://'' @ sp @ ''/'' @ name"
    using closed_segment_uri [OF assms(1)] by (simp_all add: assms(4) segment_row_def)
  have key: "delete_message r' = delete_message r \<Longrightarrow> rec_key r' = rec_key r" for r'
    by (simp add: delete_message_def rec_key_def)
  have gone: "r \<notin> set (recordings (db t))"
    using delete_and_notify_db [OF assms(6) run] assms(10) by (auto simp: delete_where_def)
  have pend: "delete_message r \<in> set (pending_for n t)" if "online n s"
    using delete_and_notify_pending [OF assms(8) that run] assms(10) r(1) by auto
  have unl: "\<exists>v'. node_handle_incoming (recordings_dir cfg) (Some (delete_message r)) v = (Inr (), v') \<and>
      (\<forall>f. read_file f (n_fs v') =
         (if f = recordings_dir cfg @ [sp, name] then None else read_file f (n_fs v)))"
    using deletes_reported [OF assms(2,3,5)] by (simp only: delete_message_def r(2))
  have distinct: "distinct (map rec_key (recordings (db s)))"
    using assms(7) recordings.sound_distinct [of "db s" "recordings (db s)"] by (auto simp: db_ok_def)
  have same: "r' = r" if "r' \<in> set ?B" "delete_message r' = delete_message r" for r'
    using that(1) assms(10) key [OF that(2)] distinct expired_batch_in
    by (metis (no_types, lifting) distinct_map inj_onD)
  have silent: "\<not> queued (delete_message r) t" if "\<not> online n s" "\<not> queued (delete_message r) s"
    using delete_and_notify_queued [OF run, of "delete_message r"] that same r(1) by metis
  have later: "\<not> queued (delete_message r) t'"
    if "faults s' = []" "\<forall>r' \<in> set (recordings (db s')). rec_key r' \<noteq> rec_key r"
      "\<not> list_ex (out_of_range (db_now y) (db s')) (recordings (db s'))"
      "enforcer_pass y s' = (res', t')" "\<not> queued (delete_message r) s'" for y s' t' res'
  proof
    note given = that
    assume "queued (delete_message r) t'"
    moreover have "delete_and_notify (expired_batch (db_now y) (db s')) s' = (res', t')"
      using given(4) enforcer_pass_runs [OF given(1,3)] by simp
    ultimately obtain r' where "r' \<in> set (expired_batch (db_now y) (db s'))" "delete_message r = delete_message r'"
      using delete_and_notify_queued given(5) by blast
    then show False using key [of r'] expired_batch_in [of r'] given(2) by metis
  qed
  from gone pend unl silent later show ?thesis by blast
qed

text \<open>The segment of the sample node a month later, once connected and once not.\<close>

definition month_old :: recording where
  "month_old = segment_row 20 sample_queued (Some 40)"

definition month_app :: "(uuid \<times> nat) list \<Rightarrow> app" where
  "month_app txs = (new_app (sample_db\<lparr>recordings := [month_old]\<rparr>) ''secret'')
     \<lparr>node_txs := txs, node_chans := (\<lambda>_. None)(7 := Some [])\<rparr>"

lemma month_app_simps [simp]:
  "faults (month_app txs) = []" "db (month_app txs) = sample_db\<lparr>recordings := [month_old]\<rparr>"
  "node_txs (month_app txs) = txs" "node_chans (month_app txs) = (\<lambda>_. None)(7 := Some [])"
  by (simp_all add: month_app_def new_app_def)

lemma month_old_expired:
  "db_ok (db (month_app txs))"
  "\<not> list_ex (out_of_range (db_now sample_late) (db (month_app txs))) (recordings (db (month_app txs)))"
  "expired_batch (db_now sample_late) (db (month_app txs)) = [month_old]"
proof -
  show "db_ok (db (month_app txs))"
    by (simp add: month_old_def segment_row_def sample_queued_def sample_defs db_ok_def sound_rows_def
        ok_defs clash_defs policy_exists_def)
  have "expired (db_now sample_late) (db (month_app txs)) month_old"
    "\<not> out_of_range (db_now sample_late) (db (month_app txs)) month_old"
    by (simp_all add: expired_def out_of_range_def keep_days_of_def month_old_def segment_row_def
        sample_queued_def sample_policy_def minus_days_def pg_min_timestamp_def sample_late_def
        days_def seconds_def)
  then show "\<not> list_ex (out_of_range (db_now sample_late) (db (month_app txs))) (recordings (db (month_app txs)))"
    "expired_batch (db_now sample_late) (db (month_app txs)) = [month_old]"
    by (simp_all add: expired_batch_def)
qed

theorem expired_segment_leaves_disk_witness:
  "\<exists>t v u. enforcer_pass sample_late (month_app [(20, 7)]) = (Inr (), t) \<and> month_old \<notin> set (recordings (db t)) \<and>
     delete_message month_old \<in> set (pending_for 20 t) \<and>
     node_handle_incoming (recordings_dir sample_config) (Some (delete_message month_old)) sample_node_app =
       (Inr (), v) \<and>
     read_file sample_old_path (n_fs v) = None \<and> read_file sample_new_path (n_fs v) = Some ''new'' \<and>
     enforcer_pass sample_late (month_app []) = (Inr (), u) \<and> \<not> queued (delete_message month_old) u"
proof -
  let ?dir = "recordings_dir sample_config" and ?name = "''19700101_000100.mp4''"
  have c: "closed_segment sample_node_ext sample_config sample_node_app ''door'' ?name = Some sample_queued"
    by (simp add: closed_segment_def split_ext_def flat_segment_def file_size_def read_file_def sample_node_defs seconds_def)
  have p: "plain_name ''door''" "plain_name ?name" "n_io sample_node_app = []"
    by (simp_all add: plain_name_def sample_node_defs)
  have path: "sample_old_path = ?dir @ [''door'', ?name]" "sample_new_path \<noteq> sample_old_path"
    "read_file sample_new_path (n_fs sample_node_app) = Some ''new''"
    by (simp_all add: read_file_def sample_node_defs)
  have on: "online 20 (month_app [(20, 7)])" "\<not> online 20 (month_app [])"
    "\<not> queued (delete_message month_old) (month_app [])"
    by (simp_all add: online_def queued_def)
  have apart: "channels_apart (month_app txs)" if "length txs \<le> 1" for txs
    using that by (cases txs) (simp_all add: channels_apart_def)
  have run: "fst (enforcer_pass sample_late (month_app txs)) = Inr ()" for txs
  proof -
    obtain res t where "enforcer_pass sample_late (month_app txs) = (res, t)" by fastforce
    then show ?thesis
      using enforcer_pass_runs [OF _ month_old_expired(2)] delete_and_notify_db [of "month_app txs"] by auto
  qed
  note fact = expired_segment_leaves_disk [OF c p(1,2) month_old_def p(3) _ month_old_expired(1) apart month_old_expired(2)]
  obtain t where t: "enforcer_pass sample_late (month_app [(20, 7)]) = (Inr (), t)"
    using run [of "[(20, 7)]"] by (metis prod.collapse)
  obtain u where u: "enforcer_pass sample_late (month_app []) = (Inr (), u)"
    using run [of "[]"] by (metis prod.collapse)
  have in_batch: "month_old \<in> set (expired_batch (db_now sample_late) (db (month_app txs)))" for txs
    unfolding month_old_expired(3) by simp
  note f1 = fact [OF month_app_simps(1) _ in_batch t, simplified]
  have gone: "month_old \<notin> set (recordings (db t))" "delete_message month_old \<in> set (pending_for 20 t)"
    using f1 on(1) by simp_all
  obtain v where v: "node_handle_incoming ?dir (Some (delete_message month_old)) sample_node_app = (Inr (), v)"
    "\<forall>f. read_file f (n_fs v) =
       (if f = ?dir @ [''door'', ?name] then None else read_file f (n_fs sample_node_app))"
    using f1 on(1) by auto
  have "read_file sample_old_path (n_fs v) = None" "read_file sample_new_path (n_fs v) = Some ''new''"
    using v(2) path by simp_all
  moreover have "\<not> queued (delete_message month_old) u"
    using fact [OF month_app_simps(1) _ in_batch u] on(2,3) by simp
  ultimately show ?thesis using t u v(1) gone by blast
qed

end
