(* ===== verification/Watchdog.thy ===== *)
theory Watchdog
  imports Recorder "HOL-Library.Multiset"
begin

text \<open>
  The disk watchdog (\<open>node/src/recorder/watchdog.rs\<close>): above 85 percent usage it deletes the
  oldest segments until 75 percent is reached. Percentages, \<open>f64\<close> in the source, are rationals.
\<close>

section \<open>Definitions\<close>

definition high_watermark :: rat where
  "high_watermark = 85"

definition low_watermark :: rat where
  "low_watermark = 75"

text \<open>The disk with the longest mount point above the directory; of equals \<open>max_by_key\<close> takes the last.\<close>

definition disk_usage_pct :: "node_ext \<Rightarrow> path \<Rightarrow> fs \<Rightarrow> rat" where
  "disk_usage_pct w p f =
     (case first_min (\<lambda>(m, _). - int (length m))
             (rev (filter (\<lambda>(m, _). take (length m) p = m) (disks w f))) of
        None \<Rightarrow> 0
      | Some (_, tot, avail) \<Rightarrow>
          if tot = 0 then 0 else (1 - of_nat avail / of_nat tot) * 100)"

text \<open>The walk over the recordings, with the segments' modification times.\<close>

definition mp4_files :: "path \<Rightarrow> fs \<Rightarrow> (path \<times> int) list" where
  "mp4_files dir f =
     map (\<lambda>(p, x). (p, mtime x))
       (filter (\<lambda>(p, _). strip_dir dir p \<noteq> None \<and> extension p = Some ''mp4'') (fs_files f))"

text \<open>The empty directories above a deleted file.\<close>

definition prune :: "path \<Rightarrow> unit node_prog" where
  "prune p =
     (case parent p of
        None \<Rightarrow> ret ()
      | Some d \<Rightarrow>
          andthen (attempt (remove_dir d)) (\<lambda>_.
          case parent d of
            None \<Rightarrow> ret ()
          | Some g \<Rightarrow> andthen (attempt (remove_dir g)) (\<lambda>_. ret ())))"

fun cull_loop :: "node_ext \<Rightarrow> path \<Rightarrow> rat \<Rightarrow> path list \<Rightarrow> unit node_prog" where
  "cull_loop w dir target [] = ret ()"
| "cull_loop w dir target (p # ps) =
     andthen (gets (\<lambda>s. disk_usage_pct w dir (n_fs s))) (\<lambda>pct.
     if pct \<le> target then ret ()
     else andthen (attempt (remove_file p)) (\<lambda>r.
          case r of
            Inl _ \<Rightarrow> cull_loop w dir target ps
          | Inr _ \<Rightarrow> andthen (prune p) (\<lambda>_. cull_loop w dir target ps)))"

definition cull_until :: "node_ext \<Rightarrow> path \<Rightarrow> rat \<Rightarrow> unit node_prog" where
  "cull_until w dir target =
     andthen (gets (\<lambda>s. map fst (sort_key snd (mp4_files dir (n_fs s))))) (\<lambda>files.
     cull_loop w dir target files)"

definition watchdog_tick :: "node_ext \<Rightarrow> path \<Rightarrow> unit node_prog" where
  "watchdog_tick w dir =
     andthen (gets (\<lambda>s. disk_usage_pct w dir (n_fs s))) (\<lambda>pct.
     if high_watermark < pct then cull_until w dir low_watermark else ret ())"

text \<open>
  The watchdog's turn in the configured node. The directory is compared as it was given, so the
  mount points, which are absolute, match a relative one nowhere: the disks are as good as absent.
\<close>

definition watchdog_turn :: "node_ext \<Rightarrow> node_config_env \<Rightarrow> unit node_prog" where
  "watchdog_turn w cfg =
     watchdog_tick (if data_dir_rooted cfg then w else w\<lparr>disks := \<lambda>_. []\<rparr>) (recordings_dir cfg)"

lemma disk_usage_no_disks: "disk_usage_pct (w\<lparr>disks := \<lambda>_. []\<rparr>) p f = 0"
  by (simp add: disk_usage_pct_def)

lemma relative_data_dir_no_watchdog: "\<not> data_dir_rooted cfg \<Longrightarrow> watchdog_turn w cfg s = (Inr (), s)"
  by (simp add: watchdog_turn_def watchdog_tick_def disk_usage_no_disks andthen_apply high_watermark_def)

section \<open>What is deleted\<close>

text \<open>The effect of one round on the files.\<close>

definition prune_dirs :: "path \<Rightarrow> fs \<Rightarrow> fs" where
  "prune_dirs p f =
     (case parent p of
        None \<Rightarrow> f
      | Some d \<Rightarrow> (case parent d of None \<Rightarrow> rmdir d f | Some g \<Rightarrow> rmdir g (rmdir d f)))"

definition drop_segment :: "path \<Rightarrow> fs \<Rightarrow> fs" where
  "drop_segment p f = prune_dirs p (unlink p f)"

lemma prune_ok: "n_io s = [] \<Longrightarrow> prune p s = (Inr (), on_fs (prune_dirs p) s)"
  by (auto simp: prune_def prune_dirs_def remove_dir_def andthen_apply io_ok on_fs_def
      split: option.split)

lemma read_prune_dirs [simp]: "read_file q (prune_dirs p f) = read_file q f"
  by (simp add: prune_dirs_def split: option.split)

lemma read_drop_segment [simp]:
  "read_file q (drop_segment p f) = (if q = p then None else read_file q f)"
  by (simp add: drop_segment_def)

lemma read_drop_segments:
  "read_file q (fold drop_segment ps f) = (if q \<in> set ps then None else read_file q f)"
  by (induction ps arbitrary: f) auto

lemma cull_loop_ok:
  assumes "n_io s = []" and "distinct ps" and "\<forall>p \<in> set ps. read_file p (n_fs s) \<noteq> None"
    and "cull_loop w dir target ps s = (r, t)"
  shows "r = Inr () \<and> (\<exists>k \<le> length ps. n_fs t = fold drop_segment (take k ps) (n_fs s) \<and>
    (\<forall>j < k. target < disk_usage_pct w dir (fold drop_segment (take j ps) (n_fs s))) \<and>
    (disk_usage_pct w dir (n_fs t) \<le> target \<or> k = length ps))"
  using assms
proof (induction ps arbitrary: s)
  case Nil
  then show ?case by auto
next
  case (Cons p ps)
  show ?case
  proof (cases "disk_usage_pct w dir (n_fs s) \<le> target")
    case True
    with Cons.prems(4) show ?thesis by (auto simp: andthen_apply)
  next
    case False
    let ?s = "on_fs (drop_segment p) s"
    from Cons.prems(3) obtain x where "read_file p (n_fs s) = Some x" by auto
    then have rm: "remove_file p s = (Inr (), on_fs (unlink p) s)"
      by (rule remove_file_ok [OF Cons.prems(1)])
    have "prune p (on_fs (unlink p) s) = (Inr (), ?s)"
      using prune_ok [of "on_fs (unlink p) s" p] Cons.prems(1) by (simp add: on_fs_def drop_segment_def)
    with rm False Cons.prems(4) have "cull_loop w dir target ps ?s = (r, t)"
      by (simp add: andthen_apply)
    moreover have "n_io ?s = []" "distinct ps" "\<forall>q \<in> set ps. read_file q (n_fs ?s) \<noteq> None"
      using Cons.prems by auto
    ultimately obtain k where "r = Inr ()" "k \<le> length ps"
      "n_fs t = fold drop_segment (take k ps) (drop_segment p (n_fs s))"
      "\<forall>j < k. target < disk_usage_pct w dir (fold drop_segment (take j ps) (drop_segment p (n_fs s)))"
      "disk_usage_pct w dir (n_fs t) \<le> target \<or> k = length ps"
      using Cons.IH [of ?s] by auto
    with False show ?thesis
      by (intro conjI exI [of _ "Suc k"]) (auto simp: less_Suc_eq_0_disj)
  qed
qed

lemma sort_key_take_drop:
  assumes "a \<in> set (take k (sort_key g xs))" and "b \<in> set (drop k (sort_key g xs))"
  shows "g a \<le> g b"
proof -
  have "sorted (map g (take k (sort_key g xs) @ drop k (sort_key g xs)))"
    unfolding append_take_drop_id by (rule sorted_sort_key)
  with assms show ?thesis by (auto simp only: map_append sorted_append set_map)
qed

lemma mp4_file_exists: "p \<in> fst ` set (mp4_files dir f) \<Longrightarrow> read_file p f \<noteq> None"
proof -
  assume "p \<in> fst ` set (mp4_files dir f)"
  then obtain x where "(p, x) \<in> set (fs_files f)" by (auto simp: mp4_files_def)
  then have "map_of (fs_files f) p \<noteq> None" by (simp add: map_of_eq_None_iff rev_image_eqI)
  then show "read_file p f \<noteq> None" by (simp add: read_file_def)
qed

lemma distinct_mp4: "distinct (map fst (fs_files f)) \<Longrightarrow> distinct (map fst (mp4_files dir f))"
  by (simp add: mp4_files_def comp_def case_prod_beta distinct_map_filter)

text \<open>
  C10. The watchdog always finishes, and frees space by age: at or below 85 percent it changes
  nothing; above, it deletes the first \<open>k\<close> segments in the order of their modification times,
  so no deleted one is younger than one that is left, it had more than 75 percent in use before
  each deletion, and it ends with at most 75 percent in use or with no segment left. No other
  file is touched. (No deletion fails here.)
\<close>

theorem watchdog_culls_oldest:
  assumes "n_io s = []" and "distinct (map fst (fs_files (n_fs s)))"
    and "watchdog_tick w dir s = (r, t)"
  shows "r = Inr () \<and>
    (disk_usage_pct w dir (n_fs s) \<le> 85 \<longrightarrow> t = s) \<and>
    (85 < disk_usage_pct w dir (n_fs s) \<longrightarrow>
      (\<exists>k. let files = sort_key snd (mp4_files dir (n_fs s)) in
        n_fs t = fold drop_segment (map fst (take k files)) (n_fs s) \<and>
        (\<forall>x \<in> set (take k files). \<forall>y \<in> set (drop k files). snd x \<le> snd y) \<and>
        (\<forall>p. read_file p (n_fs t) =
           (if p \<in> fst ` set (take k files) then None else read_file p (n_fs s))) \<and>
        (\<forall>j < k. 75 < disk_usage_pct w dir (fold drop_segment (map fst (take j files)) (n_fs s))) \<and>
        (disk_usage_pct w dir (n_fs t) \<le> 75 \<or> take k files = files)))"
proof -
  let ?u = "disk_usage_pct w dir (n_fs s)" and ?F = "sort_key snd (mp4_files dir (n_fs s))"
  have le: "?u \<le> 85 \<Longrightarrow> r = Inr () \<and> t = s"
    using assms(3) by (simp add: watchdog_tick_def andthen_apply high_watermark_def)
  have "r = Inr () \<and> (\<exists>k \<le> length (map fst ?F).
      n_fs t = fold drop_segment (take k (map fst ?F)) (n_fs s) \<and>
      (\<forall>j < k. 75 < disk_usage_pct w dir (fold drop_segment (take j (map fst ?F)) (n_fs s))) \<and>
      (disk_usage_pct w dir (n_fs t) \<le> 75 \<or> k = length (map fst ?F)))" if "85 < ?u"
  proof (rule cull_loop_ok [OF assms(1)])
    have "mset (map fst ?F) = mset (map fst (mp4_files dir (n_fs s)))" by simp
    then show "distinct (map fst ?F)" using distinct_mp4 [OF assms(2)] by (metis distinct_count_atmost_1 mset_eq_imp_distinct_iff)
    show "\<forall>p \<in> set (map fst ?F). read_file p (n_fs s) \<noteq> None"
      using mp4_file_exists by auto
    show "cull_loop w dir 75 (map fst ?F) s = (r, t)"
      using assms(3) that
      by (simp add: watchdog_tick_def andthen_apply high_watermark_def low_watermark_def cull_until_def)
  qed
  then have gt: "r = Inr () \<and> (\<exists>k \<le> length ?F. n_fs t = fold drop_segment (map fst (take k ?F)) (n_fs s) \<and>
      (\<forall>j < k. 75 < disk_usage_pct w dir (fold drop_segment (map fst (take j ?F)) (n_fs s))) \<and>
      (disk_usage_pct w dir (n_fs t) \<le> 75 \<or> k = length ?F))" if "85 < ?u"
    using that by (simp add: take_map)
  have "\<exists>k. let files = ?F in n_fs t = fold drop_segment (map fst (take k files)) (n_fs s) \<and>
        (\<forall>x \<in> set (take k files). \<forall>y \<in> set (drop k files). snd x \<le> snd y) \<and>
        (\<forall>p. read_file p (n_fs t) =
           (if p \<in> fst ` set (take k files) then None else read_file p (n_fs s))) \<and>
        (\<forall>j < k. 75 < disk_usage_pct w dir (fold drop_segment (map fst (take j files)) (n_fs s))) \<and>
        (disk_usage_pct w dir (n_fs t) \<le> 75 \<or> take k files = files)" if big: "85 < ?u"
  proof -
    from gt [OF big] obtain k where k: "n_fs t = fold drop_segment (map fst (take k ?F)) (n_fs s)"
      "\<forall>j < k. 75 < disk_usage_pct w dir (fold drop_segment (map fst (take j ?F)) (n_fs s))"
      "disk_usage_pct w dir (n_fs t) \<le> 75 \<or> k = length ?F" by blast
    have "read_file p (n_fs t) = (if p \<in> fst ` set (take k ?F) then None else read_file p (n_fs s))" for p
      unfolding k(1) read_drop_segments by simp
    moreover have "snd x \<le> snd y" if "x \<in> set (take k ?F)" "y \<in> set (drop k ?F)" for x y
      using sort_key_take_drop [OF that] .
    moreover have "k = length ?F \<Longrightarrow> take k ?F = ?F" by simp
    ultimately show ?thesis using k unfolding Let_def by (intro exI [of _ k]) blast
  qed
  with le gt show ?thesis by fastforce
qed

theorem watchdog_culls_oldest_witness:
  "\<exists>t. watchdog_tick sample_node_ext (recordings_dir sample_config) sample_node_app = (Inr (), t) \<and>
     85 < disk_usage_pct sample_node_ext (recordings_dir sample_config) (n_fs sample_node_app) \<and>
     read_file sample_old_path (n_fs t) = None \<and> read_file sample_new_path (n_fs t) = Some ''new''"
proof -
  let ?dir = "recordings_dir sample_config" and ?f = "n_fs sample_node_app"
  obtain r t where t: "watchdog_tick sample_node_ext ?dir sample_node_app = (r, t)" by fastforce
  have files: "mp4_files ?dir ?f = [(sample_new_path, 120), (sample_old_path, 60)]"
    by (simp add: mp4_files_def sample_node_defs strip_dir_def extension_def file_name_def split_ext_def)
  then have sorted: "sort_key snd (mp4_files ?dir ?f) = [(sample_old_path, 60), (sample_new_path, 120)]"
    by simp
  have pct: "disk_usage_pct sample_node_ext ?dir ?f = 90"
    "disk_usage_pct sample_node_ext ?dir (drop_segment sample_old_path ?f) = 60"
    by (simp_all add: disk_usage_pct_def sample_node_defs drop_segment_def prune_dirs_def parent_def
        unlink_def rmdir_def)
  have "distinct (map fst (fs_files ?f))" "n_io sample_node_app = []"
    by (simp_all add: sample_node_defs)
  note W = watchdog_culls_oldest [OF this(2,1) t, unfolded Let_def sorted]
  have "85 < disk_usage_pct sample_node_ext ?dir ?f" by (simp add: pct)
  with W obtain k where k: "n_fs t = fold drop_segment (map fst (take k [(sample_old_path, 60), (sample_new_path, 120 :: int)])) ?f"
    "\<forall>p. read_file p (n_fs t) = (if p \<in> fst ` set (take k [(sample_old_path, 60), (sample_new_path, 120 :: int)])
        then None else read_file p ?f)"
    "\<forall>j < k. 75 < disk_usage_pct sample_node_ext ?dir
        (fold drop_segment (map fst (take j [(sample_old_path, 60), (sample_new_path, 120 :: int)])) ?f)"
    "disk_usage_pct sample_node_ext ?dir (n_fs t) \<le> 75 \<or>
       take k [(sample_old_path, 60), (sample_new_path, 120 :: int)] = [(sample_old_path, 60), (sample_new_path, 120)]"
    by blast
  have "\<not> 1 < k" using k(3) pct(2) by auto
  moreover have "k \<noteq> 0" using k(1,4) pct(1) by (intro notI) simp
  ultimately have "k = 1" by simp
  have "read_file sample_new_path ?f = Some ''new''" "sample_new_path \<noteq> sample_old_path"
    by (simp_all add: sample_node_defs read_file_def)
  with k(2) \<open>k = 1\<close> have "read_file sample_old_path (n_fs t) = None"
    "read_file sample_new_path (n_fs t) = Some ''new''" by simp_all
  moreover from W have "r = Inr ()" by blast
  ultimately show ?thesis using t pct(1) by simp
qed

end
