(* ===== verification/NodePlayback.thy ===== *)
theory NodePlayback
  imports Watchdog
begin

text \<open>
  Clip export on the node (\<open>node/src/playback.rs\<close>): the segments of a time range, and the list
  file that FFmpeg concatenates. The serving of single segments is the \<open>ServeDir\<close> of a crate.
\<close>

section \<open>Segments of a range\<close>

text \<open>
  \<open>WalkDir\<close> with \<open>max_depth(1)\<close> yields the entry itself and its children; a segment lasts 60
  seconds and overlaps the range when it starts before its end and ends after its start.
\<close>

definition range_entry :: "node_ext \<Rightarrow> path \<Rightarrow> time \<Rightarrow> time \<Rightarrow> path \<Rightarrow> (path \<times> time) option" where
  "range_entry w dir from_t to_t p =
     (if (p = dir \<or> parent p = Some dir) \<and> extension p = Some ''mp4'' then
        Option.bind (Option.bind (file_stem p) (parse_stamp w)) (\<lambda>started.
        if started < to_t \<and> from_t < started + seconds 60 then Some (p, started) else None)
      else None)"

definition segments_in_range :: "node_ext \<Rightarrow> path \<Rightarrow> time \<Rightarrow> time \<Rightarrow> fs \<Rightarrow> path list" where
  "segments_in_range w dir from_t to_t f =
     map fst (sort_key snd
       (List.map_filter (range_entry w dir from_t to_t) (map fst (fs_files f))))"

text \<open>The list file: every path in single quotes, a quote in it closed, escaped and opened again.\<close>

definition quote_char :: char where
  "quote_char = CHR 0x27"

definition list_line :: "path \<Rightarrow> string" where
  "list_line p =
     ''file '' @ [quote_char] @
     replace_char quote_char [quote_char, CHR 0x5C, quote_char, quote_char] (show_path p) @
     [quote_char] @ nl"

definition list_content :: "path list \<Rightarrow> string" where
  "list_content ps = concat (map list_line ps)"

section \<open>Export\<close>

datatype export_answer =
    Export_none
  | Export_error
  | Export_stream "string list"

record export_params =
  ex_stream_path :: string
  ex_from :: time
  ex_to :: time

definition ffmpeg_args :: "string \<Rightarrow> string list" where
  "ffmpeg_args list_path =
     [''-f'', ''concat'', ''-safe'', ''0'', ''-i'', list_path, ''-c'', ''copy'',
      ''-movflags'', ''frag_keyframe+empty_moov'', ''-f'', ''mp4'', ''pipe:1'']"

text \<open>
  \<open>list_path\<close> is the fresh name in the temporary directory; writing it and starting FFmpeg are
  the operations that can fail. The list file is removed when FFmpeg has ended, after the
  answer.
\<close>

definition node_export_clip :: "node_ext \<Rightarrow> path \<Rightarrow> path \<Rightarrow> export_params \<Rightarrow> export_answer node_prog" where
  "node_export_clip w rec_dir list_path params =
     andthen (gets (\<lambda>s. segments_in_range w (path_join rec_dir (ex_stream_path params))
       (ex_from params) (ex_to params) (n_fs s))) (\<lambda>files.
     if files = [] then ret Export_none
     else
       andthen (attempt (io (on_fs (put_file list_path
         \<lparr>content = list_content files, mtime = utc_now (env w)\<rparr>)))) (\<lambda>r.
       case r of
         Inl _ \<Rightarrow> ret Export_error
       | Inr _ \<Rightarrow>
           andthen (attempt (io (\<lambda>s. s))) (\<lambda>spawned.
           case spawned of
             Inl _ \<Rightarrow> ret Export_error
           | Inr _ \<Rightarrow> ret (Export_stream (ffmpeg_args (show_path list_path))))))"

section \<open>What is exported\<close>

lemma range_entry_Some:
  "range_entry w dir a b p = Some x \<longleftrightarrow>
     (p = dir \<or> parent p = Some dir) \<and> extension p = Some ''mp4'' \<and>
     (\<exists>t. Option.bind (file_stem p) (parse_stamp w) = Some t \<and> t < b \<and> a < t + seconds 60 \<and> x = (p, t))"
  by (auto simp: range_entry_def bind_eq_Some_conv)

lemma set_map_filter: "set (List.map_filter g xs) = {y. \<exists>x \<in> set xs. g x = Some y}"
  by (force simp: List.map_filter_def)

lemma fst_image_iff: "p \<in> fst ` S \<longleftrightarrow> (\<exists>t. (p, t) \<in> S)"
  by force

lemma segments_in_range_set:
  "p \<in> set (segments_in_range w dir a b f) \<longleftrightarrow>
     p \<in> fst ` set (fs_files f) \<and> (p = dir \<or> parent p = Some dir) \<and> extension p = Some ''mp4'' \<and>
     (\<exists>t. Option.bind (file_stem p) (parse_stamp w) = Some t \<and> t < b \<and> a < t + seconds 60)"
proof -
  have "p \<in> set (segments_in_range w dir a b f) \<longleftrightarrow>
      (\<exists>t. \<exists>q \<in> fst ` set (fs_files f). range_entry w dir a b q = Some (p, t))"
    unfolding segments_in_range_def by (simp add: fst_image_iff set_map_filter)
  then show ?thesis unfolding range_entry_Some by blast
qed

text \<open>In the order of their starts.\<close>

definition start_of :: "node_ext \<Rightarrow> path \<Rightarrow> time" where
  "start_of w p = (case Option.bind (file_stem p) (parse_stamp w) of None \<Rightarrow> 0 | Some t \<Rightarrow> t)"

lemma segments_in_range_sorted: "sorted (map (start_of w) (segments_in_range w dir a b f))"
proof -
  let ?l = "sort_key snd (List.map_filter (range_entry w dir a b) (map fst (fs_files f)))"
  have "start_of w (fst x) = snd x" if "x \<in> set ?l" for x
    using that by (auto simp: set_map_filter range_entry_Some start_of_def)
  then have "map (start_of w) (map fst ?l) = map snd ?l" by simp
  then show ?thesis unfolding segments_in_range_def by (simp only: sorted_sort_key)
qed

text \<open>
  The tokenizer of FFmpeg's list files: inside quotes everything but the quote is literal,
  outside a backslash makes the next character literal.
\<close>

fun unquote :: "bool \<Rightarrow> string \<Rightarrow> string" where
  "unquote inside [] = []"
| "unquote True (c # s) = (if c = quote_char then unquote False s else c # unquote True s)"
| "unquote False (c # s) =
     (if c = quote_char then unquote True s
      else if c = CHR 0x5C then (case s of [] \<Rightarrow> [] | d # s' \<Rightarrow> d # unquote False s')
      else c # unquote False s)"

lemma unquote_escaped:
  "unquote True (replace_char quote_char [quote_char, CHR 0x5C, quote_char, quote_char] s @ t) =
     s @ unquote True t"
  by (induction s) (auto simp: quote_char_def)

text \<open>FFmpeg reads back the paths that were listed, as long as no name has a line break.\<close>

lemma list_content_roundtrip:
  assumes "\<forall>p \<in> set ps. CHR 0x0A \<notin> set (show_path p)"
  shows "map (\<lambda>l. unquote False (drop 5 l)) (text_lines (list_content ps)) = map show_path ps"
  using assms
proof (induction ps)
  case Nil
  then show ?case by (simp add: list_content_def)
next
  case (Cons p ps)
  let ?q = "replace_char quote_char [quote_char, CHR 0x5C, quote_char, quote_char] (show_path p)"
  let ?l = "''file '' @ [quote_char] @ ?q @ [quote_char]"
  have "CHR 0x0A \<notin> set (replace_char quote_char [quote_char, CHR 0x5C, quote_char, quote_char] s)"
    if "CHR 0x0A \<notin> set s" for s
    using that by (induction s) (auto simp: quote_char_def)
  with Cons.prems have n: "CHR 0x0A \<notin> set ?l" by (simp add: quote_char_def)
  have l: "list_content (p # ps) = ?l @ CHR 0x0A # list_content ps"
    by (simp add: list_content_def list_line_def nl_def)
  have cr: "strip_cr ?l = ?l" by (simp add: strip_cr_def quote_char_def)
  have "unquote False (drop 5 ?l) = show_path p"
    using unquote_escaped [of "show_path p" "[quote_char]"] by (simp add: quote_char_def)
  with Cons show ?case unfolding l text_lines_line [OF n] cr by simp
qed

end
