(* ===== verification/MediaMtx.thy ===== *)
theory MediaMtx
  imports NodeClient
begin

text \<open>
  The configuration of MediaMTX (\<open>node/src/mediamtx/config.rs\<close>) and the supervisor of its
  process (\<open>node/src/mediamtx/mod.rs\<close>).
\<close>

section \<open>Configuration file\<close>

definition recorded :: "node_camera_cfg \<Rightarrow> bool" where
  "recorded c \<longleftrightarrow> ncc_enabled c \<and> ncc_stream_path c \<noteq> []"

text \<open>The text of \<open>recordings_dir.join(stream_path)\<close>, with backslashes replaced.\<close>

definition record_dir :: "path \<Rightarrow> string \<Rightarrow> string" where
  "record_dir rec_dir sp =
     replace_char CHR 0x5C ''/'' (if starts_with ''/'' sp then sp else show_path rec_dir @ ''/'' @ sp)"

text \<open>The dash of the first line is three bytes of UTF-8.\<close>

definition config_head :: "u16 \<Rightarrow> u16 \<Rightarrow> string list" where
  "config_head api_port rtsp_port =
     [''# Generated by 64cam-node '' @ [CHR 0xE2, CHR 0x80, CHR 0x94] @ '' do not edit manually'', [],
      ''api: true'', ''apiAddress: :'' @ show_nat (unat api_port), [],
      ''rtsp: true'', ''rtspAddress: :'' @ show_nat (unat rtsp_port), [],
      ''webrtc: true'', ''webrtcAddress: :8889'',
      ''webrtcAllowOrigin: '' @ [CHR 0x27] @ ''*'' @ [CHR 0x27], [], ''paths:'']"

definition camera_lines :: "path \<Rightarrow> node_camera_cfg \<Rightarrow> string list" where
  "camera_lines rec_dir c =
     [''  '' @ ncc_stream_path c @ '':'',
      ''    source: '' @ ncc_rtsp_url c,
      ''    sourceOnDemand: false'',
      ''    record: yes'',
      ''    recordPath: '' @ record_dir rec_dir (ncc_stream_path c) @ ''/%Y%m%d_%H%M%S'',
      ''    recordFormat: fmp4'',
      ''    recordSegmentDuration: 60s'']"

definition placeholder :: "string list" where
  "placeholder = [''  _placeholder:'', ''    source: redirect://rtsp://127.0.0.1:1'']"

definition write_lines :: "string list \<Rightarrow> string" where
  "write_lines ls = concat (map (\<lambda>l. l @ nl) ls)"

definition generate :: "node_camera_cfg list \<Rightarrow> path \<Rightarrow> u16 \<Rightarrow> u16 \<Rightarrow> string" where
  "generate cams rec_dir api_port rtsp_port =
     write_lines (config_head api_port rtsp_port) @
     concat (map (\<lambda>c. write_lines (camera_lines rec_dir c)) (filter recorded cams)) @
     (if list_all (\<lambda>c. \<not> ncc_enabled c \<or> ncc_stream_path c = []) cams
      then write_lines placeholder else [])"

section \<open>Supervisor\<close>

text \<open>
  One round of the loop. \<open>running\<close> is whether a child is held; \<open>st\<close> is what \<open>try_wait\<close> says of
  it. The result is whether a child is held afterwards. With nothing in the channel the receive
  times out.
\<close>

datatype child_status = Child_exited | Child_running | Child_unknown

definition spawn_mtx :: "bool node_prog" where
  "spawn_mtx = andthen (attempt (io (\<lambda>s. s))) (\<lambda>r. ret (case r of Inl _ \<Rightarrow> False | Inr _ \<Rightarrow> True))"

definition check_child :: "path \<Rightarrow> child_status \<Rightarrow> bool \<Rightarrow> bool node_prog" where
  "check_child config_path st running =
     (if running \<and> st = Child_exited
      then andthen (gets (\<lambda>s. read_file config_path (n_fs s) \<noteq> None)) (\<lambda>exists.
           if exists then spawn_mtx else ret False)
      else ret running)"

definition supervisor_round ::
  "node_ext \<Rightarrow> node_config_env \<Rightarrow> child_status \<Rightarrow> bool \<Rightarrow> bool node_prog" where
  "supervisor_round w cfg st running =
     andthen (check_child (mediamtx_config_path cfg) st running) (\<lambda>alive.
     andthen (gets n_mtx) (\<lambda>queue.
     case queue of
       [] \<Rightarrow> ret alive
     | cams # rest \<Rightarrow>
         andthen (modify (\<lambda>s. s\<lparr>n_mtx := rest\<rparr>)) (\<lambda>_.
         andthen (attempt (io (on_fs (put_file (mediamtx_config_path cfg)
           \<lparr>content = generate cams (recordings_dir cfg) (mediamtx_api_port cfg) (mediamtx_rtsp_port cfg),
            mtime = utc_now (env w)\<rparr>)))) (\<lambda>r.
         case r of
           Inl _ \<Rightarrow> ret alive
         | Inr _ \<Rightarrow> if alive then ret True else spawn_mtx))))"

fun supervisor_rounds ::
  "node_ext \<Rightarrow> node_config_env \<Rightarrow> child_status list \<Rightarrow> bool \<Rightarrow> bool node_prog" where
  "supervisor_rounds w cfg [] running = ret running"
| "supervisor_rounds w cfg (st # sts) running =
     andthen (supervisor_round w cfg st running) (supervisor_rounds w cfg sts)"

section \<open>Lines of the file\<close>

definition plain_line :: "string \<Rightarrow> bool" where
  "plain_line l \<longleftrightarrow> CHR 0x0A \<notin> set l \<and> CHR 0x0D \<notin> set l"

lemma text_lines_write:
  "list_all plain_line ls \<Longrightarrow> text_lines (write_lines ls @ t) = ls @ text_lines t"
  by (induction ls) (auto simp: write_lines_def nl_def plain_line_def text_lines_line strip_cr_id)

lemma write_lines_append [simp]: "write_lines (xs @ ys) = write_lines xs @ write_lines ys"
  by (simp add: write_lines_def)

lemma write_lines_concat: "concat (map (\<lambda>c. write_lines (g c)) cs) = write_lines (concat (map g cs))"
  by (induction cs) (simp_all add: write_lines_def)

definition config_lines :: "node_camera_cfg list \<Rightarrow> path \<Rightarrow> u16 \<Rightarrow> u16 \<Rightarrow> string list" where
  "config_lines cams rec_dir api_port rtsp_port =
     config_head api_port rtsp_port @ concat (map (camera_lines rec_dir) (filter recorded cams)) @
     (if filter recorded cams = [] then placeholder else [])"

lemma generate_write: "generate cams d a r = write_lines (config_lines cams d a r)"
proof -
  have "list_all (\<lambda>c. \<not> ncc_enabled c \<or> ncc_stream_path c = []) cams \<longleftrightarrow> filter recorded cams = []"
    by (auto simp: list_all_iff recorded_def filter_empty_conv)
  then show ?thesis
    by (simp add: generate_def config_lines_def write_lines_concat) (simp add: write_lines_def)
qed

lemma show_nat_digits: "set (show_nat n) \<subseteq> {c. 48 \<le> (of_char c :: nat)}"
proof (induction n rule: show_nat.induct)
  case (1 n)
  show ?case
  proof (cases "n < 10")
    case True
    then show ?thesis by (subst show_nat.simps) (simp add: digit_char_def)
  next
    case False
    with 1 show ?thesis by (subst show_nat.simps) (auto simp: digit_char_def)
  qed
qed

lemma show_nat_plain [simp]: "CHR 0x0A \<notin> set (show_nat n)" "CHR 0x0D \<notin> set (show_nat n)"
  using show_nat_digits [of n] by auto

lemma plain_head: "list_all plain_line (config_head a r)"
  by (simp add: config_head_def plain_line_def)

lemma text_lines_written: "text_lines (write_lines ls) = concat (map (\<lambda>l. text_lines (l @ nl)) ls)"
proof (induction ls)
  case (Cons l ls)
  have "text_lines ((l @ nl) @ write_lines ls) = text_lines (l @ nl) @ text_lines (write_lines ls)"
    by (rule text_lines_append) (simp add: whole_lines_def nl_def)
  with Cons show ?case by (simp add: write_lines_def)
qed (simp add: write_lines_def)

lemma text_lines_plain: "plain_line l \<Longrightarrow> text_lines (l @ nl) = [l]"
  by (simp add: plain_line_def nl_def text_lines_line strip_cr_id)

text \<open>
  C21. The file MediaMTX reads has one block per recorded camera, in the order of the list and
  with the address and the recording path of the camera, behind a fixed head; the placeholder
  path is there exactly when no camera is recorded. This is so as long as no field of a camera
  has a line break. Where an RTSP address has one, what follows it becomes a line of the file of
  its own: whoever may create or update a camera may add settings to the path, commands that
  MediaMTX runs included.
\<close>

theorem mediamtx_config_lines:
  "(list_all plain_line (config_lines cams d a r) \<longrightarrow>
      text_lines (generate cams d a r) =
        config_head a r @ concat (map (camera_lines d) (filter recorded cams)) @
        (if filter recorded cams = [] then placeholder else [])) \<and>
   (\<forall>c url extra. c \<in> set cams \<longrightarrow> recorded c \<longrightarrow> ncc_rtsp_url c = url @ nl @ extra \<longrightarrow>
      plain_line extra \<longrightarrow> extra \<in> set (text_lines (generate cams d a r)))"
proof (intro conjI allI impI)
  assume "list_all plain_line (config_lines cams d a r)"
  then have "map (\<lambda>l. text_lines (l @ nl)) (config_lines cams d a r) = map (\<lambda>l. [l]) (config_lines cams d a r)"
    by (auto simp: list_all_iff text_lines_plain)
  then have "text_lines (generate cams d a r) = concat (map (\<lambda>l. [l]) (config_lines cams d a r))"
    unfolding generate_write text_lines_written by (rule arg_cong)
  then have "text_lines (generate cams d a r) = config_lines cams d a r" by simp
  then show "text_lines (generate cams d a r) =
      config_head a r @ concat (map (camera_lines d) (filter recorded cams)) @
      (if filter recorded cams = [] then placeholder else [])"
    by (simp add: config_lines_def)
next
  fix c url extra
  assume c: "c \<in> set cams" "recorded c" "ncc_rtsp_url c = url @ nl @ extra" "plain_line extra"
  let ?l = "''    source: '' @ ncc_rtsp_url c"
  have l: "?l \<in> set (config_lines cams d a r)"
    using c(1,2) by (auto simp: config_lines_def camera_lines_def)
  have "text_lines ((''    source: '' @ url @ nl) @ (extra @ nl)) =
      text_lines (''    source: '' @ url @ nl) @ text_lines (extra @ nl)"
    by (rule text_lines_append) (simp add: whole_lines_def nl_def)
  then have "extra \<in> set (text_lines (?l @ nl))"
    using text_lines_plain [OF c(4)] by (simp add: c(3))
  with l show "extra \<in> set (text_lines (generate cams d a r))"
    unfolding generate_write text_lines_written set_concat set_map by blast
qed

theorem mediamtx_config_lines_witness:
  "''    runOnInit: sh'' \<in> set (text_lines (generate
      [sample_cam_cfg\<lparr>ncc_rtsp_url := ''rtsp://c'' @ nl @ ''    runOnInit: sh''\<rparr>] [''data''] 9997 8554)) \<and>
   text_lines (generate [] [''data''] 9997 8554) = config_head 9997 8554 @ placeholder"
proof
  let ?c = "sample_cam_cfg\<lparr>ncc_rtsp_url := ''rtsp://c'' @ nl @ ''    runOnInit: sh''\<rparr>"
  have "recorded ?c" "plain_line ''    runOnInit: sh''"
    by (simp_all add: recorded_def sample_cam_cfg_def plain_line_def)
  then show "''    runOnInit: sh'' \<in> set (text_lines (generate [?c] [''data''] 9997 8554))"
    using mediamtx_config_lines [THEN conjunct2, rule_format, of ?c "[?c]" "''rtsp://c''" "''    runOnInit: sh''"]
    by simp
  have "list_all plain_line (config_lines [] [''data''] 9997 8554)"
    using plain_head by (simp add: config_lines_def placeholder_def plain_line_def)
  then show "text_lines (generate [] [''data''] 9997 8554) = config_head 9997 8554 @ placeholder"
    using mediamtx_config_lines [of "[]" "[''data'']" 9997 8554] by simp
qed

section \<open>The supervisor writes what it is told\<close>

lemma supervisor_round_writes:
  assumes "n_io s = []" and "n_mtx s = cams # rest"
    and "supervisor_round w cfg st running s = (r, t)"
  shows "r = Inr True \<and> n_mtx t = rest \<and>
    read_file (mediamtx_config_path cfg) (n_fs t) =
      Some (generate cams (recordings_dir cfg) (mediamtx_api_port cfg) (mediamtx_rtsp_port cfg))"
  using assms
  by (auto simp: supervisor_round_def check_child_def spawn_mtx_def andthen_apply io_ok split: if_splits)

end
