(* ===== verification/NodeServer.thy ===== *)
theory NodeServer
  imports Expiry Playback NodePlayback MediaMtx
begin

text \<open>
  The HTTP server of a node (\<open>serve\<close> of \<open>node/src/playback.rs\<close>) and how the coordinator's
  requests for segments meet it.
\<close>

section \<open>The server\<close>

text \<open>
  What the server calls but does not define: axum's \<open>Query\<close> reads the parameters of an export
  from the query string, \<open>ServeDir\<close> answers a path below \<open>/segments\<close> with a file of the directory,
  for a method and a \<open>Range\<close> header.
\<close>

record node_http =
  query_params :: "string \<Rightarrow> export_params option"
  serve_dir :: "path \<Rightarrow> string \<Rightarrow> string \<Rightarrow> string option \<Rightarrow> fs \<Rightarrow> http_response"

datatype node_answer =
    File http_response
  | Clip export_answer
  | Bad_query
  | Not_allowed
  | Not_found

definition node_serve ::
  "node_ext \<Rightarrow> node_http \<Rightarrow> path \<Rightarrow> path \<Rightarrow> string \<Rightarrow> string \<Rightarrow> string \<Rightarrow> string option \<Rightarrow> node_answer node_prog" where
  "node_serve w h rec_dir list_path method url_path qs rng =
     (if url_path = ''/export'' then
        (if method \<notin> {''GET'', ''HEAD''} then ret Not_allowed
         else (case query_params h qs of
                 None \<Rightarrow> ret Bad_query
               | Some params \<Rightarrow> andthen (node_export_clip w rec_dir list_path params) (\<lambda>a. ret (Clip a))))
      else (case strip_prefix ''/segments'' url_path of
              None \<Rightarrow> ret Not_found
            | Some rest \<Rightarrow>
                if rest = [] \<or> starts_with ''/'' rest
                then andthen (gets (\<lambda>s. serve_dir h rec_dir method rest rng (n_fs s))) (\<lambda>r. ret (File r))
                else ret Not_found))"

text \<open>
  Names that stand for themselves in a URL: of the characters no URL encodes. \<open>ServeDir\<close> decodes
  percent sequences and refuses some other characters; nothing is said of such names.
\<close>

definition unreserved :: "char \<Rightarrow> bool" where
  "unreserved c \<longleftrightarrow> is_digit c \<or>
     65 \<le> (of_char c :: nat) \<and> (of_char c :: nat) \<le> 90 \<or>
     97 \<le> (of_char c :: nat) \<and> (of_char c :: nat) \<le> 122 \<or> c \<in> set ''-._~''"

definition url_name :: "string \<Rightarrow> bool" where
  "url_name n \<longleftrightarrow> plain_name n \<and> list_all unreserved n"

text \<open>
  What \<open>ServeDir\<close> is documented to do with a file: a \<open>GET\<close> of its path, in names that stand for
  themselves, without a range is answered 200 with its content.
\<close>

definition serves_files :: "node_http \<Rightarrow> bool" where
  "serves_files h \<longleftrightarrow>
     (\<forall>dir p f c. list_all url_name p \<and> p \<noteq> [] \<and> read_file (dir @ p) f = Some c \<longrightarrow>
        rs_status (serve_dir h dir ''GET'' (show_path p) None f) = 200 \<and>
        rs_body (serve_dir h dir ''GET'' (show_path p) None f) = c)"

section \<open>Requests of the coordinator\<close>

text \<open>The path of an \<open>http\<close> URL: what follows the authority.\<close>

definition url_target :: "string \<Rightarrow> string" where
  "url_target url = dropWhile (\<lambda>c. c \<noteq> CHR ''/'') (drop (length ''http://'') url)"

lemma url_target_simp:
  "CHR ''/'' \<notin> set h \<Longrightarrow> url_target (''http://'' @ h @ CHR ''/'' # t) = CHR ''/'' # t"
  by (induction h) (auto simp: url_target_def)

lemma show_nat_below: "set (show_nat n) \<subseteq> {c. (of_char c :: nat) < 58}"
proof (induction n rule: show_nat.induct)
  case (1 n)
  show ?case
  proof (cases "n < 10")
    case True
    then show ?thesis by (subst show_nat.simps) (simp add: digit_char_def)
  next
    case False
    with 1 show ?thesis by (subst show_nat.simps) (auto simp: digit_char_def)
  qed
qed

lemma digits_no_letter:
  "CHR ''/'' \<notin> set (show_nat n)" "CHR ''s'' \<notin> set (show_nat n)" "CHR ''e'' \<notin> set (show_nat n)"
  using show_nat_digits [of n] show_nat_below [of n] by (auto dest: subsetD)

lemma node_serves_segment:
  assumes "serves_files h" and "url_name sp" and "url_name name"
    and "read_file (dir @ [sp, name]) (n_fs v) = Some c"
  shows "\<exists>r. node_serve w h dir lp ''GET'' (''/segments/'' @ sp @ ''/'' @ name) [] None v = (Inr (File r), v) \<and>
    rs_status r = 200 \<and> rs_body r = c"
proof -
  let ?rest = "''/'' @ sp @ ''/'' @ name"
  let ?r = "serve_dir h dir ''GET'' ?rest None (n_fs v)"
  have "show_path [sp, name] = ?rest" by (simp add: show_path_def)
  moreover have "list_all url_name [sp, name]" "[sp, name] \<noteq> []" using assms(2,3) by simp_all
  ultimately have "rs_status ?r = 200 \<and> rs_body ?r = c"
    using assms(1,4) unfolding serves_files_def by metis
  moreover have "strip_prefix ''/segments'' (''/segments/'' @ sp @ ''/'' @ name) = Some ?rest"
    using strip_prefix_append [of "''/segments''" ?rest] by simp
  then have "node_serve w h dir lp ''GET'' (''/segments/'' @ sp @ ''/'' @ name) [] None v = (Inr (File ?r), v)"
    by (simp add: node_serve_def andthen_apply)
  ultimately show ?thesis by blast
qed

text \<open>A path whose first character behind the slash is a digit is neither of the server's.\<close>

lemma node_serve_digit:
  "node_serve w h dir lp m (CHR ''/'' # show_nat k @ CHR '':'' # t) q rng v = (Inr Not_found, v)"
proof (cases "show_nat k")
  case Nil
  then show ?thesis by (simp add: node_serve_def strip_prefix_def)
next
  case (Cons c cs)
  then have "c \<noteq> CHR ''s''" "c \<noteq> CHR ''e''" using digits_no_letter [of k] by auto
  with Cons show ?thesis by (simp add: node_serve_def strip_prefix_def)
qed

section \<open>Playback across both programs\<close>

text \<open>
  C40. Where a segment comes from: without a valid token \<open>get_segment\<close> answers 401. A migrated
  segment is answered with a redirect to its presigned URL, and with 500 when the coordinator
  has no S3 settings. A local segment is on its node under the URL
  \<open>http://<host>:<port>/segments/<stream>/<name>\<close>: the node answers a request for that path with
  the very file the recorder reported (for names that stand for themselves in a URL; the
  coordinator encodes none). The coordinator does not ask for it: PostgreSQL prints an
  \<open>INET\<close> value with its prefix length, so the URL is \<open>http://<host>/32:<port>/segments/..\<close>. Its
  authority is the bare host, so the request goes to port 80, and the port of the playback server
  is part of the path, for which the playback server would answer 404.
\<close>

theorem segment_request_misses_node:
  assumes "faults s = []" and "db_ok (db s)" and "jwt_decode w (jwt s) token = Some cl"
    and "r \<in> set (recordings (db s))"
    and "\<forall>q \<in> set (recordings (db s)). rec_id q = rec_id r \<longrightarrow> q = r"
    and "n \<in> set (nodes (db s))" and "node_id n = rec_node_id r" and "node_ip_addr n = Some a"
    and "inet_text w a = inet_host a @ ''/'' @ show_nat (inet_masklen a)"
    and "CHR ''/'' \<notin> set (inet_host a)"
  shows "(\<forall>bad. jwt_decode w (jwt s) bad = None \<longrightarrow>
      get_segment w (rec_camera_id r) (rec_id r) bad hs s = (Inl Unauthorized, s)) \<and>
    (\<forall>rest. rec_storage_uri r = ''s3://'' @ rest \<longrightarrow>
      get_segment w (rec_camera_id r) (rec_id r) token hs s =
        (case presigned_get w (rec_storage_uri r) 3600 of
           None \<Rightarrow> (Inl Internal, s)
         | Some url \<Rightarrow> (Inr \<lparr>resp_status = 302, resp_headers = [(''location'', url)], resp_body = []\<rparr>, s))) \<and>
    (\<forall>x cfg v0 sp name e v h lp c.
      closed_segment x cfg v0 sp name = Some e \<and> rec_storage_uri r = seg_storage_uri e \<and>
      url_name sp \<and> url_name name \<and> serves_files h \<and>
      read_file (recordings_dir cfg @ [sp, name]) (n_fs v) = Some c \<longrightarrow>
      (let tail = '':'' @ show_nat (node_http_port w) @ ''/segments/'' @ sp @ ''/'' @ name;
           asked = ''http://'' @ inet_host a @ ''/'' @ show_nat (inet_masklen a) @ tail;
           there = ''http://'' @ inet_host a @ tail;
           node = (\<lambda>url. node_serve x h (recordings_dir cfg) lp ''GET'' (url_target url) [] None v)
       in get_segment w (rec_camera_id r) (rec_id r) token hs s = proxy_get w asked (map_of hs ''range'') s \<and>
          url_authority asked = inet_host a \<and>
          url_authority there = inet_host a @ '':'' @ show_nat (node_http_port w) \<and>
          node asked = (Inr Not_found, v) \<and>
          (\<exists>f. node there = (Inr (File f), v) \<and> rs_status f = 200 \<and> rs_body f = c)))"
proof -
  note target = get_segment_target [OF assms, of hs]
  have "get_segment w (rec_camera_id r) (rec_id r) token hs s = proxy_get w asked (map_of hs ''range'') s \<and>
      url_authority asked = inet_host a \<and>
      url_authority there = inet_host a @ '':'' @ show_nat (node_http_port w) \<and>
      node asked = (Inr Not_found, v) \<and>
      (\<exists>f. node there = (Inr (File f), v) \<and> rs_status f = 200 \<and> rs_body f = c)"
    if seg: "closed_segment x cfg v0 sp name = Some e" "rec_storage_uri r = seg_storage_uri e"
      "url_name sp" "url_name name" "serves_files h"
      "read_file (recordings_dir cfg @ [sp, name]) (n_fs v) = Some c"
    and tail: "tail = '':'' @ show_nat (node_http_port w) @ ''/segments/'' @ sp @ ''/'' @ name"
    and asked: "asked = ''http://'' @ inet_host a @ ''/'' @ show_nat (inet_masklen a) @ tail"
    and there: "there = ''http://'' @ inet_host a @ tail"
    and node: "node = (\<lambda>url. node_serve x h (recordings_dir cfg) lp ''GET'' (url_target url) [] None v)"
    for x cfg v0 sp name e v h lp c tail asked there node
  proof -
    let ?p = "inet_host a @ '':'' @ show_nat (node_http_port w)"
    have uri: "rec_storage_uri r = ''local://'' @ sp @ ''/'' @ name"
      using closed_segment_uri [OF seg(1)] seg(2) by simp
    have p: "CHR ''/'' \<notin> set ?p" using assms(10) digits_no_letter by simp
    have "url_authority there = ?p"
      using takeWhile_authority [OF p, of "''segments/'' @ sp @ ''/'' @ name"]
      by (simp add: there tail url_authority_def)
    moreover have "url_target there = ''/segments/'' @ sp @ ''/'' @ name"
      using url_target_simp [OF p, of "''segments/'' @ sp @ ''/'' @ name"] by (simp add: there tail)
    then have "\<exists>f. node there = (Inr (File f), v) \<and> rs_status f = 200 \<and> rs_body f = c"
      using node_serves_segment [OF seg(5,3,4,6)] by (simp add: node)
    moreover have "url_target asked = CHR ''/'' # show_nat (inet_masklen a) @ CHR '':'' #
        show_nat (node_http_port w) @ ''/segments/'' @ sp @ ''/'' @ name"
      using url_target_simp [OF assms(10)] by (simp add: asked tail)
    then have "node asked = (Inr Not_found, v)"
      unfolding node by (simp only: node_serve_digit)
    ultimately show ?thesis using target uri by (auto simp: asked tail)
  qed
  with target show ?thesis unfolding Let_def by blast
qed

text \<open>A server of files, and the sample segment on it.\<close>

definition sample_http :: node_http where
  "sample_http =
     \<lparr>query_params = (\<lambda>_. None),
      serve_dir = (\<lambda>dir m rest rng f. case read_file (path_join dir (tl rest)) f of
         None \<Rightarrow> \<lparr>rs_status = 404, rs_headers = [], rs_body = []\<rparr>
       | Some c \<Rightarrow> \<lparr>rs_status = 200, rs_headers = [], rs_body = c\<rparr>)\<rparr>"

lemma split_show_path: "plain_name c \<Longrightarrow> list_all plain_name cs \<Longrightarrow> split_slash (c @ show_path cs) = c # cs"
  by (induction cs arbitrary: c) (simp_all add: plain_name_def show_path_def split_slash_plain split_slash_append)

lemma resolve_plain: "list_all plain_name cs \<Longrightarrow> resolve base cs = base @ cs"
  by (induction cs arbitrary: base) (simp_all add: plain_name_def)

lemma sample_http_serves: "serves_files sample_http"
proof -
  have "path_join dir (tl (show_path p)) = dir @ p" if "list_all plain_name p" "p \<noteq> []" for dir p
  proof (cases p)
    case (Cons c cs)
    then have "\<not> starts_with ''/'' (c @ show_path cs)"
      using that(1) by (cases c) (auto simp: plain_name_def)
    with Cons that show ?thesis
      using split_show_path [of c cs] resolve_plain [of p dir]
      by (simp add: path_join_def show_path_def)
  qed (use that in simp)
  moreover have "list_all plain_name p" if "list_all url_name p" for p
    using that by (simp add: list_all_iff url_name_def)
  ultimately show ?thesis by (auto simp: serves_files_def sample_http_def)
qed

definition month_get_ext :: ext where
  "month_get_ext = sample_ext\<lparr>http := (\<lambda>rq.
     if rq_url rq = ''http://10.0.0.5/32:8890/segments/door/19700101_000100.mp4''
     then Some \<lparr>rs_status = 404, rs_headers = [], rs_body = ''nginx''\<rparr> else None)\<rparr>"

theorem segment_request_misses_node_witness:
  "\<exists>f. get_segment month_get_ext 30 60 ''jwt'' [] (month_app []) =
       (Inr \<lparr>resp_status = 404, resp_headers = [], resp_body = ''nginx''\<rparr>, month_app []) \<and>
     node_serve sample_node_ext sample_http (recordings_dir sample_config) [] ''GET''
       (url_target ''http://10.0.0.5/32:8890/segments/door/19700101_000100.mp4'') [] None sample_node_app =
       (Inr Not_found, sample_node_app) \<and>
     node_serve sample_node_ext sample_http (recordings_dir sample_config) [] ''GET''
       (url_target ''http://10.0.0.5:8890/segments/door/19700101_000100.mp4'') [] None sample_node_app =
       (Inr (File f), sample_node_app) \<and> rs_body f = ''old''"
proof -
  let ?a = "\<lparr>inet_host = ''10.0.0.5'', inet_masklen = 32\<rparr>" and ?s = "month_app []"
  let ?name = "''19700101_000100.mp4''"
  have j: "jwt_decode month_get_ext (jwt ?s) ''jwt'' = Some sample_claims"
    by (simp add: jwt_decode_def month_get_ext_def sample_ext_def seconds_def)
  have r: "month_old \<in> set (recordings (db ?s))"
    "\<forall>q \<in> set (recordings (db ?s)). rec_id q = rec_id month_old \<longrightarrow> q = month_old" by simp_all
  have n: "sample_node \<in> set (nodes (db ?s))" "node_id sample_node = rec_node_id month_old"
    "node_ip_addr sample_node = Some ?a"
    by (simp_all add: sample_node_def month_old_def segment_row_def)
  have t: "inet_text month_get_ext ?a = inet_host ?a @ ''/'' @ show_nat (inet_masklen ?a)"
    by (simp add: month_get_ext_def sample_ext_def show_nat_32)
  have i: "rec_camera_id month_old = 30" "rec_id month_old = 60"
    "rec_storage_uri month_old = seg_storage_uri sample_queued"
    by (simp_all add: month_old_def segment_row_def sample_queued_def)
  have p: "show_nat (node_http_port month_get_ext) = ''8890''"
    by (simp add: node_http_port_def env_port_def month_get_ext_def sample_ext_def show_nat_8890)
  have c: "closed_segment sample_node_ext sample_config sample_node_app ''door'' ?name = Some sample_queued"
    by (simp add: closed_segment_def split_ext_def flat_segment_def file_size_def read_file_def sample_node_defs seconds_def)
  have f: "url_name ''door''" "url_name ?name"
    "read_file (recordings_dir sample_config @ [''door'', ?name]) (n_fs sample_node_app) = Some ''old''"
    by (simp_all add: url_name_def unreserved_def is_digit_def plain_name_def read_file_def sample_node_defs)
  have host: "CHR ''/'' \<notin> set (inet_host ?a)" by simp
  from segment_request_misses_node [OF month_app_simps(1) month_old_expired(1) j r n t host, of "[]",
      unfolded i p, THEN conjunct2, THEN conjunct2, rule_format,
      OF conjI [OF c conjI [OF refl conjI [OF f(1) conjI [OF f(2) conjI [OF sample_http_serves f(3)]]]]],
      of "[]"]
  have all: "get_segment month_get_ext 30 60 ''jwt'' [] ?s =
      proxy_get month_get_ext ''http://10.0.0.5/32:8890/segments/door/19700101_000100.mp4'' None ?s"
    "node_serve sample_node_ext sample_http (recordings_dir sample_config) [] ''GET''
       (url_target ''http://10.0.0.5/32:8890/segments/door/19700101_000100.mp4'') [] None sample_node_app =
       (Inr Not_found, sample_node_app)"
    "\<exists>f. node_serve sample_node_ext sample_http (recordings_dir sample_config) [] ''GET''
       (url_target ''http://10.0.0.5:8890/segments/door/19700101_000100.mp4'') [] None sample_node_app =
       (Inr (File f), sample_node_app) \<and> rs_body f = ''old''"
    by (auto simp: Let_def show_nat_32)
  moreover have "proxy_get month_get_ext ''http://10.0.0.5/32:8890/segments/door/19700101_000100.mp4'' None ?s =
      (Inr \<lparr>resp_status = 404, resp_headers = [], resp_body = ''nginx''\<rparr>, ?s)"
    by (simp add: proxy_get_def prog_simps month_get_ext_def status_from_def forwarded_headers_def)
  ultimately show ?thesis by metis
qed

end
