(* ===== verification/NodeProtocol.thy ===== *)
theory NodeProtocol
  imports Mirror MediaMtx
begin

text \<open>
  The well-formedness of a node over any sequence of connections: what it sends is of the kinds
  the coordinator handles, and its camera list has one entry per camera.
\<close>

section \<open>Well-formed nodes\<close>

text \<open>The messages a node may send; the coordinator's own kinds are not among them.\<close>

definition upstream :: "ws_message \<Rightarrow> bool" where
  "upstream m \<longleftrightarrow>
     (case m of Heartbeat _ _ \<Rightarrow> True | SegmentComplete _ _ \<Rightarrow> True | MotionEvent _ _ \<Rightarrow> True
      | SegmentMigrated _ _ \<Rightarrow> True | Pong _ \<Rightarrow> True | _ \<Rightarrow> False)"

definition node_wf :: "node_app \<Rightarrow> bool" where
  "node_wf s \<longleftrightarrow>
     distinct (map ncc_id (n_cameras s)) \<and> list_all upstream (n_sent s) \<and>
     list_all (\<lambda>cams. distinct (map ncc_id cams)) (n_mtx s)"

lemma upstream_simps [simp]:
  "upstream (Heartbeat q p)" "upstream (SegmentComplete q seg)" "upstream (MotionEvent q e)"
  "upstream (SegmentMigrated q g)" "upstream (Pong q)"
  by (simp_all add: upstream_def)

lemma wf_send: "upstream m \<Longrightarrow> keeps node_wf (sink_send m)"
  unfolding sink_send_def by (rule keeps_io) (simp_all add: node_wf_def)

lemma wf_next_seq [keeps_rules]: "keeps node_wf next_seq"
  by (simp add: keeps_def next_seq_apply node_wf_def)

lemma wf_remove_file [keeps_rules]: "keeps node_wf (remove_file p)"
  by (auto simp: keeps_def remove_file_def io_def node_wf_def)

lemma wf_send_segments [keeps_rules]: "keeps node_wf (send_segments ps)"
  by (induction ps) (auto intro!: keeps_rules wf_send split: sum.split)

lemma wf_io_id: "keeps node_wf (io (\<lambda>s. s))"
  by (rule keeps_io) (simp_all add: node_wf_def)

lemma wf_flush_queue [keeps_rules]: "keeps node_wf (flush_queue w p)"
  unfolding flush_queue_def flush_entries_def [abs_def] queue_read_all_def queue_clear_def
  by (auto intro!: keeps_rules wf_io_id split: sum.split)

lemma wf_modify: "(\<And>s. node_wf s \<Longrightarrow> node_wf (f s)) \<Longrightarrow> keeps node_wf (modify f)"
  by (simp add: keeps_def)

lemma wf_incoming:
  assumes "\<And>x. m = Some x \<Longrightarrow> msg_good x"
  shows "keeps node_wf (node_handle_incoming dir m)"
proof (cases m)
  case None
  then show ?thesis by (simp add: node_handle_incoming_def keeps_rules)
next
  case (Some x)
  with assms have x: "msg_good x" by simp
  show ?thesis
  proof (rule keepsI)
    fix s assume s: "node_wf s"
    show "node_wf (snd (node_handle_incoming dir m s))"
    proof (cases "apply_cameras x (n_cameras s)")
      case (Some l)
      from apply_cameras_distinct [OF this x] s Some \<open>m = Some x\<close> show ?thesis
        by (simp add: node_handle_incoming_def andthen_apply set_cameras_def node_wf_def)
    next
      case None
      have d: "keeps node_wf (andthen (attempt (remove_file p :: unit node_prog)) (\<lambda>_. ret ()) :: unit node_prog)" for p
        by (intro keeps_rules)
      have g: "keeps node_wf (andthen next_seq (\<lambda>_. sink_send (Pong q)))" for q
        by (intro keeps_rules wf_send) simp
      from None \<open>m = Some x\<close> s keepsD [OF d s] keepsD [OF g s] show ?thesis
        by (cases x) (auto simp: node_handle_incoming_def andthen_apply [of "gets n_cameras"] split: option.split)
    qed
  qed
qed

definition event_good :: "client_event \<Rightarrow> bool" where
  "event_good e \<longleftrightarrow> (case e of Server_text (Some m) \<Rightarrow> msg_good m | _ \<Rightarrow> True)"

lemma wf_client_step:
  assumes "event_good e"
  shows "keeps node_wf (client_step w cfg ident hw e)"
proof (cases e)
  case (Server_text m)
  with assms have "\<And>x. m = Some x \<Longrightarrow> msg_good x" by (simp add: event_good_def)
  from wf_incoming [OF this] Server_text show ?thesis by (auto intro!: keeps_rules)
next
  case Event_ready
  have "keeps node_wf (modify (\<lambda>s. s\<lparr>n_events := rest\<rparr>))" for rest
    by (rule wf_modify) (simp add: node_wf_def)
  with Event_ready show ?thesis by (auto intro!: keeps_rules wf_send split: list.split)
next
  case Migrate_ready
  have "keeps node_wf (modify (\<lambda>s. s\<lparr>n_migrate := rest\<rparr>))" for rest
    by (rule wf_modify) (simp add: node_wf_def)
  with Migrate_ready show ?thesis by (auto intro!: keeps_rules wf_send split: list.split)
next
  case Heartbeat_due
  then show ?thesis by (auto simp: heartbeat_tick_def intro!: keeps_rules wf_send)
next
  case Flush_ready
  have "keeps node_wf (modify drain_flush)"
    by (rule wf_modify) (simp add: node_wf_def drain_flush_def)
  with Flush_ready show ?thesis by (auto intro!: keeps_rules)
qed (auto intro!: keeps_rules)

lemma wf_client_loop:
  "list_all event_good es \<Longrightarrow> keeps node_wf (client_loop w cfg ident hw es)"
  by (induction es) (auto intro!: keeps_rules wf_client_step)

text \<open>
  C12. The node keeps to the protocol: over any number of connections, whatever events meet it
  and whichever I/O operations fail, every message it sends is of a kind the coordinator
  handles as one from a node, none of the coordinator's own kinds is ever sent, and its camera
  list and every list it hands to MediaMTX has at most one entry per camera, as long as the
  lists it is sent have.
\<close>

theorem client_run_well_formed:
  assumes "\<forall>es \<in> set runs. list_all event_good es" and "node_wf s"
  shows "node_wf (snd (client_run w cfg ident hw runs s))"
proof -
  have c: "keeps node_wf (connect_and_run w cfg ident hw es)" if "list_all event_good es" for es
  proof -
    have "keeps node_wf (modify (\<lambda>s. s\<lparr>n_seq := 0\<rparr>))" "keeps node_wf (modify drain_flush)"
      by (auto intro!: wf_modify simp: node_wf_def drain_flush_def)
    with that show ?thesis
      unfolding connect_and_run_def by (auto intro!: keeps_rules wf_io_id wf_client_loop)
  qed
  have "keeps node_wf (client_run w cfg ident hw runs)"
    using assms(1) by (induction runs) (auto intro!: keeps_rules c)
  then show ?thesis using assms(2) by (rule keepsD)
qed

theorem client_run_well_formed_witness:
  "node_wf (snd (client_run sample_node_ext sample_config \<lparr>ni_node_id = 20, ni_api_key = ''k''\<rparr>
     \<lparr>cpu_cores = 1, cpu_model = [], ram_total_mb = 0, ram_available_mb = 0, hw_accel = []\<rparr>
     [[Server_text (Some (CameraAdded 0 sample_cam_cfg)), Heartbeat_due, Server_error],
      [Server_text (Some (ConfigSync 0 [sample_cam_cfg])), Server_text (Some (Ping 3)), Server_close]]
     sample_node_app))"
  by (rule client_run_well_formed) (simp_all add: event_good_def node_wf_def sample_node_defs)

text \<open>A heartbeat reports every camera of the list once, in its order.\<close>

lemma poll_mediamtx_cameras:
  "map cs_camera_id (poll_mediamtx w port cams) = map ncc_id cams"
  by (simp add: poll_mediamtx_def Let_def)

end
