(* ===== verification/Migration.thy ===== *)
theory Migration
  imports SigV4 Watchdog Backfill
begin

text \<open>
  Moving old segments to S3 (\<open>node/src/storage/mod.rs\<close>): the scan for candidates, the upload,
  the notice to the coordinator and the removal of the local file.
\<close>

section \<open>Definitions\<close>

text \<open>\<open>str::parse::<i64>\<close>.\<close>

definition parse_i64 :: "string \<Rightarrow> int option" where
  "parse_i64 s =
     (case s of
        c # cs \<Rightarrow>
          if c = CHR ''-'' then
            (if cs \<noteq> [] \<and> list_all is_digit cs \<and> digits_value cs \<le> 2 ^ 63
             then Some (- int (digits_value cs)) else None)
          else map_option int (parse_unsigned (2 ^ 63 - 1) s)
      | [] \<Rightarrow> None)"

text \<open>
  The product wraps around, as in a release build. (The panic of chrono on a duration beyond
  \<open>i64::MAX\<close> milliseconds, some \<open>10 ^ 12\<close> hours, is not modelled.)
\<close>

definition migrate_after_secs :: "ext \<Rightarrow> int" where
  "migrate_after_secs w =
     sint (word_of_int
       (case Option.bind (env_var w ''S3_MIGRATE_AFTER_HOURS'') parse_i64 of
          None \<Rightarrow> 2 | Some v \<Rightarrow> v) * 3600 :: i64)"

definition stamp_of :: "node_ext \<Rightarrow> path \<Rightarrow> time option" where
  "stamp_of w p = Option.bind (file_stem p) (parse_stamp w)"

definition migrate_candidates :: "node_ext \<Rightarrow> path \<Rightarrow> fs \<Rightarrow> path list" where
  "migrate_candidates w dir f =
     filter (\<lambda>p. case stamp_of w p of
               None \<Rightarrow> False
             | Some started \<Rightarrow> seconds (migrate_after_secs (env w)) \<le> utc_now (env w) - started)
       (map fst (mp4_files dir f))"

text \<open>The request that uploads a file, with the key as part of its URL.\<close>

definition s3_put :: "node_ext \<Rightarrow> node_s3_config \<Rightarrow> string \<Rightarrow> string \<Rightarrow> http_request" where
  "s3_put w cfg key body =
     \<lparr>rq_method = ''PUT'', rq_url = object_url cfg key,
      rq_headers = signed_put_headers (env w) cfg key body, rq_body = body\<rparr>"

definition migrate_segment :: "node_ext \<Rightarrow> node_s3_config \<Rightarrow> path \<Rightarrow> path \<Rightarrow> unit node_prog" where
  "migrate_segment w cfg dir p =
     andthen (ok_or Bad_path (strip_dir dir p)) (\<lambda>rel.
     let rel_str = replace_char CHR 0x5C ''/'' (show_rel rel);
         recording_id = uuid5 w (''local://'' @ rel_str);
         new_uri = ''s3://'' @ ns_bucket cfg @ ''/'' @ rel_str in
     andthen (ok_or Bad_name (file_stem p)) (\<lambda>stem.
     andthen (ok_or Bad_timestamp (parse_stamp w stem)) (\<lambda>started_at.
     andthen (io (\<lambda>s. s)) (\<lambda>_.
     andthen (gets (\<lambda>s. read_file p (n_fs s))) (\<lambda>file.
     andthen (ok_or Io_error file) (\<lambda>body.
     andthen (ok_or Http_failed (http (env w) (s3_put w cfg rel_str body))) (\<lambda>resp.
     andthen (ensure (200 \<le> rs_status resp \<and> rs_status resp < 300) (Put_failed (rs_status resp))) (\<lambda>_.
     andthen (modify (\<lambda>s. s\<lparr>n_migrate := n_migrate s @
       [\<lparr>sm_recording_id = recording_id, sm_started_at = started_at, sm_storage_uri = new_uri\<rparr>]\<rparr>)) (\<lambda>_.
     andthen (remove_file p) (\<lambda>_.
     prune p))))))))))"

fun migrate_all :: "node_ext \<Rightarrow> node_s3_config \<Rightarrow> path \<Rightarrow> path list \<Rightarrow> unit node_prog" where
  "migrate_all w cfg dir [] = ret ()"
| "migrate_all w cfg dir (p # ps) =
     andthen (attempt (migrate_segment w cfg dir p :: unit node_prog)) (\<lambda>_.
     migrate_all w cfg dir ps)"

definition migrate_pass :: "node_ext \<Rightarrow> node_s3_config \<Rightarrow> path \<Rightarrow> unit node_prog" where
  "migrate_pass w cfg dir =
     andthen (gets (\<lambda>s. migrate_candidates w dir (n_fs s))) (migrate_all w cfg dir)"

text \<open>\<open>run_migration\<close>: one pass per tick, none without a configuration.\<close>

fun migrate_ticks :: "node_s3_config \<Rightarrow> path \<Rightarrow> node_ext list \<Rightarrow> unit node_prog" where
  "migrate_ticks cfg dir [] = ret ()"
| "migrate_ticks cfg dir (w # ws) = andthen (migrate_pass w cfg dir) (\<lambda>_. migrate_ticks cfg dir ws)"

definition run_migration :: "ext \<Rightarrow> path \<Rightarrow> node_ext list \<Rightarrow> unit node_prog" where
  "run_migration w dir ticks =
     (case node_s3_from_env w of None \<Rightarrow> ret () | Some cfg \<Rightarrow> migrate_ticks cfg dir ticks)"

section \<open>What a pass may touch\<close>

text \<open>A file that is not the one migrated keeps its content, whatever fails.\<close>

lemma keeps_prune_read: "keeps (\<lambda>s. read_file q (n_fs s) = c) (prune p)"
  by (auto simp: prune_def remove_dir_def intro!: keeps_rules keeps_io split: option.split)

lemma keeps_migrate_read:
  assumes "p \<noteq> q"
  shows "keeps (\<lambda>s. read_file q (n_fs s) = c) (migrate_segment w cfg dir p)"
proof -
  have "keeps (\<lambda>s. read_file q (n_fs s) = c) (remove_file p)"
    using assms by (auto simp: keeps_def remove_file_def io_def)
  moreover have "keeps (\<lambda>s. read_file q (n_fs s) = c) (modify (\<lambda>s. s\<lparr>n_migrate := f s\<rparr>))" for f
    by (simp add: keeps_def)
  ultimately show ?thesis
    unfolding migrate_segment_def Let_def
    by (intro keeps_rules keeps_prune_read keeps_io) simp_all
qed

lemma migrate_all_read:
  "q \<notin> set ps \<Longrightarrow> read_file q (n_fs (snd (migrate_all w cfg dir ps s))) = read_file q (n_fs s)"
proof (induction ps arbitrary: s)
  case (Cons p ps)
  then have "keeps (\<lambda>u. read_file q (n_fs u) = read_file q (n_fs s)) (migrate_segment w cfg dir p)"
    by (intro keeps_migrate_read) auto
  with Cons show ?case by (simp add: andthen_apply keeps_def)
qed simp

section \<open>Upload\<close>

text \<open>A sample configuration, and a store that accepts every upload.\<close>

definition sample_s3 :: node_s3_config where
  "sample_s3 = \<lparr>ns_endpoint = ''http://minio:9000'', ns_bucket = ''cams'', ns_key_id = ''id'',
     ns_secret_key = ''sec'', ns_region = ''us-east-1'', ns_path_style = True\<rparr>"

definition accepted :: http_response where
  "accepted = \<lparr>rs_status = 200, rs_headers = [], rs_body = []\<rparr>"

definition s3_node_ext :: node_ext where
  "s3_node_ext = sample_node_ext\<lparr>env := sample_ext\<lparr>http := \<lambda>r. Some accepted\<rparr>\<rparr>"

lemma s3_node_ext_simps [simp]:
  "http (env s3_node_ext) r = Some accepted" "parse_stamp s3_node_ext = parse_stamp sample_node_ext"
  "rs_status accepted = 200"
  by (simp_all add: s3_node_ext_def accepted_def)

lemma sample_old_file:
  "read_file (recordings_dir sample_config @ [''door'', ''19700101_000100.mp4'']) (n_fs sample_node_app) = Some ''old''"
  "parse_stamp sample_node_ext (fst (split_ext ''19700101_000100.mp4'')) = Some (seconds 60)"
  "n_io sample_node_app = []" "n_migrate sample_node_app = []"
  by (simp_all add: read_file_def split_ext_def sample_node_defs)

lemma migrate_segment_flat:
  assumes "n_io s = []" and "parse_stamp w (fst (split_ext name)) = Some started"
    and "CHR 0x5C \<notin> set sp" and "CHR 0x5C \<notin> set name"
    and "read_file (dir @ [sp, name]) (n_fs s) = Some body"
  shows "migrate_segment w cfg dir (dir @ [sp, name]) s =
    (case http (env w) (s3_put w cfg (sp @ ''/'' @ name) body) of
       None \<Rightarrow> (Inl Http_failed, s)
     | Some resp \<Rightarrow>
         if 200 \<le> rs_status resp \<and> rs_status resp < 300
         then (Inr (), s\<lparr>n_fs := drop_segment (dir @ [sp, name]) (n_fs s),
           n_migrate := n_migrate s @
             [\<lparr>sm_recording_id = uuid5 w (''local://'' @ sp @ ''/'' @ name), sm_started_at = started,
               sm_storage_uri = ''s3://'' @ ns_bucket cfg @ ''/'' @ sp @ ''/'' @ name\<rparr>]\<rparr>)
         else (Inl (Put_failed (rs_status resp)), s))"
proof -
  have id: "CHR 0x5C \<notin> set x \<Longrightarrow> replace_char CHR 0x5C ''/'' x = x" for x
    by (induction x) auto
  show ?thesis
  proof (cases "http (env w) (s3_put w cfg (sp @ ''/'' @ name) body)")
    case None
    then show ?thesis
      using assms by (simp add: migrate_segment_def prog_simps Let_def id)
  next
    case (Some resp)
    let ?p = "dir @ [sp, name]"
    let ?m = "\<lparr>sm_recording_id = uuid5 w (''local://'' @ sp @ ''/'' @ name), sm_started_at = started,
               sm_storage_uri = ''s3://'' @ ns_bucket cfg @ ''/'' @ sp @ ''/'' @ name\<rparr>"
    let ?s = "s\<lparr>n_migrate := n_migrate s @ [?m]\<rparr>"
    have rm: "remove_file ?p ?s = (Inr (), on_fs (unlink ?p) ?s)"
      using assms(1,5) by (intro remove_file_ok) simp_all
    have "prune ?p (on_fs (unlink ?p) ?s) = (Inr (), on_fs (prune_dirs ?p) (on_fs (unlink ?p) ?s))"
      using assms(1) by (intro prune_ok) simp
    with Some assms rm show ?thesis
      by (simp add: migrate_segment_def prog_simps Let_def id on_fs_def drop_segment_def)
  qed
qed

text \<open>
  C9. Recorder and migration agree: take the segment the recorder reports for a file. When the
  upload of the file, a \<open>PUT\<close> of its content to the object named by stream path and file name,
  is answered with a success, the node queues exactly one notice, and it carries the id and the
  start of that segment; the local file is removed and every other file is kept. The
  coordinator, on that notice, gives the segment's row the URI of the uploaded object and keeps
  every other row. When the upload fails in any way, nothing changes.
\<close>

theorem migration_follows_recording:
  assumes "n_io s = []" and "closed_segment w cfg s sp name = Some e"
    and "CHR 0x5C \<notin> set sp" and "CHR 0x5C \<notin> set name"
    and "read_file (recordings_dir cfg @ [sp, name]) (n_fs s) = Some body"
    and "migrate_segment w s3 (recordings_dir cfg) (recordings_dir cfg @ [sp, name]) s = (r, t)"
    and "http (env w) (s3_put w s3 (sp @ ''/'' @ name) body) = answer"
    and "faults d = []" and "db_ok (db d)"
    and "find (\<lambda>r. rec_key r = segment_key e) (recordings (db d)) = Some row"
  shows "if \<exists>v. answer = Some v \<and> 200 \<le> rs_status v \<and> rs_status v < 300
    then \<exists>m d'. r = Inr () \<and> n_migrate t = n_migrate s @ [m] \<and>
      (\<forall>p. read_file p (n_fs t) =
         (if p = recordings_dir cfg @ [sp, name] then None else read_file p (n_fs s))) \<and>
      handle_incoming x n (Some (SegmentMigrated q m)) d = (Inr (), d') \<and>
      (\<forall>k. find (\<lambda>r. rec_key r = k) (recordings (db d')) =
         (if k = segment_key e
          then Some (row\<lparr>rec_storage_uri := ''s3://'' @ ns_bucket s3 @ ''/'' @ sp @ ''/'' @ name\<rparr>)
          else find (\<lambda>r. rec_key r = k) (recordings (db d))))
    else (\<exists>err. r = Inl err) \<and> t = s"
proof -
  let ?uri = "''s3://'' @ ns_bucket s3 @ ''/'' @ sp @ ''/'' @ name"
  let ?p = "recordings_dir cfg @ [sp, name]"
  from assms(2) obtain c st where e: "parse_stamp w (fst (split_ext name)) = Some st"
    "e = flat_segment w (n_fs s) c (recordings_dir cfg) sp name st"
    by (auto simp: closed_segment_def bind_eq_Some_conv split: if_splits)
  note run = migrate_segment_flat [OF assms(1) e(1) assms(3,4,5), of s3]
  show ?thesis
  proof (cases "\<exists>v. answer = Some v \<and> 200 \<le> rs_status v \<and> rs_status v < 300")
    case True
    let ?m = "\<lparr>sm_recording_id = seg_id e, sm_started_at = seg_started_at e, sm_storage_uri = ?uri\<rparr>"
    from True run assms(6,7) have t: "r = Inr ()"
      "t = s\<lparr>n_fs := drop_segment ?p (n_fs s), n_migrate := n_migrate s @ [?m]\<rparr>"
      by (auto simp: e(2) flat_segment_def)
    have key: "(sm_recording_id ?m, sm_started_at ?m) = segment_key e" by (simp add: segment_key_def)
    obtain d' where h: "handle_incoming x n (Some (SegmentMigrated q ?m)) d = (Inr (), d')"
      "\<forall>k. find (\<lambda>r. rec_key r = k) (recordings (db d')) =
         (if k = segment_key e then Some (row\<lparr>rec_storage_uri := ?uri\<rparr>)
          else find (\<lambda>r. rec_key r = k) (recordings (db d)))"
      using migrated_lookup [OF assms(8-10) key, of x n q] by auto
    have "\<forall>p. read_file p (n_fs t) = (if p = ?p then None else read_file p (n_fs s))"
      by (simp add: t)
    with True t h show ?thesis by (auto intro!: exI [of _ ?m])
  next
    case False
    with run assms(6,7) have "(\<exists>err. r = Inl err) \<and> t = s"
      by (cases answer) (auto split: if_splits)
    with False show ?thesis by (simp only: if_False)
  qed
qed

theorem migration_follows_recording_witness:
  "\<exists>t m d d'. migrate_segment s3_node_ext sample_s3 (recordings_dir sample_config)
       (recordings_dir sample_config @ [''door'', ''19700101_000100.mp4'']) sample_node_app = (Inr (), t) \<and>
     n_migrate t = [m] \<and>
     handle_incoming sample_ext 20 (Some (SegmentMigrated 1 m)) d = (Inr (), d') \<and>
     map rec_storage_uri (filter (\<lambda>r. rec_id r = 60) (recordings (db d))) =
       [''local://door/19700101_000100.mp4''] \<and>
     map_option rec_storage_uri (find (\<lambda>r. rec_key r = (60, seconds 60)) (recordings (db d'))) =
       Some ''s3://cams/door/19700101_000100.mp4''"
proof -
  let ?n = sample_node_app and ?c = sample_config
  obtain r t where t: "migrate_segment s3_node_ext sample_s3 (recordings_dir ?c)
      (recordings_dir ?c @ [''door'', ''19700101_000100.mp4'']) ?n = (r, t)" by fastforce
  have seg: "closed_segment s3_node_ext ?c ?n ''door'' ''19700101_000100.mp4'' = Some sample_queued"
    by (simp add: closed_segment_def split_ext_def flat_segment_def file_size_def read_file_def
        sample_node_defs s3_node_ext_def seconds_def)
  have key: "segment_key sample_queued = (60, seconds 60)"
    by (simp add: segment_key_def sample_queued_def)
  have new: "(seg_id sample_queued, seg_started_at sample_queued) \<notin> rec_key ` set (recordings (db sample_app))"
    by (simp add: sample_queued_def sample_recording_def rec_key_def)
  let ?row = "segment_row 20 sample_queued (segment_policy (seg_camera_id sample_queued) (db sample_app))"
  let ?d = "sample_app\<lparr>db := (db sample_app)\<lparr>recordings := recordings (db sample_app) @ [?row]\<rparr>\<rparr>"
  have i: "index_segment 20 sample_queued sample_app = (Inr (), ?d)"
    using index_segment_runs [of sample_app 20 sample_queued] new by simp
  then have ok: "db_ok (db ?d)"
    using keepsD [OF sound.keeps_index_segment, of sample_app 20 sample_queued] by simp
  have row: "find (\<lambda>r. rec_key r = segment_key sample_queued) (recordings (db ?d)) = Some ?row"
    unfolding key by (simp add: sample_recording_def rec_key_def segment_row_def sample_queued_def)
  have f: "faults ?d = []" by simp
  from migration_follows_recording [OF sample_old_file(3) seg _ _ sample_old_file(1) t _ f ok row,
      of "Some accepted" sample_ext 20 1] obtain m d' where
    m: "r = Inr ()" "n_migrate t = n_migrate ?n @ [m]"
      "handle_incoming sample_ext 20 (Some (SegmentMigrated 1 m)) ?d = (Inr (), d')"
      "\<forall>k. find (\<lambda>r. rec_key r = k) (recordings (db d')) =
         (if k = segment_key sample_queued
          then Some (?row\<lparr>rec_storage_uri := ''s3://'' @ ns_bucket sample_s3 @ ''/'' @ ''door'' @ ''/'' @ ''19700101_000100.mp4''\<rparr>)
          else find (\<lambda>r. rec_key r = k) (recordings (db ?d)))" by auto
  have "map rec_storage_uri (filter (\<lambda>r. rec_id r = 60) (recordings (db ?d))) =
      [''local://door/19700101_000100.mp4'']"
    by (simp add: sample_recording_def segment_row_def sample_queued_def)
  moreover have "map_option rec_storage_uri (find (\<lambda>r. rec_key r = (60, seconds 60)) (recordings (db d'))) =
      Some ''s3://cams/door/19700101_000100.mp4''"
    using m(4) key by (simp add: sample_s3_def)
  moreover have "migrate_segment s3_node_ext sample_s3 (recordings_dir ?c)
      (recordings_dir ?c @ [''door'', ''19700101_000100.mp4'']) ?n = (Inr (), t)" "n_migrate t = [m]"
    using t m(1,2) sample_old_file(4) by simp_all
  ultimately show ?thesis using m(3)
    by (intro exI [of _ t] exI [of _ m] exI [of _ ?d] exI [of _ d'] conjI)
qed

text \<open>
  C19. A notice that cannot be sent is lost for good: when the send of \<open>SegmentMigrated\<close> fails,
  the socket task goes on without an error; the notice is in no channel any more and was not
  sent, and the local file it was for is gone already. The row keeps its \<open>local://\<close> URI, which
  no file answers to, and no later scan meets the segment again.
\<close>

theorem migration_notice_lost:
  assumes "n_io s = []" and "n_migrate s = []" and "parse_stamp w (fst (split_ext name)) = Some started"
    and "CHR 0x5C \<notin> set sp" and "CHR 0x5C \<notin> set name"
    and "read_file (recordings_dir cfg @ [sp, name]) (n_fs s) = Some body"
    and "http (env w) (s3_put w s3 (sp @ ''/'' @ name) body) = Some answer"
    and "200 \<le> rs_status answer" and "rs_status answer < 300"
    and "migrate_segment w s3 (recordings_dir cfg) (recordings_dir cfg @ [sp, name]) s = (r, t)"
    and "client_step w cfg ident hw Migrate_ready (t\<lparr>n_io := [True]\<rparr>) = (r', u)"
  shows "r = Inr () \<and> r' = Inr True \<and> n_migrate u = [] \<and> n_sent u = n_sent s \<and>
    read_file (recordings_dir cfg @ [sp, name]) (n_fs u) = None \<and>
    recordings_dir cfg @ [sp, name] \<notin> set (migrate_candidates w' (recordings_dir cfg) (n_fs u))"
proof -
  let ?p = "recordings_dir cfg @ [sp, name]"
  have t: "r = Inr ()" "n_fs t = drop_segment ?p (n_fs s)" "n_sent t = n_sent s"
    "\<exists>m. n_migrate t = [m]"
    using assms migrate_segment_flat [OF assms(1,3-6), of s3] by auto
  then obtain m where "n_migrate t = [m]" by blast
  with assms(11) have u: "r' = Inr True" "n_migrate u = []" "n_sent u = n_sent t" "n_fs u = n_fs t"
    by (auto simp: andthen_apply next_seq_apply sink_send_def io_def)
  have gone: "read_file ?p (n_fs u) = None" by (simp add: u(4) t(2))
  have "?p \<notin> set (map fst (mp4_files (recordings_dir cfg) (n_fs u)))"
    using gone mp4_file_exists [of ?p "recordings_dir cfg" "n_fs u"] unfolding set_map by blast
  then have "?p \<notin> set (migrate_candidates w' (recordings_dir cfg) (n_fs u))"
    by (simp only: migrate_candidates_def set_filter mem_Collect_eq simp_thms)
  with gone show ?thesis using t u by simp
qed

theorem migration_notice_lost_witness:
  "\<exists>t u. migrate_segment s3_node_ext sample_s3 (recordings_dir sample_config)
       (recordings_dir sample_config @ [''door'', ''19700101_000100.mp4'']) sample_node_app = (Inr (), t) \<and>
     n_migrate t \<noteq> [] \<and>
     client_step s3_node_ext sample_config \<lparr>ni_node_id = 20, ni_api_key = ''k''\<rparr>
       \<lparr>cpu_cores = 1, cpu_model = [], ram_total_mb = 0, ram_available_mb = 0, hw_accel = []\<rparr>
       Migrate_ready (t\<lparr>n_io := [True]\<rparr>) = (Inr True, u) \<and>
     n_migrate u = [] \<and> n_sent u = []"
proof -
  let ?c = sample_config and ?n = sample_node_app
  let ?id = "\<lparr>ni_node_id = 20, ni_api_key = ''k''\<rparr>"
  let ?hw = "\<lparr>cpu_cores = 1, cpu_model = [], ram_total_mb = 0, ram_available_mb = 0, hw_accel = []\<rparr>"
  obtain r t where t: "migrate_segment s3_node_ext sample_s3 (recordings_dir ?c)
      (recordings_dir ?c @ [''door'', ''19700101_000100.mp4'']) ?n = (r, t)" by fastforce
  obtain r' u where u: "client_step s3_node_ext ?c ?id ?hw Migrate_ready (t\<lparr>n_io := [True]\<rparr>) = (r', u)"
    by fastforce
  have st: "parse_stamp s3_node_ext (fst (split_ext ''19700101_000100.mp4'')) = Some (seconds 60)"
    using sample_old_file(2) by simp
  have "r = Inr () \<and> r' = Inr True \<and> n_migrate u = [] \<and> n_sent u = n_sent ?n"
    using migration_notice_lost [OF sample_old_file(3,4) st _ _ sample_old_file(1) _ _ _ t u] by simp
  moreover have "n_migrate t \<noteq> []"
    using migrate_segment_flat [OF sample_old_file(3) st _ _ sample_old_file(1), of sample_s3] t by auto
  moreover have "n_sent ?n = []" by (simp add: sample_node_defs)
  ultimately show ?thesis using t u by auto
qed

text \<open>
  The last segment takes the recordings directory with it, and with the directory the watch the
  recorder holds on it: the pruning climbs two levels above a file that lies only one level
  below.
\<close>

lemma migration_prunes_root:
  assumes "n_io s = []" and "fs_files (n_fs s) = [(dir @ [sp, name], x)]"
    and "fs_dirs (n_fs s) = [dir, dir @ [sp]]" and "dir \<noteq> []"
    and "parse_stamp w (fst (split_ext name)) = Some started"
    and "CHR 0x5C \<notin> set sp" and "CHR 0x5C \<notin> set name"
    and "http (env w) (s3_put w s3 (sp @ ''/'' @ name) (content x)) = Some answer"
    and "200 \<le> rs_status answer" and "rs_status answer < 300"
    and "migrate_segment w s3 dir (dir @ [sp, name]) s = (r, t)"
  shows "r = Inr () \<and> fs_dirs (n_fs t) = []"
proof -
  have "read_file (dir @ [sp, name]) (n_fs s) = Some (content x)"
    by (simp add: read_file_def assms(2))
  from migrate_segment_flat [OF assms(1,5,6,7) this, of s3] assms
  have t: "r = Inr ()" "n_fs t = drop_segment (dir @ [sp, name]) (n_fs s)" by auto
  have "length (butlast dir) \<noteq> length dir" using assms(4) by (cases dir) auto
  then have "butlast dir \<noteq> dir" by metis
  then have p: "parent (dir @ [sp, name]) = Some (dir @ [sp])" "parent (dir @ [sp]) = Some dir"
    "parent dir \<noteq> Some (dir @ [sp])" "parent dir \<noteq> Some dir"
    by (auto simp: parent_def butlast_append dest: arg_cong [where f = length])
  show ?thesis
    using assms(2-4) p t
    by (simp add: drop_segment_def prune_dirs_def unlink_def rmdir_def dir_empty_def)
qed

end
