(* ===== verification/NodeEvents.thy ===== *)
theory NodeEvents
  imports NodeState SegmentQueue
begin

text \<open>
  Motion detection on the node: the manager of the per-camera tasks (\<open>node/src/events/mod.rs\<close>),
  the detection by frame difference (\<open>node/src/events/diff.rs\<close>) and by ONVIF events
  (\<open>node/src/events/onvif.rs\<close>).
\<close>

section \<open>The manager\<close>

text \<open>
  A task: the handle and the fingerprint the manager stores, with what the spawned task has
  moved into it, the copy of the camera and the kind of detection.
\<close>

datatype detector = Onvif_task | Diff_task

record camera_task =
  ct_sig :: string
  ct_cam :: node_camera_cfg
  ct_kind :: detector

definition task_sig :: "node_camera_cfg \<Rightarrow> string" where
  "task_sig cam =
     ncc_rtsp_url cam @ ''|'' @ (case ncc_onvif_url cam of None \<Rightarrow> ''diff'' | Some u \<Rightarrow> u)"

definition diff_capable :: "hardware_profile \<Rightarrow> bool" where
  "diff_capable hw \<longleftrightarrow> 2 \<le> cpu_cores hw \<or> hw_accel hw \<noteq> []"

definition watched :: "node_camera_cfg \<Rightarrow> bool" where
  "watched c \<longleftrightarrow> ncc_enabled c \<and> ncc_motion_detection c"

text \<open>\<open>collect\<close> into a map: a later entry replaces an earlier one.\<close>

definition wanted :: "node_camera_cfg list \<Rightarrow> uuid \<rightharpoonup> string" where
  "wanted list = map_of (rev (map (\<lambda>c. (ncc_id c, task_sig c)) (filter watched list)))"

definition retain_tasks :: "node_camera_cfg list \<Rightarrow> (uuid \<rightharpoonup> camera_task) \<Rightarrow> uuid \<rightharpoonup> camera_task" where
  "retain_tasks list running = (\<lambda>i.
     case running i of
       None \<Rightarrow> None
     | Some task \<Rightarrow> (if wanted list i = Some (ct_sig task) then Some task else None))"

text \<open>The task that is spawned for a camera, if any.\<close>

definition new_task :: "hardware_profile \<Rightarrow> node_camera_cfg \<Rightarrow> camera_task option" where
  "new_task hw cam =
     (if ncc_onvif_url cam \<noteq> None
      then Some \<lparr>ct_sig = task_sig cam, ct_cam = cam, ct_kind = Onvif_task\<rparr>
      else if diff_capable hw
      then Some \<lparr>ct_sig = task_sig cam, ct_cam = cam, ct_kind = Diff_task\<rparr>
      else None)"

definition start_task ::
  "hardware_profile \<Rightarrow> node_camera_cfg \<Rightarrow> (uuid \<rightharpoonup> camera_task) \<Rightarrow> uuid \<rightharpoonup> camera_task" where
  "start_task hw cam running =
     (if running (ncc_id cam) \<noteq> None then running
      else case new_task hw cam of
             None \<Rightarrow> running
           | Some task \<Rightarrow> running(ncc_id cam \<mapsto> task))"

definition reconcile ::
  "hardware_profile \<Rightarrow> node_camera_cfg list \<Rightarrow> (uuid \<rightharpoonup> camera_task) \<Rightarrow> uuid \<rightharpoonup> camera_task" where
  "reconcile hw list running =
     fold (start_task hw) (filter watched list) (retain_tasks list running)"

text \<open>The loop of \<open>run\<close>: a round every ten seconds, each on the list of that moment.\<close>

definition reconcile_rounds ::
  "hardware_profile \<Rightarrow> node_camera_cfg list list \<Rightarrow> (uuid \<rightharpoonup> camera_task) \<Rightarrow> uuid \<rightharpoonup> camera_task" where
  "reconcile_rounds hw snapshots running = fold (reconcile hw) snapshots running"

section \<open>Frame difference\<close>

text \<open>A frame is its bytes; the score, an \<open>f32\<close> in the source, is a rational.\<close>

type_synonym frame = "8 word list"

definition frame_bytes :: nat where
  "frame_bytes = 160 * 90"

definition threshold :: rat where
  "threshold = 2 / 100"

definition cooldown :: time where
  "cooldown = seconds 10"

definition frame_diff :: "frame \<Rightarrow> frame \<Rightarrow> rat" where
  "frame_diff a b =
     of_int (sum_list (map (\<lambda>(x, y). \<bar>uint x - uint y\<bar>) (zip a b))) /
     (of_nat frame_bytes * 255)"

text \<open>
  The loop of \<open>diff_loop\<close> over the frames read, each with the instant and the wall clock time at
  which it is handled; \<open>last\<close> is the instant of the last event.
\<close>

record diff_state =
  prev_frame :: frame
  is_first :: bool
  last_event :: time

fun diff_frames ::
  "node_camera_cfg \<Rightarrow> diff_state \<Rightarrow> (frame \<times> time \<times> time) list \<Rightarrow> (time \<times> event_payload) list" where
  "diff_frames cam st [] = []"
| "diff_frames cam st ((cur, now, utc) # fs) =
     (let score = frame_diff (prev_frame st) cur;
          fire = \<not> is_first st \<and> threshold \<le> score \<and> cooldown \<le> now - last_event st
      in (if fire
          then [(now, \<lparr>ep_camera_id = ncc_id cam, ep_occurred_at = utc, ep_source = ''diff'',
                       ep_score = Some score\<rparr>)]
          else []) @
         diff_frames cam
           \<lparr>prev_frame = cur, is_first = False,
            last_event = (if fire then now else last_event st)\<rparr> fs)"

definition diff_start :: "time \<Rightarrow> diff_state" where
  "diff_start now =
     \<lparr>prev_frame = replicate frame_bytes 0, is_first = True, last_event = now - cooldown * 2\<rparr>"

section \<open>ONVIF\<close>

text \<open>
  \<open>&xml[pos..end]\<close> panics where \<open>end\<close> is inside a UTF-8 sequence: the byte there is a
  continuation byte. \<open>has_motion\<close> is \<open>None\<close> where the source panics.
\<close>

definition is_boundary :: "string \<Rightarrow> nat \<Rightarrow> bool" where
  "is_boundary s i \<longleftrightarrow>
     i = 0 \<or> i = length s \<or>
     i < length s \<and> ((of_char (s ! i) :: nat) < 128 \<or> 192 \<le> (of_char (s ! i) :: nat))"

definition has_motion :: "string \<Rightarrow> bool option" where
  "has_motion xml =
     (case find_str ''IsMotion'' xml of
        None \<Rightarrow> Some False
      | Some pos \<Rightarrow>
          let end_pos = min (pos + 80) (length xml) in
          if is_boundary xml end_pos
          then let window = take (end_pos - pos) (drop pos xml)
               in Some (contains_str ''true'' window \<or> contains_str ''>1<'' window)
          else None)"

text \<open>The text of the first \<open><tag>..</tag>\<close>.\<close>

definition extract_tag :: "string \<Rightarrow> string \<Rightarrow> string option" where
  "extract_tag xml tag =
     (let open_tag = ''<'' @ tag @ ''>''; close_tag = ''</'' @ tag @ ''>'' in
      Option.bind (find_str open_tag xml) (\<lambda>i.
      let start = i + length open_tag in
      Option.bind (find_str close_tag (drop start xml)) (\<lambda>j.
      Some (trim (take j (drop start xml))))))"

text \<open>The raw strings of the source, with their line breaks and indentation.\<close>

definition spaces :: "nat \<Rightarrow> string" where
  "spaces n = replicate n CHR '' ''"

definition soap_envelope :: "string \<Rightarrow> string \<Rightarrow> string \<Rightarrow> string" where
  "soap_envelope user password body =
     (let security =
        if user \<noteq> [] then
          ''<s:Header>'' @ nl @ spaces 15 @
          ''<wsse:Security xmlns:wsse='' @ [CHR 0x22] @
          ''http://docs.oasis-open.org/wss/2004/01/oasis-200401-wss-wssecurity-secext-1.0.xsd'' @
          [CHR 0x22] @ ''>'' @ nl @ spaces 17 @
          ''<wsse:UsernameToken>'' @ nl @ spaces 19 @
          ''<wsse:Username>'' @ user @ ''</wsse:Username>'' @ nl @ spaces 19 @
          ''<wsse:Password>'' @ password @ ''</wsse:Password>'' @ nl @ spaces 17 @
          ''</wsse:UsernameToken>'' @ nl @ spaces 15 @
          ''</wsse:Security>'' @ nl @ spaces 13 @ ''</s:Header>''
        else ''<s:Header/>''
      in ''<?xml version='' @ [CHR 0x22] @ ''1.0'' @ [CHR 0x22] @ '' encoding='' @ [CHR 0x22] @
         ''UTF-8'' @ [CHR 0x22] @ ''?>'' @ nl @
         ''<s:Envelope xmlns:s='' @ [CHR 0x22] @ ''http://www.w3.org/2003/05/soap-envelope'' @
         [CHR 0x22] @ ''>'' @ nl @
         ''  '' @ security @ nl @
         ''  <s:Body>'' @ body @ ''</s:Body>'' @ nl @ ''</s:Envelope>'')"

definition create_subscription :: string where
  "create_subscription =
     ''<tev:CreatePullPointSubscription xmlns:tev='' @ [CHR 0x22] @
     ''http://www.onvif.org/ver10/events/wsdl'' @ [CHR 0x22] @ ''>'' @ nl @ spaces 13 @
     ''<tev:InitialTerminationTime>PT600S</tev:InitialTerminationTime>'' @ nl @ spaces 11 @
     ''</tev:CreatePullPointSubscription>''"

definition renew_subscription :: string where
  "renew_subscription =
     ''<wsnt:Renew xmlns:wsnt='' @ [CHR 0x22] @ ''http://docs.oasis-open.org/wsn/b-2'' @
     [CHR 0x22] @ ''>'' @ nl @ spaces 21 @
     ''<wsnt:TerminationTime>PT600S</wsnt:TerminationTime>'' @ nl @ spaces 19 @ ''</wsnt:Renew>''"

definition pull_messages :: string where
  "pull_messages =
     ''<tev:PullMessages xmlns:tev='' @ [CHR 0x22] @ ''http://www.onvif.org/ver10/events/wsdl'' @
     [CHR 0x22] @ ''>'' @ nl @ spaces 17 @
     ''<tev:Timeout>PT3S</tev:Timeout>'' @ nl @ spaces 17 @
     ''<tev:MessageLimit>10</tev:MessageLimit>'' @ nl @ spaces 15 @ ''</tev:PullMessages>''"

definition soap_post :: "string \<Rightarrow> string \<Rightarrow> http_request" where
  "soap_post url body =
     \<lparr>rq_method = ''POST'', rq_url = url,
      rq_headers = [(''Content-Type'', ''application/soap+xml; charset=utf-8'')], rq_body = body\<rparr>"

text \<open>
  One round of the polling loop at an instant: the renewal when it is due, then the pull. The
  task goes on, leaves with an error, or dies of a panic.
\<close>

record onvif_state =
  last_motion :: time
  last_renew :: time

datatype onvif_outcome = Polling onvif_state | Poll_failed | Panicked

definition renew_interval :: time where
  "renew_interval = seconds 480"

definition onvif_round ::
  "uuid \<Rightarrow> string \<Rightarrow> string \<Rightarrow> string \<Rightarrow> ext \<Rightarrow> time \<Rightarrow> onvif_state \<Rightarrow>
     onvif_outcome \<times> (time \<times> event_payload) list" where
  "onvif_round cam sub_addr user password w now st =
     (let renewed =
        (if renew_interval \<le> now - last_renew st \<and>
            http w (soap_post sub_addr (soap_envelope user password renew_subscription)) \<noteq> None
         then st\<lparr>last_renew := now\<rparr> else st)
      in case http w (soap_post sub_addr (soap_envelope user password pull_messages)) of
           None \<Rightarrow> (Poll_failed, [])
         | Some r \<Rightarrow>
             (case has_motion (rs_body r) of
                None \<Rightarrow> (Panicked, [])
              | Some motion \<Rightarrow>
                  if motion \<and> cooldown \<le> now - last_motion renewed
                  then (Polling (renewed\<lparr>last_motion := now\<rparr>),
                    [(now, \<lparr>ep_camera_id = cam, ep_occurred_at = utc_now w,
                            ep_source = ''onvif'', ep_score = None\<rparr>)])
                  else (Polling renewed, [])))"

text \<open>
  The rounds of one subscription from an instant on: each takes its time until it asks for the
  instant, and the loop sleeps between two. The last component is the instant it has got to.
\<close>

definition poll_interval :: time where
  "poll_interval = seconds 3"

fun onvif_rounds ::
  "uuid \<Rightarrow> string \<Rightarrow> string \<Rightarrow> string \<Rightarrow> time \<Rightarrow> (ext \<times> nat) list \<Rightarrow> onvif_state \<Rightarrow>
     onvif_outcome \<times> (time \<times> event_payload) list \<times> time" where
  "onvif_rounds cam addr user password t [] st = (Polling st, [], t)"
| "onvif_rounds cam addr user password t ((w, d) # rs) st =
     (case onvif_round cam addr user password w (t + int d) st of
        (Polling st', es) \<Rightarrow>
          (let (out, es', u) =
             onvif_rounds cam addr user password (t + int d + poll_interval) rs st'
           in (out, es @ es', u))
      | (out, es) \<Rightarrow> (out, es, t + int d))"

definition subscribe_and_poll ::
  "uuid \<Rightarrow> string \<Rightarrow> string \<Rightarrow> string \<Rightarrow> ext \<Rightarrow> time \<Rightarrow> (ext \<times> nat) list \<Rightarrow>
     onvif_outcome \<times> (time \<times> event_payload) list \<times> time" where
  "subscribe_and_poll cam event_url user password w now rounds =
     (case http w (soap_post event_url (soap_envelope user password create_subscription)) of
        None \<Rightarrow> (Poll_failed, [], now)
      | Some r \<Rightarrow>
          (case extract_tag (rs_body r) ''Address'' of
             None \<Rightarrow> (Poll_failed, [], now)
           | Some sub_addr \<Rightarrow>
               onvif_rounds cam sub_addr user password now rounds
                 \<lparr>last_motion = now - cooldown * 2, last_renew = now\<rparr>))"

text \<open>
  \<open>run\<close> from an instant on: each attempt to subscribe takes its time; after an error the task
  sleeps 15 seconds and subscribes again, and a panic ends the task.
\<close>

fun onvif_run ::
  "node_camera_cfg \<Rightarrow> time \<Rightarrow> (ext \<times> nat \<times> (ext \<times> nat) list) list \<Rightarrow>
     bool \<times> (time \<times> event_payload) list" where
  "onvif_run cam t [] = (True, [])"
| "onvif_run cam t ((w, d, rounds) # ss) =
     (let url = (case ncc_onvif_url cam of None \<Rightarrow> [] | Some u \<Rightarrow> u);
          user = (case ncc_onvif_username cam of None \<Rightarrow> [] | Some u \<Rightarrow> u);
          password = (case ncc_onvif_password cam of None \<Rightarrow> [] | Some p \<Rightarrow> p)
      in case subscribe_and_poll (ncc_id cam) url user password w (t + int d) rounds of
           (Panicked, es, _) \<Rightarrow> (False, es)
         | (Polling _, es, _) \<Rightarrow> (True, es)
         | (Poll_failed, es, u) \<Rightarrow>
             (let (alive, es') = onvif_run cam (u + seconds 15) ss in (alive, es @ es')))"

section \<open>The manager follows the list\<close>

lemma map_of_rev: "distinct (map fst xs) \<Longrightarrow> map_of (rev xs) = map_of xs"
proof (induction xs)
  case (Cons p xs)
  have "fst p \<notin> dom (map_of xs)" using Cons.prems by (simp add: dom_map_of_conv_image_fst)
  then have "map_of [p] ++ map_of xs = map_of (p # xs)"
    by (cases p) (auto simp: fun_eq_iff map_add_def split: option.split)
  with Cons show ?case by simp
qed simp

lemma wanted_iff:
  assumes "distinct (map ncc_id list)"
  shows "wanted list i =
    (case find (\<lambda>c. ncc_id c = i) list of
       None \<Rightarrow> None
     | Some c \<Rightarrow> if watched c then Some (task_sig c) else None)"
proof -
  have "distinct (map fst (map (\<lambda>c. (ncc_id c, task_sig c)) (filter watched list)))"
    using distinct_map_filter [OF assms] by (simp add: comp_def)
  then have "wanted list i = map_of (map (\<lambda>c. (ncc_id c, task_sig c)) (filter watched list)) i"
    unfolding wanted_def by (simp only: map_of_rev)
  also have "\<dots> = (case find (\<lambda>c. ncc_id c = i) list of
       None \<Rightarrow> None | Some c \<Rightarrow> if watched c then Some (task_sig c) else None)"
    using assms by (induction list) (auto simp: map_of_eq_None_iff split: option.split dest!: find_key_Some)
  finally show ?thesis .
qed

lemma start_tasks:
  assumes "distinct (map ncc_id cs)"
  shows "fold (start_task hw) cs r i =
    (case r i of
       Some t \<Rightarrow> Some t
     | None \<Rightarrow> Option.bind (find (\<lambda>c. ncc_id c = i) cs) (new_task hw))"
  using assms
proof (induction cs arbitrary: r)
  case Nil
  then show ?case by (simp split: option.split)
next
  case (Cons c cs)
  then have "find (\<lambda>d. ncc_id d = ncc_id c) cs = None" by (simp add: find_None_key)
  with Cons show ?case by (auto simp: start_task_def split: option.split)
qed

lemma find_watched:
  assumes "distinct (map ncc_id list)"
  shows "find (\<lambda>c. ncc_id c = j) (filter watched list) =
    (case find (\<lambda>c. ncc_id c = j) list of
       None \<Rightarrow> None | Some c \<Rightarrow> if watched c then Some c else None)"
  using assms by (induction list) (auto simp: find_None_iff split: option.split dest!: find_key_Some)

lemma reconcile_at:
  assumes "distinct (map ncc_id list)"
  shows "reconcile hw list r j =
    (case find (\<lambda>c. ncc_id c = j) list of
       None \<Rightarrow> None
     | Some c \<Rightarrow>
         if \<not> watched c then None
         else case r j of
                Some t \<Rightarrow> if ct_sig t = task_sig c then Some t else new_task hw c
              | None \<Rightarrow> new_task hw c)"
  unfolding reconcile_def start_tasks [OF distinct_map_filter [OF assms]] find_watched [OF assms]
    retain_tasks_def wanted_iff [OF assms]
  by (auto split: option.split)

lemma reconcile_keeps:
  assumes "distinct (map ncc_id list)" and "find (\<lambda>c. ncc_id c = i) list = Some c" and "watched c"
    and "running i = Some t" and "ct_sig t = task_sig c"
  shows "reconcile hw list running i = Some t"
  using assms by (simp add: reconcile_at)

text \<open>
  C13. The manager's tasks follow the camera list, but only as far as the fingerprint goes:
  after a round a camera is watched exactly when it is in the list, enabled, with motion
  detection and within the node's means; a task that was running is kept when RTSP and ONVIF
  address are unchanged and replaced by one with the new configuration when not; tasks of other
  cameras are stopped. A second round on the same list changes nothing. Hence a task whose
  camera gets new ONVIF credentials goes on with the copy it was started with.
\<close>

theorem reconcile_exact:
  assumes "distinct (map ncc_id list)"
  shows "reconcile hw list running i =
      (case find (\<lambda>c. ncc_id c = i) list of
         None \<Rightarrow> None
       | Some c \<Rightarrow>
           if \<not> watched c then None
           else case running i of
                  Some t \<Rightarrow> if ct_sig t = task_sig c then Some t else new_task hw c
                | None \<Rightarrow> new_task hw c) \<and>
    reconcile hw list (reconcile hw list running) = reconcile hw list running \<and>
    (\<forall>c t user password. find (\<lambda>c. ncc_id c = i) list =
         Some (c\<lparr>ncc_onvif_username := user, ncc_onvif_password := password\<rparr>) \<longrightarrow>
       watched c \<longrightarrow> running i = Some t \<longrightarrow> ct_sig t = task_sig c \<longrightarrow>
       reconcile hw list running i = Some t)"
proof -
  note spec = reconcile_at [OF assms, of hw]
  have sig: "new_task hw c = Some t \<Longrightarrow> ct_sig t = task_sig c" for c t
    by (auto simp: new_task_def split: if_splits)
  have "reconcile hw list (reconcile hw list running) j = reconcile hw list running j" for j
    unfolding spec by (auto split: option.split dest: sig)
  then have idem: "reconcile hw list (reconcile hw list running) = reconcile hw list running" by blast
  have "reconcile hw list running i = Some t"
    if "find (\<lambda>c. ncc_id c = i) list = Some (c\<lparr>ncc_onvif_username := user, ncc_onvif_password := password\<rparr>)"
      "watched c" "running i = Some t" "ct_sig t = task_sig c" for c t user password
    using that by (simp add: spec watched_def task_sig_def)
  with spec idem show ?thesis by blast
qed

theorem reconcile_exact_witness:
  "let hw = \<lparr>cpu_cores = 2, cpu_model = ''x'', ram_total_mb = 0, ram_available_mb = 0, hw_accel = []\<rparr>;
       new = sample_cam_cfg\<lparr>ncc_onvif_password := Some ''new''\<rparr>;
       old = \<lparr>ct_sig = task_sig sample_cam_cfg, ct_cam = sample_cam_cfg, ct_kind = Diff_task\<rparr>
   in reconcile hw [new] [30 \<mapsto> old, 31 \<mapsto> old] 30 = Some old \<and>
      reconcile hw [new] [30 \<mapsto> old, 31 \<mapsto> old] 31 = None"
  using reconcile_exact [of "[sample_cam_cfg\<lparr>ncc_onvif_password := Some ''new''\<rparr>]" _ _ 30]
    reconcile_exact [of "[sample_cam_cfg\<lparr>ncc_onvif_password := Some ''new''\<rparr>]" _ _ 31]
  by (simp add: Let_def watched_def task_sig_def sample_cam_cfg_def)

section \<open>Rate of events\<close>

text \<open>Two consecutive events are at least the cooldown apart.\<close>

fun spaced :: "time \<Rightarrow> (time \<times> 'e) list \<Rightarrow> bool" where
  "spaced t [] = True"
| "spaced t ((u, e) # es) \<longleftrightarrow> cooldown \<le> u - t \<and> spaced u es"

lemma diff_frames_spaced: "spaced (last_event st) (diff_frames cam st fs)"
proof (induction fs arbitrary: st)
  case (Cons f fs)
  obtain cur now utc where f: "f = (cur, now, utc)" by (cases f) auto
  from Cons [of "\<lparr>prev_frame = cur, is_first = False, last_event = now\<rparr>"]
    Cons [of "\<lparr>prev_frame = cur, is_first = False, last_event = last_event st\<rparr>"]
  show ?case by (simp add: f Let_def)
qed simp

lemma onvif_round_cases:
  assumes "onvif_round cam addr user password w now st = (out, es)"
  shows "(es = [] \<and> (\<forall>st'. out = Polling st' \<longrightarrow> last_motion st' = last_motion st)) \<or>
    (\<exists>e st'. es = [(now, e)] \<and> cooldown \<le> now - last_motion st \<and>
       out = Polling st' \<and> last_motion st' = now)"
  using assms by (auto simp: onvif_round_def Let_def split: option.splits if_splits)

lemma onvif_rounds_spaced:
  "onvif_rounds cam addr user password t rs st = (out, es, u) \<Longrightarrow> spaced (last_motion st) es"
proof (induction rs arbitrary: st t es)
  case (Cons x rs)
  obtain w d where x: "x = (w, d)" by (cases x)
  obtain out1 es1 where o: "onvif_round cam addr user password w (t + int d) st = (out1, es1)" by fastforce
  note c = onvif_round_cases [OF o]
  show ?case
  proof (cases out1)
    case (Polling st')
    obtain es' where r: "onvif_rounds cam addr user password (t + int d + poll_interval) rs st' = (out, es', u)"
      and es: "es = es1 @ es'"
      using Cons.prems o Polling by (auto simp: x split: prod.splits)
    from Cons.IH [OF r] c Polling es show ?thesis by auto
  qed (use c o Cons.prems in \<open>auto simp: x\<close>)
qed simp

section \<open>A panic in the detector\<close>

lemma onvif_run_alive_cons:
  "onvif_run cam now ((w, d, (w1, d1) # rounds) # ss) = (False, [])"
  if "http w (soap_post (case ncc_onvif_url cam of None \<Rightarrow> [] | Some u \<Rightarrow> u)
        (soap_envelope (case ncc_onvif_username cam of None \<Rightarrow> [] | Some u \<Rightarrow> u)
          (case ncc_onvif_password cam of None \<Rightarrow> [] | Some p \<Rightarrow> p) create_subscription)) = Some r"
    and "extract_tag (rs_body r) ''Address'' = Some addr"
    and "http w1 (soap_post addr
        (soap_envelope (case ncc_onvif_username cam of None \<Rightarrow> [] | Some u \<Rightarrow> u)
          (case ncc_onvif_password cam of None \<Rightarrow> [] | Some p \<Rightarrow> p) pull_messages)) = Some r1"
    and "has_motion (rs_body r1) = None"
  using that by (simp add: subscribe_and_poll_def onvif_round_def Let_def)

text \<open>
  C20. An answer of a camera can end its motion detection for good: \<open>has_motion\<close> cuts the text
  80 bytes behind the first \<open>IsMotion\<close>, and panics where that is inside a UTF-8 sequence. Then
  the task is dead, it sends no event in any later session, and the manager keeps the dead task
  in its table through every further round, as long as the camera's fingerprint is the same.
\<close>

theorem onvif_panic_silences:
  assumes "find_str ''IsMotion'' (rs_body r1) = Some pos" and "pos + 80 < length (rs_body r1)"
    and "128 \<le> (of_char (rs_body r1 ! (pos + 80)) :: nat)" and "(of_char (rs_body r1 ! (pos + 80)) :: nat) < 192"
    and "http w (soap_post (case ncc_onvif_url cam of None \<Rightarrow> [] | Some u \<Rightarrow> u)
        (soap_envelope (case ncc_onvif_username cam of None \<Rightarrow> [] | Some u \<Rightarrow> u)
          (case ncc_onvif_password cam of None \<Rightarrow> [] | Some p \<Rightarrow> p) create_subscription)) = Some r"
    and "extract_tag (rs_body r) ''Address'' = Some addr"
    and "http w1 (soap_post addr
        (soap_envelope (case ncc_onvif_username cam of None \<Rightarrow> [] | Some u \<Rightarrow> u)
          (case ncc_onvif_password cam of None \<Rightarrow> [] | Some p \<Rightarrow> p) pull_messages)) = Some r1"
    and "running (ncc_id cam) = Some task" and "ct_sig task = task_sig cam"
    and "\<forall>list \<in> set snapshots. distinct (map ncc_id list) \<and>
      (\<exists>c. find (\<lambda>c. ncc_id c = ncc_id cam) list = Some c \<and> watched c \<and> task_sig c = task_sig cam)"
  shows "onvif_run cam now ((w, d, (w1, d1) # rounds) # later) = (False, []) \<and>
    reconcile_rounds hw snapshots running (ncc_id cam) = Some task"
proof
  have "has_motion (rs_body r1) = None"
    using assms(1-4) by (auto simp: has_motion_def is_boundary_def Let_def min_def)
  from onvif_run_alive_cons [OF assms(5-7) this]
  show "onvif_run cam now ((w, d, (w1, d1) # rounds) # later) = (False, [])" .
  show "reconcile_rounds hw snapshots running (ncc_id cam) = Some task"
    using assms(8,10)
  proof (induction snapshots arbitrary: running)
    case Nil
    then show ?case by (simp add: reconcile_rounds_def)
  next
    case (Cons list snapshots)
    then obtain c where c: "distinct (map ncc_id list)" "watched c" "task_sig c = task_sig cam"
      "find (\<lambda>c. ncc_id c = ncc_id cam) list = Some c" by auto
    have "reconcile hw list running (ncc_id cam) = Some task"
      using c Cons.prems(1) assms(9) reconcile_keeps [OF c(1,4,2)] by simp
    with Cons.IH Cons.prems(2) show ?case by (simp add: reconcile_rounds_def)
  qed
qed

text \<open>A camera with an ONVIF address whose answer has a two-byte letter at the cut.\<close>

definition onvif_cam_cfg :: node_camera_cfg where
  "onvif_cam_cfg = sample_cam_cfg\<lparr>ncc_onvif_url := Some ''http://cam''\<rparr>"

definition panic_body :: string where
  "panic_body = ''IsMotion'' @ replicate 71 CHR ''x'' @ [CHR 0xC3, CHR 0xA9] @ ''true''"

definition panic_ext :: ext where
  "panic_ext = sample_ext\<lparr>http := \<lambda>r. Some \<lparr>rs_status = 200, rs_headers = [],
     rs_body = (if rq_url r = ''http://cam'' then ''<Address>sub</Address>'' else panic_body)\<rparr>\<rparr>"

theorem onvif_panic_silences_witness:
  "onvif_run onvif_cam_cfg 0 [(panic_ext, 0, [(panic_ext, 1)])] = (False, []) \<and>
   reconcile_rounds \<lparr>cpu_cores = 1, cpu_model = [], ram_total_mb = 0, ram_available_mb = 0, hw_accel = []\<rparr>
      [[onvif_cam_cfg], [onvif_cam_cfg]]
     [30 \<mapsto> \<lparr>ct_sig = task_sig onvif_cam_cfg, ct_cam = onvif_cam_cfg, ct_kind = Onvif_task\<rparr>] 30 =
   Some \<lparr>ct_sig = task_sig onvif_cam_cfg, ct_cam = onvif_cam_cfg, ct_kind = Onvif_task\<rparr>"
proof -
  let ?hw = "\<lparr>cpu_cores = 1, cpu_model = [], ram_total_mb = 0, ram_available_mb = 0, hw_accel = []\<rparr>"
  let ?task = "\<lparr>ct_sig = task_sig onvif_cam_cfg, ct_cam = onvif_cam_cfg, ct_kind = Onvif_task\<rparr>"
  let ?r1 = "\<lparr>rs_status = 200, rs_headers = [], rs_body = panic_body\<rparr>"
  let ?r = "\<lparr>rs_status = 200, rs_headers = [], rs_body = ''<Address>sub</Address>''\<rparr>"
  have f: "find_str ''IsMotion'' (rs_body ?r1) = Some 0" by (simp add: panic_body_def)
  have l: "0 + 80 < length (rs_body ?r1)" by (simp add: panic_body_def)
  have n: "rs_body ?r1 ! (0 + 80) = CHR 0xA9" by (simp add: panic_body_def nth_append)
  have b: "128 \<le> (of_char (rs_body ?r1 ! (0 + 80)) :: nat)" "(of_char (rs_body ?r1 ! (0 + 80)) :: nat) < 192"
    unfolding n by simp_all
  have i: "ncc_id onvif_cam_cfg = 30" "watched onvif_cam_cfg"
    by (simp_all add: onvif_cam_cfg_def sample_cam_cfg_def watched_def)
  have a: "extract_tag (rs_body ?r) ''Address'' = Some ''sub''"
    by (simp add: extract_tag_def trim_def is_ascii_space_def)
  show ?thesis
    using onvif_panic_silences [OF f l b _ a, of panic_ext onvif_cam_cfg panic_ext
        "[30 \<mapsto> ?task]" ?task "[[onvif_cam_cfg], [onvif_cam_cfg]]" 0 0 1 "[]" "[]" ?hw] i
    by (simp add: panic_ext_def onvif_cam_cfg_def sample_cam_cfg_def soap_post_def)
qed

text \<open>Only the first notification of an answer is looked at: a second one that says \<open>true\<close> is missed.\<close>

lemma later_motion_missed:
  assumes "find_str ''IsMotion'' xml = Some pos" and "is_boundary xml (min (pos + 80) (length xml))"
    and "\<not> contains_str ''true'' (take (min (pos + 80) (length xml) - pos) (drop pos xml))"
    and "\<not> contains_str ''>1<'' (take (min (pos + 80) (length xml) - pos) (drop pos xml))"
  shows "has_motion xml = Some False"
  using assms by (simp add: has_motion_def Let_def)

end
