(* ===== verification/NodeProcess.thy ===== *)
theory NodeProcess
  imports NodeProtocol Migration NodeEvents NodePlayback
begin

text \<open>
  A node as a whole (\<open>node/src/main.rs\<close>): its start, and a step relation of everything its tasks do
  to the shared state, in any order. Each step is one message, event, tick or request handled to
  its end; the one interleaving inside a step that matters, between a flush and the recorder, is
  the subject of a property of its own.
\<close>

section \<open>The process\<close>

text \<open>
  The state the spawned tasks share (\<open>np_app\<close>) and what each keeps for itself: the supervisor
  whether it holds a child, the motion manager its table of tasks, the socket task whether it is
  connected.
\<close>

record node_proc =
  np_app :: node_app
  np_identity :: node_identity
  np_hw :: hardware_profile
  np_child :: bool
  np_tasks :: "uuid \<rightharpoonup> camera_task"
  np_connected :: bool

text \<open>The start of \<open>main\<close>, up to the spawning of the tasks.\<close>

definition node_main :: "ext \<Rightarrow> setup_ext \<Rightarrow> node_config_env \<Rightarrow> hardware_profile \<Rightarrow> fs \<Rightarrow> node_error + node_proc" where
  "node_main w x cfg hw f =
     (case start_identity w x cfg hw (new_node_app f) of
        (Inl e, s) \<Rightarrow> Inl e
      | (Inr i, s) \<Rightarrow> Inr \<lparr>np_app = new_node_app (n_fs s), np_identity = i, np_hw = hw, np_child = False,
                          np_tasks = Map.empty, np_connected = False\<rparr>)"

text \<open>
  What can happen: MediaMTX writes a file below the recordings, the coming I/O operations fail or
  not, the file watcher reports, the watchdog, the migration, the supervisor or the motion manager
  has its turn, a detector reports motion, a clip is exported and its list file removed, the
  socket is opened, an event meets it.
\<close>

datatype node_event =
    Mtx_writes path file_entry
  | Io_fails "bool list"
  | Fs_event node_ext fs_event_kind "path list"
  | Cull node_ext
  | Migrate node_ext
  | Supervise node_ext child_status
  | Manage
  | Detected event_payload
  | Export node_ext string export_params
  | Export_done string
  | Connect node_ext
  | Client node_ext client_event

inductive node_trans ::
  "node_config_env \<Rightarrow> path \<Rightarrow> node_proc \<Rightarrow> node_event \<Rightarrow> node_proc \<Rightarrow> bool" for cfg tmp where
  mtx_writes: "rel \<noteq> [] \<Longrightarrow> node_trans cfg tmp P (Mtx_writes rel x)
    (P\<lparr>np_app := on_fs (put_file (recordings_dir cfg @ rel) x) (np_app P)\<rparr>)"
| io_fails: "node_trans cfg tmp P (Io_fails f) (P\<lparr>np_app := (np_app P)\<lparr>n_io := f\<rparr>\<rparr>)"
| fs_event: "node_trans cfg tmp P (Fs_event w k ps)
    (P\<lparr>np_app := snd (recorder_event w (recordings_dir cfg) (segment_queue_path cfg) k ps (np_app P))\<rparr>)"
| cull: "node_trans cfg tmp P (Cull w)
    (P\<lparr>np_app := snd (watchdog_turn w cfg (np_app P))\<rparr>)"
| migrate: "node_s3_from_env (env w) = Some s3 \<Longrightarrow> node_trans cfg tmp P (Migrate w)
    (P\<lparr>np_app := snd (migrate_pass w s3 (recordings_dir cfg) (np_app P))\<rparr>)"
| supervise: "supervisor_round w cfg st (np_child P) (np_app P) = (Inr child, s) \<Longrightarrow>
    node_trans cfg tmp P (Supervise w st) (P\<lparr>np_app := s, np_child := child\<rparr>)"
| manage: "node_trans cfg tmp P Manage
    (P\<lparr>np_tasks := reconcile (np_hw P) (n_cameras (np_app P)) (np_tasks P)\<rparr>)"
| detected: "np_tasks P (ep_camera_id e) \<noteq> None \<Longrightarrow> node_trans cfg tmp P (Detected e)
    (P\<lparr>np_app := (np_app P)\<lparr>n_events := n_events (np_app P) @ [e]\<rparr>\<rparr>)"
| export: "node_trans cfg tmp P (Export w name params)
    (P\<lparr>np_app := snd (node_export_clip w (recordings_dir cfg) (tmp @ [name]) params (np_app P))\<rparr>)"
| export_done: "node_trans cfg tmp P (Export_done name)
    (P\<lparr>np_app := snd ((remove_file (tmp @ [name]) :: unit node_prog) (np_app P))\<rparr>)"
| connect: "\<not> np_connected P \<Longrightarrow>
    connect_and_run w cfg (np_identity P) (np_hw P) [] (np_app P) = (r, s) \<Longrightarrow>
    node_trans cfg tmp P (Connect w) (P\<lparr>np_app := s, np_connected := (r = Inr ())\<rparr>)"
| client: "np_connected P \<Longrightarrow>
    client_step w cfg (np_identity P) (np_hw P) e (np_app P) = (r, s) \<Longrightarrow>
    node_trans cfg tmp P (Client w e) (P\<lparr>np_app := s, np_connected := (r = Inr True)\<rparr>)"

inductive_cases node_transE: "node_trans cfg tmp P e Q"

text \<open>The states reached by events with a property.\<close>

inductive node_reaches ::
  "(node_event \<Rightarrow> bool) \<Rightarrow> node_config_env \<Rightarrow> path \<Rightarrow> node_proc \<Rightarrow> node_proc \<Rightarrow> bool"
  for ok cfg tmp P where
  here: "node_reaches ok cfg tmp P P"
| there: "node_reaches ok cfg tmp P Q \<Longrightarrow> ok e \<Longrightarrow> node_trans cfg tmp Q e R \<Longrightarrow>
    node_reaches ok cfg tmp P R"

section \<open>The recorder's task\<close>

text \<open>
  \<open>recorder::run\<close>: the directory is created and watched, or the task ends; then every result of
  the watcher is handled, an error of the watcher only logged.
\<close>

datatype watch_result = Watch_event fs_event_kind "path list" | Watch_error

fun recorder_loop :: "node_ext \<Rightarrow> path \<Rightarrow> path \<Rightarrow> watch_result list \<Rightarrow> unit node_prog" where
  "recorder_loop w dir q [] = ret ()"
| "recorder_loop w dir q (Watch_event k ps # rs) =
     andthen (recorder_event w dir q k ps) (\<lambda>_. recorder_loop w dir q rs)"
| "recorder_loop w dir q (Watch_error # rs) = recorder_loop w dir q rs"

definition recorder_run :: "node_ext \<Rightarrow> path \<Rightarrow> path \<Rightarrow> bool \<Rightarrow> watch_result list \<Rightarrow> unit node_prog" where
  "recorder_run w dir q watching rs =
     andthen (io (on_fs (make_dir dir))) (\<lambda>_.
     andthen (ensure watching Io_error) (\<lambda>_.
     recorder_loop w dir q rs))"

text \<open>Nothing that happens to a segment ends the task, so a run is the steps of its events.\<close>

lemma recorder_event_runs: "fst (recorder_event w dir q k ps s) = Inr ()"
proof -
  have "fst (handle_paths w dir q ps s) = Inr ()"
    by (induction ps arbitrary: s) (auto simp: andthen_apply attempt_def split: prod.split sum.split)
  then show ?thesis by (simp add: recorder_event_def)
qed

lemma recorder_loop_steps:
  "recorder_loop w dir q rs s = (Inr (), fold (\<lambda>r s. case r of
     Watch_event k ps \<Rightarrow> snd (recorder_event w dir q k ps s) | Watch_error \<Rightarrow> s) rs s)"
proof (induction w dir q rs arbitrary: s rule: recorder_loop.induct)
  case (2 w dir q k ps rs)
  obtain t where "recorder_event w dir q k ps s = (Inr (), t)"
    using recorder_event_runs [of w dir q k ps s] by (metis prod.collapse)
  with 2 show ?case by (simp add: andthen_apply)
qed simp_all

section \<open>Invariants of the tasks\<close>

text \<open>
  What an invariant of the shared state has to satisfy so that the tasks keep it: it does not
  speak of the failures to come, the sequence number and the channels, it survives a sent
  message, and it allows every file operation on a path that is \<open>free\<close> and the appending of a
  line to one that is a \<open>log\<close>.
\<close>

locale node_invariant =
  fixes J :: "node_app \<Rightarrow> bool" and free :: "path \<Rightarrow> bool" and log :: "path \<Rightarrow> bool"
  assumes after_io: "J s \<Longrightarrow> J (s\<lparr>n_io := f\<rparr>)"
    and after_send: "J s \<Longrightarrow> J (s\<lparr>n_sent := n_sent s @ [m]\<rparr>)"
    and after_seq: "J s \<Longrightarrow> J (s\<lparr>n_seq := q\<rparr>)"
    and after_cameras: "J s \<Longrightarrow> J (s\<lparr>n_cameras := cs, n_mtx := ms\<rparr>)"
    and after_mtx: "J s \<Longrightarrow> J (s\<lparr>n_mtx := ms\<rparr>)"
    and after_flush: "J s \<Longrightarrow> J (s\<lparr>n_flush := k\<rparr>)"
    and after_events: "J s \<Longrightarrow> J (s\<lparr>n_events := es\<rparr>)"
    and after_migrate: "J s \<Longrightarrow> J (s\<lparr>n_migrate := gs\<rparr>)"
    and after_put: "J s \<Longrightarrow> free p \<Longrightarrow> J (on_fs (put_file p x) s)"
    and after_append: "J s \<Longrightarrow> log p \<Longrightarrow> J (on_fs (append_file p (l @ nl) now) s)"
    and after_unlink: "J s \<Longrightarrow> free p \<Longrightarrow> J (on_fs (unlink p) s)"
    and after_rmdir: "J s \<Longrightarrow> J (on_fs (rmdir d) s)"
begin

lemma keeps_put [keeps_rules]: "free p \<Longrightarrow> keeps J (io (on_fs (put_file p x)))"
  by (rule keeps_io) (rule after_io after_put; assumption)+

lemma keeps_nothing [keeps_rules]: "keeps J (io (\<lambda>s. s))"
  by (rule keeps_io) (simp_all add: after_io)

lemma keeps_unlink [keeps_rules]: "free p \<Longrightarrow> keeps J (remove_file p)"
  using keeps_io [of J "on_fs (unlink p)"] after_io after_unlink
  by (auto simp: keeps_def remove_file_def)

lemma keeps_rmdir [keeps_rules]: "keeps J (remove_dir d)"
  unfolding remove_dir_def by (rule keeps_io) (rule after_io after_rmdir; assumption)+

lemma keeps_send [keeps_rules]: "keeps J (sink_send m)"
  unfolding sink_send_def by (rule keeps_io) (rule after_io after_send; assumption)+

lemma keeps_next_seq [keeps_rules]: "keeps J next_seq"
  by (simp add: keeps_def next_seq_apply after_seq)

lemma keeps_modify [keeps_rules]:
  "keeps J (modify (\<lambda>s. s\<lparr>n_events := es\<rparr>))" "keeps J (modify (\<lambda>s. s\<lparr>n_migrate := gs\<rparr>))"
  "keeps J (modify (\<lambda>s. s\<lparr>n_migrate := n_migrate s @ [g]\<rparr>))"
  "keeps J (modify (\<lambda>s. s\<lparr>n_mtx := ms\<rparr>))" "keeps J (modify drain_flush)"
  "keeps J (modify (\<lambda>s. s\<lparr>n_flush := Suc (n_flush s)\<rparr>))" "keeps J (modify (\<lambda>s. s\<lparr>n_seq := 0\<rparr>))"
  "keeps J (modify (set_cameras cs))"
  by (simp_all add: keeps_def drain_flush_def set_cameras_def after_events after_migrate after_mtx
      after_flush after_seq after_cameras)

lemma keeps_prune [keeps_rules]: "keeps J (prune p)"
  by (auto simp: prune_def intro!: keeps_rules split: option.split)

end

text \<open>What is read from the state decides what follows.\<close>

lemma keeps_get_then: "(\<And>s. keeps J (g (f s))) \<Longrightarrow> keeps J (andthen (gets f) g)"
  by (simp add: keeps_def andthen_apply)

context node_invariant
begin

lemma keeps_push [keeps_rules]: "log p \<Longrightarrow> keeps J (queue_push w p e)"
  unfolding queue_push_def by (rule keeps_io) (rule after_io after_append; assumption)+

lemma keeps_recorder:
  assumes "log q"
  shows "keeps J (recorder_event w dir q k ps)"
proof -
  have "keeps J (handle_segment w dir q p)" for p
    unfolding handle_segment_def Let_def
    by (intro keeps_rules) (auto intro!: keeps_rules assms split: option.split)
  then have "keeps J (handle_paths w dir q ps)"
    by (induction ps) (auto intro!: keeps_rules)
  then show ?thesis by (simp add: recorder_event_def keeps_rules)
qed

lemma keeps_flush:
  assumes "free q"
  shows "keeps J (flush_queue w q)"
proof -
  have "keeps J (send_segments ps)" for ps
    by (induction ps) (auto intro!: keeps_rules split: sum.split)
  then show ?thesis
    unfolding flush_queue_def flush_entries_def [abs_def] queue_read_all_def queue_clear_def
    by (auto intro!: keeps_rules assms split: sum.split)
qed

lemma mp4_file_below: "p \<in> fst ` set (mp4_files dir f) \<Longrightarrow> strip_dir dir p \<noteq> None"
  by (auto simp: mp4_files_def)

lemma keeps_watchdog:
  assumes "\<And>p. strip_dir dir p \<noteq> None \<Longrightarrow> free p"
    and dir: "dir = recordings_dir cfg"
  shows "keeps J (watchdog_turn w cfg)"
proof -
  have "keeps J (cull_loop w dir target ps)" if "\<forall>p \<in> set ps. free p" for w target ps
    using that by (induction ps) (auto intro!: keeps_rules split: sum.split)
  moreover have "\<forall>p \<in> set (map fst (sort_key snd (mp4_files dir f))). free p" for f
    using assms(1) [OF mp4_file_below] by simp
  ultimately have "keeps J (cull_until w dir target)" for w target
    unfolding cull_until_def by (intro keeps_get_then) simp
  then have "keeps J (watchdog_tick w dir)" for w
    unfolding watchdog_tick_def by (intro keeps_rules) auto
  then show ?thesis by (simp add: watchdog_turn_def dir)
qed

lemma keeps_migration:
  assumes "\<And>p. strip_dir dir p \<noteq> None \<Longrightarrow> free p"
  shows "keeps J (migrate_pass w s3 dir)"
proof -
  have "keeps J (migrate_segment w s3 dir p)" if "free p" for p
    unfolding migrate_segment_def Let_def by (intro keeps_rules that)
  then have "keeps J (migrate_all w s3 dir ps)" if "\<forall>p \<in> set ps. free p" for ps
    using that by (induction ps) (auto intro!: keeps_rules)
  moreover have "\<forall>p \<in> set (migrate_candidates w dir f). free p" for f
    using assms [OF mp4_file_below] by (auto simp: migrate_candidates_def)
  ultimately show ?thesis unfolding migrate_pass_def by (intro keeps_get_then) simp
qed

lemma keeps_supervisor:
  assumes "free (mediamtx_config_path cfg)"
  shows "keeps J (supervisor_round w cfg st running)"
proof -
  have s: "keeps J spawn_mtx" unfolding spawn_mtx_def by (intro keeps_rules)
  then have "keeps J (check_child p st running)" for p
    unfolding check_child_def by (auto intro!: keeps_rules)
  then show ?thesis
    unfolding supervisor_round_def
    by (intro keeps_rules) (auto intro!: keeps_rules s assms split: list.split sum.split)
qed

lemma keeps_export:
  assumes "free list_path"
  shows "keeps J (node_export_clip w dir list_path params)"
  unfolding node_export_clip_def
  by (auto intro!: keeps_rules assms split: sum.split)

text \<open>The file a message of the coordinator deletes, if it is to delete one.\<close>

lemma keeps_incoming:
  assumes "\<And>q i t u rel. m = Some (DeleteRecording q i t u) \<Longrightarrow> strip_prefix ''local://'' u = Some rel \<Longrightarrow>
    free (path_join dir rel)"
  shows "keeps J (node_handle_incoming dir m)"
proof (cases m)
  case None
  then show ?thesis by (simp add: node_handle_incoming_def keeps_rules)
next
  case (Some msg)
  show ?thesis
    unfolding node_handle_incoming_def Some option.case
    using assms Some
    by (intro keeps_rules)
      (cases msg; auto intro!: keeps_rules split: option.split)
qed

lemma keeps_client:
  assumes "e = Flush_ready \<Longrightarrow> keeps J (flush_queue w (segment_queue_path cfg))"
    and "\<And>q i t u rel. e = Server_text (Some (DeleteRecording q i t u)) \<Longrightarrow>
      strip_prefix ''local://'' u = Some rel \<Longrightarrow> free (path_join (recordings_dir cfg) rel)"
  shows "keeps J (client_step w cfg ident hw e)"
  using assms
  by (cases e)
    (auto simp: heartbeat_tick_def intro!: keeps_rules keeps_incoming split: list.split)

lemma keeps_connect:
  assumes "keeps J (flush_queue w (segment_queue_path cfg))"
  shows "keeps J (connect_and_run w cfg ident hw [])"
  unfolding connect_and_run_def client_loop.simps
  by (intro keeps_rules assms)

end

section \<open>Steps\<close>

text \<open>The steps that flush the queue, with the environment in which they do.\<close>

fun flushes :: "node_event \<Rightarrow> node_ext option" where
  "flushes (Connect w) = Some w"
| "flushes (Client w e) = (if e = Flush_ready then Some w else None)"
| "flushes _ = None"

text \<open>
  A notice to delete a recording names a file below the recordings. The enforcer sends back what
  the recorder reported; what another node may have put in its place is the subject of a
  property of its own.
\<close>

definition confined_event :: "node_config_env \<Rightarrow> node_event \<Rightarrow> bool" where
  "confined_event cfg e \<longleftrightarrow>
     (case e of
        Client _ (Server_text (Some (DeleteRecording _ _ _ u))) \<Rightarrow>
          (case strip_prefix ''local://'' u of
             None \<Rightarrow> True
           | Some rel \<Rightarrow> strip_dir (recordings_dir cfg) (path_join (recordings_dir cfg) rel) \<noteq> None)
      | _ \<Rightarrow> True)"

context node_invariant
begin

lemma keeps_trans:
  assumes "node_trans cfg tmp P e Q" and "J (np_app P)" and "confined_event cfg e"
    and below: "\<And>p. strip_dir (recordings_dir cfg) p \<noteq> None \<Longrightarrow> free p"
    and "free (mediamtx_config_path cfg)" and "\<And>name. free (tmp @ [name])"
    and "log (segment_queue_path cfg)"
    and "\<And>w. flushes e = Some w \<Longrightarrow> keeps J (flush_queue w (segment_queue_path cfg))"
  shows "J (np_app Q)"
  using assms(1)
proof (cases rule: node_trans.cases)
  case (mtx_writes rel x)
  then show ?thesis using after_put [OF assms(2)] below by simp
next
  case (io_fails f)
  then show ?thesis using after_io assms(2) by simp
next
  case (fs_event w k ps)
  then show ?thesis using keepsD [OF keeps_recorder [OF assms(7)] assms(2)] by simp
next
  case (cull w)
  then show ?thesis using keepsD [OF keeps_watchdog [OF _ refl] assms(2)] below by simp
next
  case (migrate w s3)
  then show ?thesis using keepsD [OF keeps_migration assms(2)] below by simp
next
  case (supervise w st child s)
  then show ?thesis using keepsD [OF keeps_supervisor [OF assms(5)] assms(2), of w st "np_child P"] by simp
next
  case manage
  then show ?thesis using assms(2) by simp
next
  case (detected e)
  then show ?thesis using after_events assms(2) by simp
next
  case (export w name params)
  then show ?thesis using keepsD [OF keeps_export [OF assms(6)] assms(2)] by simp
next
  case (export_done name)
  then show ?thesis using keepsD [OF keeps_unlink [OF assms(6)] assms(2)] by simp
next
  case (connect w r s)
  then show ?thesis
    using keepsD [OF keeps_connect assms(2), of w cfg "np_identity P" "np_hw P"] assms(8) by simp
next
  case (client w ev r s)
  have "keeps J (client_step w cfg (np_identity P) (np_hw P) ev)"
    using client assms(3,8) below
    by (intro keeps_client) (auto simp: confined_event_def)
  from keepsD [OF this assms(2)] client show ?thesis by simp
qed

end

section \<open>Files outside the recordings\<close>

interpretation file_same: node_invariant "\<lambda>s. read_file q (n_fs s) = c" "\<lambda>p. p \<noteq> q" "\<lambda>p. p \<noteq> q" for q c
  by unfold_locales (simp_all add: append_file_def)

text \<open>What the tasks have no business with.\<close>

definition outside :: "node_config_env \<Rightarrow> path \<Rightarrow> path \<Rightarrow> bool" where
  "outside cfg tmp p \<longleftrightarrow>
     strip_dir (recordings_dir cfg) p = None \<and> p \<noteq> segment_queue_path cfg \<and>
     p \<noteq> mediamtx_config_path cfg \<and> parent p \<noteq> Some tmp"

lemma parent_snoc [simp]: "parent (p @ [n]) = Some p"
  by (simp add: parent_def)

lemma trans_outside:
  assumes "node_trans cfg tmp P e Q" and "confined_event cfg e" and "outside cfg tmp p"
  shows "read_file p (n_fs (np_app Q)) = read_file p (n_fs (np_app P))"
proof (rule file_same.keeps_trans [OF assms(1) refl assms(2)])
  show "tmp @ [name] \<noteq> p" for name using assms(3) by (auto simp: outside_def)
  show "keeps (\<lambda>s. read_file p (n_fs s) = read_file p (n_fs (np_app P)))
      (flush_queue w (segment_queue_path cfg))" for w
    using assms(3) by (intro file_same.keeps_flush) (auto simp: outside_def)
qed (use assms(3) in \<open>auto simp: outside_def\<close>)

lemma trans_identity: "node_trans cfg tmp P e Q \<Longrightarrow> np_identity Q = np_identity P"
  by (auto elim: node_transE)

lemma reaches_outside:
  assumes "node_reaches (confined_event cfg) cfg tmp P Q" and "outside cfg tmp p"
  shows "read_file p (n_fs (np_app Q)) = read_file p (n_fs (np_app P)) \<and> np_identity Q = np_identity P"
  using assms by induction (simp_all add: trans_outside trans_identity)

lemma state_file_outside: "tmp \<noteq> data_dir cfg \<Longrightarrow> outside cfg tmp (state_file (data_dir cfg))"
  by (auto simp: outside_def state_file_def recordings_dir_def segment_queue_path_def
      mediamtx_config_path_def strip_dir_def)

text \<open>
  C6. A node keeps to its files, and is the same node for ever: whatever its tasks do, in
  whatever order and with whatever I/O operations failing, a file that is not below the recordings
  directory, not the segment queue, not the MediaMTX configuration and not in the temporary
  directory is never created, changed or deleted, as long as the coordinator's notices to delete
  name files below the recordings. In particular a restart finds the identity it started with, so
  a node registers at most once.
\<close>

theorem node_confined:
  assumes "node_main w x cfg hw f = Inr P"
    and "ident_parse x (ident_json x (np_identity P)) = Some (np_identity P)"
    and "node_reaches (confined_event cfg) cfg tmp P Q" and "tmp \<noteq> data_dir cfg"
  shows "(\<forall>p. outside cfg tmp p \<longrightarrow> read_file p (n_fs (np_app Q)) = read_file p (n_fs (np_app P))) \<and>
    identity_load w x (data_dir cfg) (n_fs (np_app Q)) = Some (np_identity Q) \<and>
    (\<exists>R. node_main w x cfg hw (n_fs (np_app Q)) = Inr R \<and> np_identity R = np_identity P)"
proof -
  obtain s where s: "start_identity w x cfg hw (new_node_app f) = (Inr (np_identity P), s)"
    "n_fs (np_app P) = n_fs s"
    using assms(1) by (auto simp: node_main_def new_node_app_def split: prod.splits sum.splits)
  have "identity_load w x (data_dir cfg) (n_fs (np_app P)) = Some (np_identity P)"
    using start_identity_stored [OF s(1) assms(2)] by (simp add: s(2))
  then have load: "identity_load w x (data_dir cfg) (n_fs (np_app Q)) = Some (np_identity P)"
    using reaches_outside [OF assms(3) state_file_outside [OF assms(4)]]
    by (auto simp: identity_load_def split: option.splits)
  have "identity_load w x d (make_dir e g) = identity_load w x d g" for d e g
    by (simp add: identity_load_def read_make_dir cong: option.case_cong)
  with load have "start_identity w x cfg hw (new_node_app (n_fs (np_app Q))) =
      (Inr (np_identity P), on_fs (make_dir (data_dir cfg)) (new_node_app (n_fs (np_app Q))))"
    by (simp add: start_identity_def andthen_apply io_ok new_node_app_def)
  then have "\<exists>R. node_main w x cfg hw (n_fs (np_app Q)) = Inr R \<and> np_identity R = np_identity P"
    by (simp add: node_main_def)
  with load reaches_outside [OF assms(3)] state_file_outside [OF assms(4)] show ?thesis by auto
qed

text \<open>A node registers, its MediaMTX writes a segment, the watchdog culls; the notes next to its state stay.\<close>

definition fresh_setup :: setup_ext where
  "fresh_setup = \<lparr>parse_uuid = (\<lambda>s. None), hostname = None, ident_json = ni_api_key,
     ident_parse = (\<lambda>s. Some \<lparr>ni_node_id = 20, ni_api_key = s\<rparr>),
     register_json = (\<lambda>n h. n), register_parse = (\<lambda>s. Some (20, s))\<rparr>"

theorem node_confined_witness:
  "\<exists>P Q R S. node_main (sample_ext\<lparr>http := \<lambda>r. Some \<lparr>rs_status = 200, rs_headers = [], rs_body = ''key''\<rparr>\<rparr>) fresh_setup
       sample_config (detect [] 0 0 (\<lambda>_. False)) sample_fs = Inr P \<and>
     node_trans sample_config [''tmp''] P (Mtx_writes [''door'', ''y.mp4''] \<lparr>content = [], mtime = 5\<rparr>) Q \<and>
     node_trans sample_config [''tmp''] Q (Cull sample_node_ext) R \<and>
     read_file [''data'', ''note.txt''] (n_fs (np_app R)) = Some ''x'' \<and>
     node_main (sample_ext\<lparr>http := \<lambda>r. Some \<lparr>rs_status = 200, rs_headers = [], rs_body = ''key''\<rparr>\<rparr>) fresh_setup
       sample_config (detect [] 0 0 (\<lambda>_. False)) (n_fs (np_app R)) = Inr S \<and>
     np_identity S = \<lparr>ni_node_id = 20, ni_api_key = ''key''\<rparr>"
proof -
  let ?w = "sample_ext\<lparr>http := \<lambda>r. Some \<lparr>rs_status = 200, rs_headers = [], rs_body = ''key''\<rparr>\<rparr>"
  let ?hw = "detect [] 0 0 (\<lambda>_. False)" and ?tmp = "[''tmp'']" and ?note = "[''data'', ''note.txt'']"
  let ?mtx = "Mtx_writes [''door'', ''y.mp4''] \<lparr>content = [], mtime = 5\<rparr>"
  obtain P where P: "node_main ?w fresh_setup sample_config ?hw sample_fs = Inr P"
    "np_identity P = \<lparr>ni_node_id = 20, ni_api_key = ''key''\<rparr>"
    "read_file ?note (n_fs (np_app P)) = Some ''x''"
    by (simp add: node_main_def start_identity_def andthen_apply io_ok new_node_app_def
        identity_load_def identity_from_env_def register_def ok_or_def ensure_def identity_save_def
        fresh_setup_def sample_node_defs sample_ext_def state_file_def read_file_def make_dir_def
        put_file_def)
  have "[''door'', ''y.mp4''] \<noteq> []" by simp
  from node_trans.mtx_writes [OF this] obtain Q where Q: "node_trans sample_config ?tmp P ?mtx Q" by blast
  obtain R where R: "node_trans sample_config ?tmp Q (Cull sample_node_ext) R" by (meson node_trans.cull)
  have "confined_event sample_config ?mtx" "confined_event sample_config (Cull sample_node_ext)"
    by (simp_all add: confined_event_def)
  then have "node_reaches (confined_event sample_config) sample_config ?tmp P R"
    using Q R by (meson node_reaches.intros)
  moreover have "?tmp \<noteq> data_dir sample_config" by (simp add: sample_config_def)
  moreover have "ident_parse fresh_setup (ident_json fresh_setup (np_identity P)) = Some (np_identity P)"
    by (simp add: fresh_setup_def P(2))
  moreover have "outside sample_config ?tmp ?note"
    by (simp add: outside_def sample_node_defs strip_dir_def mediamtx_config_path_def parent_def)
  ultimately show ?thesis
    using node_confined [OF P(1), of ?tmp R] P Q R by metis
qed

section \<open>No entry is lost\<close>

text \<open>The segments that wait in the queue or have been sent.\<close>

definition accounted :: "node_ext \<Rightarrow> path \<Rightarrow> node_app \<Rightarrow> segment_payload set" where
  "accounted w qp s = set (queue_entries w qp (n_fs s)) \<union> sent_segments (n_sent s)"

lemma queue_same:
  "read_file qp f = read_file qp g \<Longrightarrow> queue_entries w qp f = queue_entries w qp g"
  "read_file qp f = read_file qp g \<Longrightarrow> queue_ok qp f = queue_ok qp g"
  by (simp_all add: queue_entries_def queue_ok_def)

text \<open>Whatever is appended, the entries that were there stay.\<close>

lemma entries_append_any:
  assumes "queue_ok qp f"
  shows "set (queue_entries w qp f) \<subseteq> set (queue_entries w qp (append_file qp (l @ nl) now f))"
proof -
  have "text_lines ((case read_file qp f of None \<Rightarrow> [] | Some c \<Rightarrow> c) @ l @ nl) =
      text_lines (case read_file qp f of None \<Rightarrow> [] | Some c \<Rightarrow> c) @ text_lines (l @ nl)"
    using assms by (intro text_lines_append) (simp add: queue_ok_def)
  then show ?thesis by (simp add: queue_entries_def append_file_def List.map_filter_def)
qed

lemma sent_segments_mono: "sent_segments ms \<subseteq> sent_segments (ms @ ns)"
  by simp

interpretation accounting: node_invariant
  "\<lambda>s. queue_ok qp (n_fs s) \<and> A \<subseteq> accounted w qp s" "\<lambda>p. p \<noteq> qp" "\<lambda>p. p = qp" for qp A w
proof unfold_locales
  show "queue_ok qp (n_fs (on_fs (put_file p x) s)) \<and> A \<subseteq> accounted w qp (on_fs (put_file p x) s)"
    if "queue_ok qp (n_fs s) \<and> A \<subseteq> accounted w qp s" "p \<noteq> qp" for s p x
    using that queue_same [of qp "put_file p x (n_fs s)" "n_fs s"] by (simp add: accounted_def)
  show "queue_ok qp (n_fs (on_fs (unlink p) s)) \<and> A \<subseteq> accounted w qp (on_fs (unlink p) s)"
    if "queue_ok qp (n_fs s) \<and> A \<subseteq> accounted w qp s" "p \<noteq> qp" for s p
    using that queue_same [of qp "unlink p (n_fs s)" "n_fs s"] by (simp add: accounted_def)
  show "queue_ok qp (n_fs (on_fs (rmdir d) s)) \<and> A \<subseteq> accounted w qp (on_fs (rmdir d) s)"
    if "queue_ok qp (n_fs s) \<and> A \<subseteq> accounted w qp s" for s d
    using that queue_same [of qp "rmdir d (n_fs s)" "n_fs s"] by (simp add: accounted_def)
  show "queue_ok qp (n_fs (on_fs (append_file p (l @ nl) now) s)) \<and>
      A \<subseteq> accounted w qp (on_fs (append_file p (l @ nl) now) s)"
    if "queue_ok qp (n_fs s) \<and> A \<subseteq> accounted w qp s" "p = qp" for s p l now
    using that entries_append_any [of qp "n_fs s" w l now] queue_ok_append
    by (auto simp: accounted_def)
qed (auto simp: accounted_def)

lemma flush_accounts:
  assumes "seg_parse w' = seg_parse w"
  shows "keeps (\<lambda>s. queue_ok qp (n_fs s) \<and> A \<subseteq> accounted w qp s) (flush_queue w' qp)"
proof (rule keepsI)
  fix s assume s: "queue_ok qp (n_fs s) \<and> A \<subseteq> accounted w qp s"
  obtain r t where t: "flush_queue w' qp s = (r, t)" by fastforce
  have "queue_entries w' qp f = queue_entries w qp f" for f
    using assms by (simp add: queue_entries_def)
  with flush_queue_effect [OF t] s t
  show "queue_ok qp (n_fs (snd (flush_queue w' qp s))) \<and> A \<subseteq> accounted w qp (snd (flush_queue w' qp s))"
    by (auto simp: accounted_def)
qed

text \<open>The events a run may have: their notices to delete are confined, their entries are read alike.\<close>

definition steady_event :: "node_ext \<Rightarrow> node_config_env \<Rightarrow> node_event \<Rightarrow> bool" where
  "steady_event w cfg e \<longleftrightarrow>
     confined_event cfg e \<and> (\<forall>w'. flushes e = Some w' \<longrightarrow> seg_parse w' = seg_parse w)"

lemma queue_path_below: "strip_dir (recordings_dir cfg) p \<noteq> None \<Longrightarrow> p \<noteq> segment_queue_path cfg"
  by (auto simp: strip_dir_Some recordings_dir_def segment_queue_path_def)

lemma trans_accounts:
  assumes "node_trans cfg tmp P e Q" and "steady_event w cfg e" and "tmp \<noteq> data_dir cfg"
    and "queue_ok (segment_queue_path cfg) (n_fs (np_app P)) \<and>
      A \<subseteq> accounted w (segment_queue_path cfg) (np_app P)"
  shows "queue_ok (segment_queue_path cfg) (n_fs (np_app Q)) \<and>
    A \<subseteq> accounted w (segment_queue_path cfg) (np_app Q)"
proof (rule accounting.keeps_trans [OF assms(1,4)])
  show "mediamtx_config_path cfg \<noteq> segment_queue_path cfg"
    by (simp add: mediamtx_config_path_def segment_queue_path_def)
  show "tmp @ [name] \<noteq> segment_queue_path cfg" for name
    using assms(3) by (simp add: segment_queue_path_def)
  show "keeps (\<lambda>s. queue_ok (segment_queue_path cfg) (n_fs s) \<and>
        A \<subseteq> accounted w (segment_queue_path cfg) s) (flush_queue w' (segment_queue_path cfg))"
    if "flushes e = Some w'" for w'
    using that assms(2) by (intro flush_accounts) (simp add: steady_event_def)
qed (use assms(2) queue_path_below in \<open>auto simp: steady_event_def\<close>)

lemma reaches_accounts:
  assumes "node_reaches (steady_event w cfg) cfg tmp P Q" and "tmp \<noteq> data_dir cfg"
    and "queue_ok (segment_queue_path cfg) (n_fs (np_app P)) \<and>
      A \<subseteq> accounted w (segment_queue_path cfg) (np_app P)"
  shows "queue_ok (segment_queue_path cfg) (n_fs (np_app Q)) \<and>
    A \<subseteq> accounted w (segment_queue_path cfg) (np_app Q)"
  using assms
proof (induction rule: node_reaches.induct)
  case here
  then show ?case by simp
next
  case (there Q e R)
  from there.IH [OF there.prems] show ?case
    by (rule trans_accounts [OF there.hyps(3,2) there.prems(1)])
qed

lemma recorder_event_closed:
  assumes "closed_segment w cfg s sp name = Some e" and "n_io s = []" and "is_segment_complete k"
  shows "snd (recorder_event w (recordings_dir cfg) (segment_queue_path cfg) k
      [recordings_dir cfg @ [sp, name]] s) =
    (on_fs (append_file (segment_queue_path cfg) (seg_json w e @ nl) (utc_now (env w))) s)
      \<lparr>n_flush := n_flush s + 1\<rparr>"
proof -
  from assms(1) obtain c st where c: "find (\<lambda>c. ncc_stream_path c = sp) (n_cameras s) = Some c"
    "parse_stamp w (fst (split_ext name)) = Some st" "snd (split_ext name) = Some ''mp4''"
    "e = flat_segment w (n_fs s) c (recordings_dir cfg) sp name st"
    by (auto simp: closed_segment_def bind_eq_Some_conv split: if_splits)
  then show ?thesis
    using handle_segment_flat [of sp s c w name st "recordings_dir cfg" "segment_queue_path cfg"] assms(2,3)
    by (simp add: recorder_event_def andthen_apply extension_def queue_push_ok on_fs_def)
qed

text \<open>
  C7. A reported segment is never lost by the node: from the moment the file watcher reports a
  closed file of a known camera, its segment is in the queue or has been sent, whatever the other
  tasks do afterwards, in whatever order, over any number of connections and with any I/O
  operations failing, as long as a task's turn is not interrupted (the interleaving of a push with
  a flush is the subject of Backfill); the same holds for every entry the queue had before. (The migration and the
  watchdog may delete the file, but never the queue.)
\<close>

theorem reported_segment_kept:
  assumes "node_trans cfg tmp P (Fs_event w k [recordings_dir cfg @ [sp, name]]) Q"
    and "is_segment_complete k" and "closed_segment w cfg (np_app P) sp name = Some e"
    and "storable w e" and "n_io (np_app P) = []"
    and "queue_ok (segment_queue_path cfg) (n_fs (np_app P))" and "tmp \<noteq> data_dir cfg"
    and "node_reaches (steady_event w cfg) cfg tmp Q R"
  shows "insert e (accounted w (segment_queue_path cfg) (np_app P)) \<subseteq>
    accounted w (segment_queue_path cfg) (np_app R)"
proof -
  let ?qp = "segment_queue_path cfg"
  let ?g = "append_file ?qp (seg_json w e @ nl) (utc_now (env w))"
  have Q: "np_app Q = (on_fs ?g (np_app P))\<lparr>n_flush := n_flush (np_app P) + 1\<rparr>"
    using assms(1) recorder_event_closed [OF assms(3,5,2)] by (auto elim: node_transE)
  have "queue_entries w ?qp (n_fs (np_app Q)) = queue_entries w ?qp (n_fs (np_app P)) @ [e]"
    using queue.entries_append [OF assms(6,4)] by (simp add: Q)
  then have "insert e (accounted w ?qp (np_app P)) \<subseteq> accounted w ?qp (np_app Q)"
    by (auto simp: accounted_def Q)
  moreover have "queue_ok ?qp (n_fs (np_app Q))"
    using queue_ok_append by (simp add: Q)
  ultimately show ?thesis using reaches_accounts [OF assms(8,7)] by blast
qed

text \<open>The recorder reports a segment, then the watchdog and a flush that fails have their turn.\<close>

theorem reported_segment_kept_witness:
  "\<exists>P Q R S. np_app P = sample_node_app \<and>
     node_trans sample_config [''tmp''] P
       (Fs_event sample_node_ext Access_close_write [recordings_dir sample_config @ [''door'', ''19700101_000100.mp4'']]) Q \<and>
     node_trans sample_config [''tmp''] Q (Io_fails [True]) R \<and>
     node_trans sample_config [''tmp''] R (Cull sample_node_ext) S \<and>
     sample_queued \<in> accounted sample_node_ext (segment_queue_path sample_config) (np_app S)"
proof -
  let ?p = "[recordings_dir sample_config @ [''door'', ''19700101_000100.mp4'']]"
  let ?qp = "segment_queue_path sample_config" and ?tmp = "[''tmp'']"
  obtain P :: node_proc where P: "np_app P = sample_node_app" by (metis node_proc.select_convs(1))
  obtain Q where Q: "node_trans sample_config ?tmp P (Fs_event sample_node_ext Access_close_write ?p) Q"
    by (meson node_trans.fs_event)
  obtain R where R: "node_trans sample_config ?tmp Q (Io_fails [True]) R" by (meson node_trans.io_fails)
  obtain S where S: "node_trans sample_config ?tmp R (Cull sample_node_ext) S" by (meson node_trans.cull)
  have "steady_event sample_node_ext sample_config (Io_fails [True])"
    "steady_event sample_node_ext sample_config (Cull sample_node_ext)"
    by (simp_all add: steady_event_def confined_event_def)
  then have r: "node_reaches (steady_event sample_node_ext sample_config) sample_config ?tmp Q S"
    using R S by (meson node_reaches.intros)
  have k: "is_segment_complete Access_close_write" by (simp add: is_segment_complete_def)
  have c: "closed_segment sample_node_ext sample_config (np_app P) ''door'' ''19700101_000100.mp4'' = Some sample_queued"
    by (simp add: P closed_segment_def split_ext_def flat_segment_def file_size_def read_file_def sample_node_defs seconds_def)
  have "queue_ok ?qp (n_fs (np_app P))" "storable sample_node_ext sample_queued" "n_io (np_app P) = []"
    "?tmp \<noteq> data_dir sample_config"
    by (simp_all add: P queue_ok_def read_file_def storable_def sample_node_defs whole_lines_def)
  from reported_segment_kept [OF Q k c this(2,3,1,4) r] P Q R S show ?thesis by auto
qed

end
