(* ===== verification/MotionRuns.thy ===== *)
theory MotionRuns
  imports NodeEvents
begin

text \<open>
  The motion detectors over all their runs: the loop of \<open>node/src/events/diff.rs\<close> that starts
  FFmpeg again after an error, the one of \<open>onvif.rs\<close> that subscribes again, and how often either
  can report motion.
\<close>

section \<open>The frame detector\<close>

definition diff_args :: "node_camera_cfg \<Rightarrow> string list" where
  "diff_args cam =
     [''-loglevel'', ''quiet'', ''-rtsp_transport'', ''tcp'', ''-i'', ncc_rtsp_url cam,
      ''-vf'', ''fps=2,scale=160:90'', ''-f'', ''rawvideo'', ''-pix_fmt'', ''gray'', ''pipe:1'']"

text \<open>
  FFmpeg as a parameter: for its arguments, nothing if it cannot be started, and otherwise the
  frames it writes until it ends, each with the time it takes since the one before and the wall
  clock time at which it is handled. \<open>clocked\<close> turns the times it takes into instants.
\<close>

type_synonym ffmpeg = "string list \<Rightarrow> (frame \<times> nat \<times> time) list option"

fun clocked :: "time \<Rightarrow> (frame \<times> nat \<times> time) list \<Rightarrow> (frame \<times> time \<times> time) list" where
  "clocked t [] = []"
| "clocked t ((f, d, utc) # fs) = (f, t + int d, utc) # clocked (t + int d) fs"

text \<open>The events of one run of FFmpeg, and the instant at which it ends.\<close>

definition diff_loop :: "node_camera_cfg \<Rightarrow> time \<Rightarrow> ffmpeg \<Rightarrow> (time \<times> event_payload) list \<times> time" where
  "diff_loop cam start run =
     (case run (diff_args cam) of
        None \<Rightarrow> ([], start)
      | Some fs \<Rightarrow>
          (let cs = clocked start fs
           in (diff_frames cam (diff_start start) cs, last (start # map (fst \<circ> snd) cs))))"

text \<open>
  \<open>run\<close> from an instant on: each attempt with the time it takes to start FFmpeg; after it has
  ended the task sleeps 15 seconds.
\<close>

fun diff_run :: "node_camera_cfg \<Rightarrow> time \<Rightarrow> (nat \<times> ffmpeg) list \<Rightarrow> (time \<times> event_payload) list" where
  "diff_run cam t [] = []"
| "diff_run cam t ((d, run) # rest) =
     (case diff_loop cam (t + int d) run of
        (es, u) \<Rightarrow> es @ diff_run cam (u + seconds 15) rest)"

section \<open>Spacing\<close>

lemma spaced_earlier: "spaced t es \<Longrightarrow> u \<le> t \<Longrightarrow> spaced u es"
  by (cases es) auto

lemma spaced_from: "spaced t es \<Longrightarrow> \<forall>x \<in> set es. u + cooldown \<le> fst x \<Longrightarrow> spaced u es"
  by (cases es) auto

lemma spaced_append:
  "spaced t (xs @ ys) \<longleftrightarrow> spaced t xs \<and> spaced (if xs = [] then t else fst (last xs)) ys"
  by (induction xs arbitrary: t) auto

lemma cooldown_pos: "cooldown = seconds 10" "0 < cooldown" "cooldown \<le> seconds 15"
  by (simp_all add: cooldown_def seconds_def)

lemma sorted_last_max: "sorted xs \<Longrightarrow> x \<in> set xs \<Longrightarrow> x \<le> last xs"
  by (induction xs) auto

text \<open>A session that spaces its own events within its own time may follow any other.\<close>

lemma spaced_session:
  assumes "spaced v es" and "\<forall>x \<in> set es. start \<le> fst x \<and> fst x \<le> u" and "t \<le> start" and "start \<le> u"
    and "spaced (u + seconds 15 - cooldown) rest"
  shows "spaced (t - cooldown) (es @ rest)"
proof -
  have "spaced (t - cooldown) es"
    using spaced_from [OF assms(1)] assms(2,3) by force
  moreover have "(if es = [] then t - cooldown else fst (last es)) \<le> u + seconds 15 - cooldown"
    using assms(2) [rule_format, of "last es"] assms(3,4) cooldown_pos by auto
  ultimately show ?thesis using spaced_earlier [OF assms(5)] by (simp add: spaced_append)
qed

lemma spaced_count:
  assumes "spaced t es" and "t \<le> u" and "\<forall>x \<in> set es. fst x \<le> u"
  shows "int (length es) * cooldown \<le> u - t"
  using assms
proof (induction es arbitrary: t)
  case (Cons x es)
  from Cons.IH [of "fst x"] Cons.prems show ?case by (cases x) (auto simp: algebra_simps)
qed simp

section \<open>Both detectors\<close>

lemma diff_frames_times: "fst ` set (diff_frames cam st fs) \<subseteq> set (map (fst \<circ> snd) fs)"
proof (induction fs arbitrary: st)
  case (Cons f fs)
  obtain cur now utc where f: "f = (cur, now, utc)" by (cases f)
  from Cons.IH [of "\<lparr>prev_frame = cur, is_first = False, last_event = now\<rparr>"]
    Cons.IH [of "\<lparr>prev_frame = cur, is_first = False, last_event = last_event st\<rparr>"]
  show ?case by (auto simp: f Let_def)
qed simp

lemma clocked_sorted: "sorted (t # map (fst \<circ> snd) (clocked t fs))"
proof (induction fs arbitrary: t)
  case (Cons f fs)
  obtain x d utc where f: "f = (x, d, utc)" by (cases f)
  from Cons.IH [of "t + int d"] show ?case by (auto simp: f)
qed simp

lemma diff_loop_times:
  assumes "diff_loop cam start run = (es, u)"
  shows "spaced (start - cooldown * 2) es" and "\<forall>x \<in> set es. start \<le> fst x \<and> fst x \<le> u" and "start \<le> u"
proof -
  have "spaced (start - cooldown * 2) es \<and> (\<forall>x \<in> set es. start \<le> fst x \<and> fst x \<le> u) \<and> start \<le> u"
  proof (cases "run (diff_args cam)")
    case None
    with assms show ?thesis by (auto simp: diff_loop_def)
  next
    case (Some fs)
    let ?nows = "map (fst \<circ> snd) (clocked start fs)"
    from assms Some have es: "es = diff_frames cam (diff_start start) (clocked start fs)"
      and u: "u = last (start # ?nows)" by (auto simp: diff_loop_def Let_def)
    note srt = clocked_sorted [of start fs]
    have "fst ` set es \<subseteq> set ?nows" unfolding es by (rule diff_frames_times)
    then have mem: "fst x \<in> set ?nows" if "x \<in> set es" for x using that by blast
    have "start \<le> fst x \<and> fst x \<le> u" if "x \<in> set es" for x
    proof
      show "start \<le> fst x" using srt mem [OF that] by (simp only: sorted_simps)
      show "fst x \<le> u" unfolding u using mem [OF that] by (intro sorted_last_max [OF srt]) simp
    qed
    moreover have "start \<le> u" unfolding u by (rule sorted_last_max [OF srt]) simp
    moreover have "spaced (start - cooldown * 2) es"
      unfolding es using diff_frames_spaced [of "diff_start start"] by (simp add: diff_start_def)
    ultimately show ?thesis by blast
  qed
  then show "spaced (start - cooldown * 2) es" "\<forall>x \<in> set es. start \<le> fst x \<and> fst x \<le> u" "start \<le> u"
    by blast+
qed

lemma onvif_round_times: "onvif_round cam addr user pw w now st = (out, es) \<Longrightarrow> fst ` set es \<subseteq> {now}"
  using onvif_round_cases [of cam addr user pw w now st out es] by auto

lemma onvif_rounds_times:
  "onvif_rounds cam addr user pw t rs st = (out, es, u) \<Longrightarrow>
     t \<le> u \<and> (\<forall>x \<in> set es. t \<le> fst x \<and> fst x \<le> u)"
proof (induction rs arbitrary: st t es)
  case (Cons x rs)
  obtain w d where x: "x = (w, d)" by (cases x)
  obtain out1 es1 where o: "onvif_round cam addr user pw w (t + int d) st = (out1, es1)" by fastforce
  note now = onvif_round_times [OF o]
  show ?case
  proof (cases out1)
    case (Polling st')
    obtain es' where r: "onvif_rounds cam addr user pw (t + int d + poll_interval) rs st' = (out, es', u)"
      and es: "es = es1 @ es'"
      using Cons.prems o Polling by (auto simp: x split: prod.splits)
    have p: "0 \<le> poll_interval" by (simp add: poll_interval_def seconds_def)
    from Cons.IH [OF r] have "t + int d + poll_interval \<le> u"
      "\<forall>y \<in> set es'. t + int d + poll_interval \<le> fst y \<and> fst y \<le> u" by auto
    moreover have "\<forall>y \<in> set es1. fst y = t + int d" using now by auto
    ultimately show ?thesis using p unfolding es by fastforce
  qed (use now o Cons.prems in \<open>auto simp: x\<close>)
qed simp

lemma subscribe_times:
  assumes "subscribe_and_poll cam url user pw w start rounds = (out, es, u)"
  shows "spaced (start - cooldown * 2) es \<and> (\<forall>x \<in> set es. start \<le> fst x \<and> fst x \<le> u) \<and> start \<le> u"
proof -
  let ?st = "\<lparr>last_motion = start - cooldown * 2, last_renew = start\<rparr>"
  consider "es = []" "u = start" | addr where "onvif_rounds cam addr user pw start rounds ?st = (out, es, u)"
    using assms by (auto simp: subscribe_and_poll_def split: option.split_asm)
  then show ?thesis
  proof cases
    case (2 addr)
    from onvif_rounds_spaced [OF 2] onvif_rounds_times [OF 2] show ?thesis by simp
  qed simp
qed

lemma diff_run_spaced: "spaced (t - cooldown) (diff_run cam t ds)"
proof (induction ds arbitrary: t)
  case (Cons x ds)
  obtain d run where x: "x = (d, run)" by (cases x)
  obtain es u where l: "diff_loop cam (t + int d) run = (es, u)" by fastforce
  have "spaced (u + seconds 15 - cooldown) (diff_run cam (u + seconds 15) ds)" by (rule Cons.IH)
  from spaced_session [OF diff_loop_times(1,2) [OF l] _ diff_loop_times(3) [OF l] this, of t]
  show ?case by (simp add: x l)
qed simp

lemma onvif_run_spaced: "spaced (t - cooldown) (snd (onvif_run cam t os))"
proof (induction os arbitrary: t)
  case (Cons x os)
  obtain w d rounds where x: "x = (w, d, rounds)" by (cases x)
  let ?get = "\<lambda>f. case f of None \<Rightarrow> [] | Some v \<Rightarrow> v"
  obtain out es u where o: "subscribe_and_poll (ncc_id cam) (?get (ncc_onvif_url cam))
      (?get (ncc_onvif_username cam)) (?get (ncc_onvif_password cam)) w (t + int d) rounds = (out, es, u)"
    by (rule prod_cases3)
  note s = subscribe_times [OF o]
  have "\<exists>rest. snd (onvif_run cam t (x # os)) = es @ rest \<and>
      (rest = [] \<or> rest = snd (onvif_run cam (u + seconds 15) os))"
    using o by (auto simp: x Let_def split: onvif_outcome.split prod.split)
  then obtain rest where rest: "snd (onvif_run cam t (x # os)) = es @ rest"
    "rest = [] \<or> rest = snd (onvif_run cam (u + seconds 15) os)" by blast
  then have "spaced (u + seconds 15 - cooldown) rest"
    using Cons.IH [of "u + seconds 15"] by auto
  from spaced_session [OF _ _ _ _ this, of "t + int d - cooldown * 2" es "t + int d" t] s
  show ?case by (simp only: rest(1)) simp
qed simp

section \<open>Scores\<close>

lemma frame_diff_le_1:
  assumes "length a = frame_bytes" and "length b = frame_bytes"
  shows "frame_diff a b \<le> 1"
proof -
  have "sum_list (map (\<lambda>(x, y). \<bar>uint x - uint y\<bar>) (zip p q)) \<le> 255 * int (length p)"
    if "length p = length q" for p q :: frame
    using that
  proof (induction p q rule: list_induct2)
    case (Cons x p y q)
    have "uint x < 256" "uint y < 256" using uint_bounded [of x] uint_bounded [of y] by simp_all
    moreover have "0 \<le> uint x" "0 \<le> uint y" by simp_all
    ultimately have "\<bar>uint x - uint y\<bar> \<le> 255" by linarith
    with Cons.IH show ?case by simp
  qed simp
  from this [of a b] assms have "sum_list (map (\<lambda>(x, y). \<bar>uint x - uint y\<bar>) (zip a b)) \<le> int (frame_bytes * 255)"
    by simp
  then have "of_int (sum_list (map (\<lambda>(x, y). \<bar>uint x - uint y\<bar>) (zip a b))) \<le> (of_int (int (frame_bytes * 255)) :: rat)"
    by (simp only: of_int_le_iff)
  then show ?thesis by (simp add: frame_diff_def frame_bytes_def)
qed

lemma diff_frames_scores:
  assumes "length (prev_frame st) = frame_bytes" and "\<forall>f \<in> set fs. length (fst f) = frame_bytes"
    and "x \<in> set (diff_frames cam st fs)"
  shows "ep_camera_id (snd x) = ncc_id cam \<and> ep_source (snd x) = ''diff'' \<and>
    (\<exists>q. ep_score (snd x) = Some q \<and> threshold \<le> q \<and> q \<le> 1)"
  using assms
  by (induction cam st fs rule: diff_frames.induct) (auto simp: Let_def frame_diff_le_1 split: if_splits)

lemma clocked_frames: "fst ` set (clocked t fs) = fst ` set fs"
  by (induction t fs rule: clocked.induct) auto

text \<open>
  C14. How often a detector reports motion: through any number of sessions, failed starts of
  FFmpeg and refused subscriptions, however long each takes, the task of either kind keeps at
  least ten seconds between two events: within a session by its cooldown, and between two since
  the task sleeps 15 seconds before it starts anew with its last event forgotten. So over a time
  \<open>u - t\<close> a task sends at most one event more than one for every ten seconds; and every event of
  the frame detector is of its camera and carries a score between the threshold of 2 percent and
  1. The bound is one for each task: the manager that replaces a task, when an address of the
  camera changes, starts the next at once.
\<close>

theorem motion_rate:
  assumes "\<forall>(d, run) \<in> set ds. \<forall>fs. run (diff_args cam) = Some fs \<longrightarrow>
      (\<forall>f \<in> set fs. length (fst f) = frame_bytes)"
  shows "spaced (t - cooldown) (diff_run cam t ds) \<and> spaced (t - cooldown) (snd (onvif_run cam t os)) \<and>
    (\<forall>u \<ge> t. \<forall>es \<in> {diff_run cam t ds, snd (onvif_run cam t os)}. (\<forall>x \<in> set es. fst x \<le> u) \<longrightarrow>
       int (length es) * seconds 10 \<le> u - t + seconds 10) \<and>
    (\<forall>(now, e) \<in> set (diff_run cam t ds). ep_camera_id e = ncc_id cam \<and> ep_source e = ''diff'' \<and>
       (\<exists>q. ep_score e = Some q \<and> threshold \<le> q \<and> q \<le> 1))"
proof (intro conjI)
  show d: "spaced (t - cooldown) (diff_run cam t ds)" by (rule diff_run_spaced)
  show o: "spaced (t - cooldown) (snd (onvif_run cam t os))" by (rule onvif_run_spaced)
  show "\<forall>u \<ge> t. \<forall>es \<in> {diff_run cam t ds, snd (onvif_run cam t os)}. (\<forall>x \<in> set es. fst x \<le> u) \<longrightarrow>
       int (length es) * seconds 10 \<le> u - t + seconds 10"
  proof (intro allI impI ballI)
    fix u es assume "t \<le> u" "es \<in> {diff_run cam t ds, snd (onvif_run cam t os)}" "\<forall>x \<in> set es. fst x \<le> u"
    moreover from this(2) d o have "spaced (t - cooldown) es" by auto
    ultimately have "int (length es) * cooldown \<le> u - (t - cooldown)"
      using spaced_count [of "t - cooldown" es u] cooldown_pos by simp
    then show "int (length es) * seconds 10 \<le> u - t + seconds 10" by (simp add: cooldown_def)
  qed
  have "\<forall>x \<in> set (diff_run cam t ds). ep_camera_id (snd x) = ncc_id cam \<and> ep_source (snd x) = ''diff'' \<and>
      (\<exists>q. ep_score (snd x) = Some q \<and> threshold \<le> q \<and> q \<le> 1)"
    using assms
  proof (induction ds arbitrary: t)
    case (Cons p ds)
    obtain d run where p: "p = (d, run)" by (cases p)
    obtain es u where l: "diff_loop cam (t + int d) run = (es, u)" by fastforce
    have start: "length (prev_frame (diff_start i)) = frame_bytes" for i by (simp add: diff_start_def)
    have "\<forall>x \<in> set es. ep_camera_id (snd x) = ncc_id cam \<and>
        ep_source (snd x) = ''diff'' \<and> (\<exists>q. ep_score (snd x) = Some q \<and> threshold \<le> q \<and> q \<le> 1)"
    proof (cases "run (diff_args cam)")
      case None
      with l show ?thesis by (simp add: diff_loop_def)
    next
      case (Some fs)
      with Cons.prems have "\<forall>y \<in> fst ` set fs. length y = frame_bytes" by (auto simp: p)
      then have "\<forall>f \<in> set (clocked (t + int d) fs). length (fst f) = frame_bytes"
        unfolding clocked_frames [of "t + int d", symmetric] by blast
      then show ?thesis
        using diff_frames_scores [OF start] l Some by (auto simp: diff_loop_def Let_def)
    qed
    with Cons show ?case by (auto simp: p l)
  qed simp
  then show "\<forall>(now, e) \<in> set (diff_run cam t ds). ep_camera_id e = ncc_id cam \<and> ep_source e = ''diff'' \<and>
      (\<exists>q. ep_score e = Some q \<and> threshold \<le> q \<and> q \<le> 1)" by auto
qed

text \<open>
  A black frame, a white one a second later that fires, an error, a failed start, and the same
  again: the task is back 30 seconds after the first event.
\<close>

definition black_white :: ffmpeg where
  "black_white = (\<lambda>args. Some [(replicate frame_bytes 0, 0, 0), (replicate frame_bytes 255, 1000000, 0)])"

lemma frame_diff_black_white: "frame_diff (replicate n 0) (replicate n 255) = of_nat n * 255 / (of_nat frame_bytes * 255)"
proof -
  have "sum_list (map (\<lambda>(x, y). \<bar>uint x - uint y\<bar>) (zip (replicate n (0 :: 8 word)) (replicate n (255 :: 8 word)))) = int n * 255"
    by (induction n) simp_all
  then show ?thesis by (simp add: frame_diff_def)
qed

lemma black_white_fires:
  "\<exists>e. diff_loop cam t black_white = ([(t + seconds 1, e)], t + seconds 1)"
proof -
  have "frame_diff (replicate frame_bytes 0) (replicate frame_bytes 255) = 1"
    unfolding frame_diff_black_white by (simp add: frame_bytes_def)
  then show ?thesis
    by (simp add: diff_loop_def black_white_def diff_start_def Let_def threshold_def cooldown_def seconds_def)
qed

theorem motion_rate_witness:
  "let es = diff_run sample_cam_cfg 0 [(0, black_white), (0, \<lambda>_. None), (0, black_white)]
   in map fst es = [seconds 1, seconds 32] \<and> spaced (- seconds 10) es \<and> int (length es) * seconds 10 \<le> seconds 42"
proof -
  let ?ds = "[(0 :: nat, black_white), (0, \<lambda>_. None), (0, black_white)]"
  have es: "map fst (diff_run sample_cam_cfg 0 ?ds) = [seconds 1, seconds 32]"
  proof -
    obtain e1 where 1: "diff_loop sample_cam_cfg 0 black_white = ([(0 + seconds 1, e1)], 0 + seconds 1)"
      using black_white_fires by blast
    obtain e2 where 2: "diff_loop sample_cam_cfg (seconds 31) black_white = ([(seconds 31 + seconds 1, e2)], seconds 31 + seconds 1)"
      using black_white_fires by blast
    have n: "diff_loop sample_cam_cfg u (\<lambda>_. None) = ([], u)" for u by (simp add: diff_loop_def)
    have "seconds 1 + seconds 15 + seconds 15 = seconds 31" by (simp add: seconds_def)
    with 1 2 n show ?thesis by simp (simp add: seconds_def)
  qed
  have "\<forall>(d, run) \<in> set ?ds. \<forall>fs. run (diff_args sample_cam_cfg) = Some fs \<longrightarrow>
      (\<forall>f \<in> set fs. length (fst f) = frame_bytes)"
    by (simp add: black_white_def)
  from motion_rate [OF this, of 0 "[]"] have rate: "spaced (0 - cooldown) (diff_run sample_cam_cfg 0 ?ds)"
    "\<forall>u \<ge> 0. (\<forall>x \<in> set (diff_run sample_cam_cfg 0 ?ds). fst x \<le> u) \<longrightarrow>
       int (length (diff_run sample_cam_cfg 0 ?ds)) * seconds 10 \<le> u - 0 + seconds 10"
    by blast+
  have "\<forall>y \<in> set (map fst (diff_run sample_cam_cfg 0 ?ds)). y \<le> seconds 32"
    unfolding es by (simp add: seconds_def)
  then have "\<forall>x \<in> set (diff_run sample_cam_cfg 0 ?ds). fst x \<le> seconds 32" unfolding set_map by blast
  then have "int (length (diff_run sample_cam_cfg 0 ?ds)) * seconds 10 \<le> seconds 32 + seconds 10"
    using rate(2) [rule_format, of "seconds 32"] by (auto simp: seconds_def simp del: diff_run.simps)
  moreover have "seconds 32 + seconds 10 = seconds 42" "0 - cooldown = - seconds 10"
    by (simp_all add: seconds_def cooldown_def)
  ultimately show ?thesis using es rate(1) unfolding Let_def by metis
qed

text \<open>
  Two tasks of one camera: when its RTSP address changes, the manager's next round has a task that
  knows nothing of the events of the one it replaces, and can fire within its first second.
\<close>

lemma respawn_forgets_cooldown:
  assumes "find (\<lambda>c. ncc_id c = i) list = Some c" and "distinct (map ncc_id list)" and "watched c"
    and "running i = Some task" and "ct_sig task \<noteq> task_sig c"
  shows "reconcile hw list running i = new_task hw c \<and>
    map fst (diff_run c t [(0, black_white)]) = [t + seconds 1]"
proof
  show "reconcile hw list running i = new_task hw c"
    using assms by (simp add: reconcile_at)
  obtain e where "diff_loop c t black_white = ([(t + seconds 1, e)], t + seconds 1)"
    using black_white_fires by blast
  then show "map fst (diff_run c t [(0, black_white)]) = [t + seconds 1]" by simp
qed

end
