(* ===== verification/Spec2Isabelle.thy ===== *)
theory Spec2Isabelle
  imports ApiAnswers Startup NodeServer NodeProcess MotionRuns Migration Mirror ForeignDelete NodeProtocol
begin

text \<open>
  64cam is a network video recorder. A coordinator (\<open>coordinator/\<close>) keeps users, nodes, cameras,
  retention policies, recordings and events in PostgreSQL (\<open>migrations/\<close>) and serves an HTTP API,
  a socket for dashboards and a socket for nodes. Recording nodes (\<open>node/\<close>) register with it, run
  MediaMTX for their cameras, report finished segments and motion, move old segments to S3 and
  delete what the coordinator tells them to. Both sides share the row types and the messages of
  \<open>common/\<close>. This library models both sides and what they do to each other.

  How the model reads. A handler is a program over an explicit state (\<open>prog\<close> in Prelude): it
  returns an error or a result, and the state it leaves, also when it fails. The coordinator's
  state is \<open>app\<close>: the database, the senders of \<open>AppState\<close>, the messages waiting in the
  channels, and \<open>faults\<close>, which says which of the coming database round trips fail. The node's
  state is \<open>node_app\<close>: the shared camera list, the channels between its tasks, the sequence
  number, what was sent on the socket, the file system, and \<open>n_io\<close>, which says which of the
  coming I/O operations fail. Every \<open>?\<close>, early return and ignored result of the source is a
  branch of these programs. A statement about failures quantifies over \<open>faults\<close> or \<open>n_io\<close>.

  \<^bold>\<open>Shared\<close>
  \<^item> Prelude: the program monad, its evaluation rules (collection \<open>prog_simps\<close>), preservation of
    invariants (\<open>keeps\<close>, \<open>keeps_rules\<close>), and lemmas on lists, text and time.
  \<^item> Models: \<open>common/src/models\<close> and \<open>common/src/ws.rs\<close>.
  \<^item> Database: the tables of \<open>migrations/\<close> as lists of rows, statements as functions on them;
    the locale of a keyed table states what a lookup finds after insert, update and delete, and is
    interpreted on every table.
  \<^item> Integrity: the checks, foreign keys and cascades of the schema, and the invariant \<open>db_ok\<close>.
  \<^item> Sample, NodeState: the concrete states on which the witnesses run.

  \<^bold>\<open>Coordinator\<close>
  \<^item> AppState: \<open>state.rs\<close>, \<open>error.rs\<close>. Auth: \<open>common/src/auth.rs\<close>, \<open>middleware/auth.rs\<close>,
    \<open>routes/auth.rs\<close>: a login opens exactly one session, a refresh token works once in sequence and
    twice when interleaved, a logout ends all sessions of its user.
  \<^item> Users, Nodes, Cameras: \<open>routes/users.rs\<close>, \<open>bin/migrate.rs\<close>, \<open>routes/nodes.rs\<close>,
    \<open>routes/cameras.rs\<close>: who may do what, which rows change, and what the nodes are told.
  \<^item> Retention: \<open>routes/retention.rs\<close> and \<open>retention.rs\<close>: policies change atomically, a pass of
    the enforcer deletes exactly the oldest expired recordings.
  \<^item> NodeSocket: \<open>routes/node_ws.rs\<close>: authentication, the phases of a socket, and the effect of
    every message of a node on the database.
  \<^item> Presign, SigV4: \<open>storage.rs\<close> and \<open>node/src/storage/sigv4.rs\<close>. Playback: \<open>routes/playback.rs\<close>,
    \<open>routes/events.rs\<close>, \<open>routes/whep.rs\<close>, \<open>routes/dashboard_ws.rs\<close>.
  \<^item> Router: \<open>routes/mod.rs\<close>; the running coordinator as a step relation (\<open>serve\<close>) over single
    statements and channel operations, so that handlers interleave at every \<open>await\<close>; the creation
    of a camera is its capacity check and its insertion. The invariant of every reachable state,
    the handlers as runs of steps, and the privileges of callers.
  \<^item> Startup: \<open>main.rs\<close> and \<open>bin/migrate.rs\<close> as functions from the environment and the database
    to the running server or an error, and the life of an installation over any starts and stops.
  \<^item> ApiDoc: \<open>openapi.rs\<close>, the \<open>utoipa::path\<close> attributes of all handlers as data, and the table of
    routes: the document describes the routes. ApiAnswers: the statuses a handler can answer with,
    by rules like those of \<open>keeps\<close> (\<open>answers\<close>, \<open>returns\<close>), and the rejections of its extractors
    (\<open>receive\<close>), compared with the document, and the exact access matrix (\<open>permitted\<close>).

  \<^bold>\<open>Node\<close>
  \<^item> NodeState: \<open>main.rs\<close>, \<open>config.rs\<close>, and the part of paths and of the file system the node
    calls. NodeSetup: \<open>identity.rs\<close>, \<open>registration.rs\<close>, \<open>hardware.rs\<close>.
  \<^item> SegmentQueue: \<open>recorder/queue.rs\<close>; the locale \<open>segment_log\<close> states the queue as a log and is
    interpreted on the file of lines. Recorder: \<open>recorder/mod.rs\<close>. Watchdog:
    \<open>recorder/watchdog.rs\<close>, which with a relative \<open>DATA_DIR\<close> never finds its disk.
  \<^item> NodeClient: \<open>ws_client.rs\<close>, every branch of the \<open>select!\<close> loop. NodeProtocol: what a node sends
    over any number of connections.
  \<^item> Migration: \<open>storage/mod.rs\<close>. NodeEvents: \<open>events/mod.rs\<close>, \<open>events/diff.rs\<close>,
    \<open>events/onvif.rs\<close>; MotionRuns: their restarts on a clock that the waits of the source move on,
    how often the task of either reports motion, and that a task that is replaced forgets when it
    last did.
    NodePlayback: clip export of \<open>playback.rs\<close>. MediaMtx: \<open>mediamtx/config.rs\<close>,
    \<open>mediamtx/mod.rs\<close>.
  \<^item> NodeProcess: \<open>main.rs\<close>; the running node as a step relation (\<open>node_trans\<close>) over everything
    its tasks do, in any order. The locale \<open>node_invariant\<close> states what a property of the shared
    state needs so that all tasks keep it; its two interpretations show that a node leaves other
    files alone and that a reported segment stays in the queue until it is sent.

  \<^bold>\<open>Both sides together\<close>
  \<^item> Mirror: the node's camera list refines the coordinator's table. The abstract state is the
    configuration per camera; the concrete one is the database, the messages that handlers still
    have to push, the channel, the wire and the list, under the interleavings of statements,
    pushes, forwarding and handling (\<open>mirror_step\<close>) in which no two changes of one camera overlap;
    what happens when they do, and when a node is deleted, are lemmas of their own. The locale
    \<open>replica\<close> states what a replayed log of messages yields.
  \<^item> Backfill: from a closed file to a row, through failing flushes; and the one order of steps in
    which a segment is lost. Migration continues this to the object in S3.
  \<^item> ForeignDelete: how a \<open>SegmentMigrated\<close> of one node and the enforcer make another node delete
    a file outside its recordings.
  \<^item> Expiry: from a row that expires to the file on the disk of its node, or, for a node that is not
    connected, to a file that stays. NodeServer: \<open>serve\<close> of \<open>node/src/playback.rs\<close>, and how the
    coordinator's requests for segments miss it.

  \<^bold>\<open>Termination and bounds.\<close> Every function is total and has no fuel: an endless loop of the
  source is its body and a fold of it over the events that come (\<open>client_loop\<close>, \<open>run_enforcer\<close>,
  \<open>migrate_ticks\<close>, \<open>reconcile_rounds\<close>, \<open>onvif_rounds\<close>, \<open>diff_run\<close>), so a statement about all lists of events
  is one about every finite part of a run. Loops that are not structural recursions end by a
  measure on the rest of the text (\<open>text_lines\<close>, \<open>replace_str\<close>). Integers keep their width as
  words; the product of hours and 3600 in \<open>migrate_after_secs\<close> wraps around; \<open>f32\<close> and \<open>f64\<close> are
  rationals. Times are integers in microseconds.

  \<^bold>\<open>Parameters.\<close> What is not defined in this repository is a field of \<open>ext\<close>, \<open>node_ext\<close>,
  \<open>setup_ext\<close>, \<open>host_ext\<close> or \<open>node_http\<close>: Argon2, JWT, SHA-256, HMAC, hex, fresh ids, clocks and their formats, environment
  variables, one HTTP request, serde on the types it is used for, UUIDv5, the list of disks, MediaMTX's
  list of paths, whether the database answers and an address can be bound, FFmpeg's frames, and
  \<open>ServeDir\<close>. Where a property needs something of them, it is a hypothesis (a
  segment's JSON is one line and reads back: \<open>storable\<close>; \<open>ServeDir\<close> serves the files whose names
  stand for themselves in a URL: \<open>serves_files\<close>), and its witness instantiates them. The statuses
  with which axum's extractors refuse a request are those of its documentation.

  \<^bold>\<open>Atomicity.\<close> On the coordinator a statement or a channel operation is a step; a transaction is
  the sequence of its statements if it commits, and nothing if it does not. On the node the turn of a task is one (\<open>node_trans\<close>), although a flush awaits between
  reading the queue, sending and clearing it; what the recorder can lose in between is a property
  of its own. A push to the queue is complete when it returns, although \<open>recorder/queue.rs\<close> writes
  through a \<open>tokio\<close> file that it does not flush, so the last bytes may reach the file a little
  later.

  \<^bold>\<open>Not modelled.\<close> The bodies of WebRTC and video streams, Range requests (\<open>ServeDir\<close>), the file
  watcher and the directory walk as crates (a walk yields the regular files in some order;
  directories are not deleted while it runs), symbolic links and names that are not UTF-8, partial
  writes, tracing, the reload signal to MediaMTX, the matching of a request to a route by axum (with
  its 404 and 405) and the parsing by its extractors, of which only the refusals are modelled, the
  Swagger UI and the static files of the coordinator, a migration that fails half-way, the fields of
  the schemas in the API document, \<open>db.rs\<close>, which nothing calls, and the front ends.
\<close>

end
